(* ===== verification/GoRegexp.thy ===== *)
theory GoRegexp
  imports GoStrings
begin

text \<open>
  Go's package \<open>regexp\<close> as the agent uses it: leftmost-first matching, one capture
  group and \<open>ReplaceAllString\<close>. A match attempt enumerates the ways an expression can
  match at a position in the order of preference of a backtracking matcher (the first
  alternative before the second, a longer greedy repetition before a shorter one); the
  first of them is the match Go reports.

  The expressions work on bytes. Every class of the agent's patterns either contains
  only ASCII bytes or is a negated class that contains every non-ASCII byte, so a match
  on bytes covers the same text as a match on runes. The bodies of the repetitions are
  never empty.
\<close>

datatype rx =
    REps
  | RClass "char \<Rightarrow> bool"
  | RSeq rx rx
  | RAlt rx rx
  | RStar rx
  | RWordB
  | RGroup rx

text \<open>
  A position: the bytes before it (nearest first), the bytes after it, and the text of
  the capture group, if it has matched.
\<close>

type_synonym pos = "string \<times> string \<times> string option"

definition is_word :: "char \<Rightarrow> bool" where
  "is_word c \<longleftrightarrow> is_digit c \<or> is_lower c \<or> is_upper c \<or> c = CHR ''_''"

definition word_head :: "string \<Rightarrow> bool" where
  "word_head s = (case s of [] \<Rightarrow> False | c # _ \<Rightarrow> is_word c)"

definition at_boundary :: "string \<Rightarrow> string \<Rightarrow> bool" where
  "at_boundary pre s \<longleftrightarrow> word_head pre \<noteq> word_head s"

definition group_text :: "string \<Rightarrow> string \<Rightarrow> string" where
  "group_text pre pre' = rev (take (length pre' - length pre) pre')"

definition set_group :: "string \<Rightarrow> pos \<Rightarrow> pos" where
  "set_group pre p = (fst p, fst (snd p), Some (group_text pre (fst p)))"

function rx_run :: "rx \<Rightarrow> pos \<Rightarrow> pos list" where
  "rx_run REps p = [p]"
| "rx_run (RClass P) p =
     (case fst (snd p) of
        [] \<Rightarrow> []
      | c # s \<Rightarrow> if P c then [(c # fst p, s, snd (snd p))] else [])"
| "rx_run (RSeq a b) p = concat (map (rx_run b) (rx_run a p))"
| "rx_run (RAlt a b) p = rx_run a p @ rx_run b p"
| "rx_run (RStar a) p =
     concat (map (rx_run (RStar a))
       (filter (\<lambda>q. length (fst (snd q)) < length (fst (snd p))) (rx_run a p))) @ [p]"
| "rx_run RWordB p = (if at_boundary (fst p) (fst (snd p)) then [p] else [])"
| "rx_run (RGroup a) p = map (set_group (fst p)) (rx_run a p)"
  by pat_completeness auto
termination
  by (relation "measures [\<lambda>(r, p). size r, \<lambda>(r, p). length (fst (snd p))]") auto

declare rx_run.simps(5) [simp del]

lemmas rx_run_Star = rx_run.simps(5)

definition RPlus :: "rx \<Rightarrow> rx" where
  "RPlus a = RSeq a (RStar a)"

fun RRepeat :: "nat \<Rightarrow> rx \<Rightarrow> rx" where
  "RRepeat 0 a = REps"
| "RRepeat (Suc n) a = RSeq a (RRepeat n a)"

definition RByte :: "char \<Rightarrow> rx" where
  "RByte c = RClass (\<lambda>d. d = c)"

fun RLit :: "string \<Rightarrow> rx" where
  "RLit [] = REps"
| "RLit (c # s) = RSeq (RByte c) (RLit s)"

text \<open>
  A letter under \<open>(?i)\<close>: both cases, and for \<open>s\<close> and \<open>k\<close> also the runes U+017F and
  U+212A that fold to them.
\<close>

definition RFold :: "char \<Rightarrow> rx" where
  "RFold c =
     (let base = RClass (\<lambda>d. lower_byte d = lower_byte c)
      in if lower_byte c = CHR ''s'' then RAlt base (RLit [CHR 0xC5, CHR 0xBF])
         else if lower_byte c = CHR ''k'' then RAlt base (RLit [CHR 0xE2, CHR 0x84, CHR 0xAA])
         else base)"

fun RLitFold :: "string \<Rightarrow> rx" where
  "RLitFold [] = REps"
| "RLitFold (c # s) = RSeq (RFold c) (RLitFold s)"

fun RAlts :: "rx list \<Rightarrow> rx" where
  "RAlts [] = RClass (\<lambda>_. False)"
| "RAlts [a] = a"
| "RAlts (a # as) = RAlt a (RAlts as)"

section \<open>Searching and replacing\<close>

text \<open>The preferred match at a position: the position after it.\<close>

definition match_at :: "rx \<Rightarrow> string \<Rightarrow> string \<Rightarrow> pos option" where
  "match_at r pre s = (case rx_run r (pre, s, None) of [] \<Rightarrow> None | q # _ \<Rightarrow> Some q)"

definition has_match :: "rx \<Rightarrow> string \<Rightarrow> string \<Rightarrow> bool" where
  "has_match r pre s \<longleftrightarrow> rx_run r (pre, s, None) \<noteq> []"

text \<open>\<open>MatchString\<close> (with \<open>pre = []\<close>): some position of the text has a match.\<close>

fun matches_from :: "rx \<Rightarrow> string \<Rightarrow> string \<Rightarrow> bool" where
  "matches_from r pre [] = has_match r pre []"
| "matches_from r pre (c # s) = (has_match r pre (c # s) \<or> matches_from r (c # pre) s)"

definition MatchString :: "rx \<Rightarrow> string \<Rightarrow> bool" where
  "MatchString r s = matches_from r [] s"

text \<open>
  \<open>ReplaceAllString\<close>: the leftmost matches, none overlapping the one before it, are
  replaced by the template applied to the group's text. (An empty match, which the
  agent's patterns never have, is passed over.)
\<close>

function replace_from :: "rx \<Rightarrow> (string option \<Rightarrow> string) \<Rightarrow> string \<Rightarrow> string \<Rightarrow> string" where
  "replace_from r tmpl pre s =
     (case match_at r pre s of
        Some q \<Rightarrow>
          (if length (fst (snd q)) < length s
           then tmpl (snd (snd q)) @ replace_from r tmpl (fst q) (fst (snd q))
           else (case s of [] \<Rightarrow> [] | c # t \<Rightarrow> c # replace_from r tmpl (c # pre) t))
      | None \<Rightarrow> (case s of [] \<Rightarrow> [] | c # t \<Rightarrow> c # replace_from r tmpl (c # pre) t))"
  by pat_completeness auto
termination
  by (relation "measure (\<lambda>(r, tmpl, pre, s). length s)") auto

declare replace_from.simps [simp del]

definition ReplaceAllString :: "rx \<Rightarrow> (string option \<Rightarrow> string) \<Rightarrow> string \<Rightarrow> string" where
  "ReplaceAllString r tmpl s = replace_from r tmpl [] s"

section \<open>Lemmas\<close>

text \<open>A match moves bytes from the text after the position to the text before it.\<close>

definition advances :: "pos \<Rightarrow> pos \<Rightarrow> bool" where
  "advances p q \<longleftrightarrow> (\<exists>w. fst (snd p) = w @ fst (snd q) \<and> fst q = rev w @ fst p)"

lemma advances_refl [simp]: "advances p p"
  by (simp add: advances_def)

lemma advances_trans: "advances p q \<Longrightarrow> advances q r \<Longrightarrow> advances p r"
  by (force simp: advances_def)

lemma rx_run_advances: "q \<in> set (rx_run r p) \<Longrightarrow> advances p q"
proof (induction r p arbitrary: q rule: rx_run.induct)
  case (2 P p)
  then show ?case by (auto simp: advances_def split: list.splits if_splits)
next
  case (3 a b p)
  then obtain m where m: "m \<in> set (rx_run a p)" "q \<in> set (rx_run b m)" by auto
  then show ?case using "3.IH" by (blast intro: advances_trans)
next
  case (5 a p)
  show ?case
  proof (cases "q = p")
    case False
    then obtain m where "m \<in> set (rx_run a p)"
      "length (fst (snd m)) < length (fst (snd p))" "q \<in> set (rx_run (RStar a) m)"
      using "5.prems" unfolding rx_run_Star [of a p] by auto
    moreover from this have "advances m q" using "5.IH"(2) by simp
    ultimately show ?thesis using "5.IH"(1) advances_trans by blast
  qed simp
next
  case (7 a p)
  then show ?case by (fastforce simp: advances_def set_group_def)
qed (auto split: if_splits)

lemma match_at_advances:
  assumes "match_at r pre s = Some q"
  shows "\<exists>w. s = w @ fst (snd q) \<and> fst q = rev w @ pre"
proof -
  have "q \<in> set (rx_run r (pre, s, None))"
    using assms by (auto simp: match_at_def split: list.splits)
  then show ?thesis using rx_run_advances by (fastforce simp: advances_def)
qed

lemma match_at_None: "match_at r pre s = None \<longleftrightarrow> \<not> has_match r pre s"
  by (simp add: match_at_def has_match_def split: list.splits)

lemma has_match_obtain:
  assumes "has_match r pre s"
  obtains w s' cap where "match_at r pre s = Some (rev w @ pre, s', cap)" "s = w @ s'"
proof -
  obtain q where "match_at r pre s = Some q"
    using assms match_at_None [of r pre s] by (cases "match_at r pre s") simp_all
  moreover obtain w where "s = w @ fst (snd q)" "fst q = rev w @ pre"
    using match_at_advances [OF calculation] by blast
  ultimately show thesis
    using that [of w "fst (snd q)" "snd (snd q)"] by (cases q) auto
qed

lemma ReplaceAllString_Nil: "ReplaceAllString r tmpl [] = []"
  by (simp add: ReplaceAllString_def replace_from.simps split: option.splits)

lemma replace_from_Nil:
  "\<not> has_match r pre [] \<Longrightarrow> replace_from r tmpl pre [] = []"
  using match_at_None [of r pre "[]"] by (simp add: replace_from.simps)

lemma replace_from_Cons:
  "\<not> has_match r pre (c # s) \<Longrightarrow>
     replace_from r tmpl pre (c # s) = c # replace_from r tmpl (c # pre) s"
  using match_at_None [of r pre "c # s"] by (subst replace_from.simps) simp

lemma replace_from_Some:
  "match_at r pre s = Some (pre', s', cap) \<Longrightarrow> length s' < length s \<Longrightarrow>
     replace_from r tmpl pre s = tmpl cap @ replace_from r tmpl pre' s'"
  by (subst replace_from.simps) simp

lemma replace_from_no_match:
  "\<not> matches_from r pre s \<Longrightarrow> replace_from r tmpl pre s = s"
  by (induction r pre s rule: matches_from.induct) (auto simp: replace_from_Nil replace_from_Cons)

lemma ReplaceAllString_no_match:
  "\<not> MatchString r s \<Longrightarrow> ReplaceAllString r tmpl s = s"
  by (simp add: MatchString_def ReplaceAllString_def replace_from_no_match)

lemma match_replace_eq:
  "(if MatchString r s then ReplaceAllString r tmpl s else s) = ReplaceAllString r tmpl s"
  by (simp add: ReplaceAllString_no_match)

lemma matches_from_iff:
  "matches_from r pre s \<longleftrightarrow> (\<exists>u v. s = u @ v \<and> has_match r (rev u @ pre) v)"
proof (induction s arbitrary: pre)
  case Nil
  then show ?case by simp
next
  case (Cons c s)
  show ?case
  proof
    assume "matches_from r pre (c # s)"
    then consider "has_match r pre (c # s)" | "matches_from r (c # pre) s" by auto
    then show "\<exists>u v. c # s = u @ v \<and> has_match r (rev u @ pre) v"
    proof cases
      case 1
      then show ?thesis by (intro exI [of _ "[]"] exI [of _ "c # s"]) simp
    next
      case 2
      then obtain u v where "s = u @ v" "has_match r (rev u @ c # pre) v"
        using Cons.IH by blast
      then show ?thesis by (intro exI [of _ "c # u"] exI [of _ v]) simp
    qed
  next
    assume "\<exists>u v. c # s = u @ v \<and> has_match r (rev u @ pre) v"
    then obtain u v where uv: "c # s = u @ v" "has_match r (rev u @ pre) v" by blast
    show "matches_from r pre (c # s)"
    proof (cases u)
      case Nil
      then have "v = c # s" and "has_match r pre (c # s)" using uv by simp_all
      then show ?thesis by simp
    next
      case (Cons d u')
      then have "matches_from r (c # pre) s" using uv Cons.IH by auto
      then show ?thesis by simp
    qed
  qed
qed

section \<open>The words of an expression\<close>

text \<open>
  \<open>rx_word r w\<close>: the expression matches the text \<open>w\<close> where every word boundary it asks
  for is there. The repetitions are of non-empty parts, as in \<open>rx_run\<close>.
\<close>

inductive rx_word :: "rx \<Rightarrow> string \<Rightarrow> bool" where
  eps: "rx_word REps []"
| cls: "P c \<Longrightarrow> rx_word (RClass P) [c]"
| seq: "rx_word a v \<Longrightarrow> rx_word b w \<Longrightarrow> rx_word (RSeq a b) (v @ w)"
| alt1: "rx_word a w \<Longrightarrow> rx_word (RAlt a b) w"
| alt2: "rx_word b w \<Longrightarrow> rx_word (RAlt a b) w"
| star0: "rx_word (RStar a) []"
| star: "rx_word a v \<Longrightarrow> v \<noteq> [] \<Longrightarrow> rx_word (RStar a) w \<Longrightarrow> rx_word (RStar a) (v @ w)"
| wb: "rx_word RWordB []"
| grp: "rx_word a w \<Longrightarrow> rx_word (RGroup a) w"

inductive_simps rx_word_simps [simp]:
  "rx_word REps w"
  "rx_word (RClass P) w"
  "rx_word (RSeq a b) w"
  "rx_word (RAlt a b) w"
  "rx_word RWordB w"
  "rx_word (RGroup a) w"

fun no_boundary :: "rx \<Rightarrow> bool" where
  "no_boundary RWordB = False"
| "no_boundary (RSeq a b) = (no_boundary a \<and> no_boundary b)"
| "no_boundary (RAlt a b) = (no_boundary a \<and> no_boundary b)"
| "no_boundary (RStar a) = no_boundary a"
| "no_boundary (RGroup a) = no_boundary a"
| "no_boundary r = True"

text \<open>Soundness: every result of a match attempt consumes a word of the expression.\<close>

lemma rx_run_word:
  "q \<in> set (rx_run r p) \<Longrightarrow>
     \<exists>w. rx_word r w \<and> fst (snd p) = w @ fst (snd q) \<and> fst q = rev w @ fst p"
proof (induction r p arbitrary: q rule: rx_run.induct)
  case (3 a b p)
  then obtain m where m: "m \<in> set (rx_run a p)" "q \<in> set (rx_run b m)" by auto
  obtain v where v: "rx_word a v" "fst (snd p) = v @ fst (snd m)" "fst m = rev v @ fst p"
    using "3.IH"(1) m(1) by blast
  obtain w where w: "rx_word b w" "fst (snd m) = w @ fst (snd q)" "fst q = rev w @ fst m"
    using "3.IH"(2) m by blast
  show ?case using v w by (intro exI [of _ "v @ w"]) auto
next
  case (5 a p)
  show ?case
  proof (cases "q = p")
    case True
    then show ?thesis by (auto intro: rx_word.star0)
  next
    case False
    then obtain m where m: "m \<in> set (rx_run a p)"
      "length (fst (snd m)) < length (fst (snd p))" "q \<in> set (rx_run (RStar a) m)"
      using "5.prems" unfolding rx_run_Star [of a p] by auto
    obtain v where v: "rx_word a v" "fst (snd p) = v @ fst (snd m)" "fst m = rev v @ fst p"
      using "5.IH"(1) m(1) by blast
    obtain w where w: "rx_word (RStar a) w" "fst (snd m) = w @ fst (snd q)" "fst q = rev w @ fst m"
      using "5.IH"(2) [of m q] m by fastforce
    have "v \<noteq> []" using v(2) m(2) by auto
    then show ?thesis using v w by (intro exI [of _ "v @ w"]) (auto intro: rx_word.star)
  qed
next
  case (4 a b p)
  then consider "q \<in> set (rx_run a p)" | "q \<in> set (rx_run b p)" by auto
  then show ?case by cases (use "4.IH" in \<open>fastforce+\<close>)
next
  case (7 a p)
  then show ?case by (fastforce simp: set_group_def)
qed (auto split: if_splits list.splits)

text \<open>Completeness, for expressions that ask for no word boundary.\<close>

lemma rx_word_run:
  "rx_word r w \<Longrightarrow> no_boundary r \<Longrightarrow>
     \<exists>cap'. (rev w @ pre, s, cap') \<in> set (rx_run r (pre, w @ s, cap))"
proof (induction r w arbitrary: pre s cap rule: rx_word.induct)
  case (seq a v b w)
  obtain c1 where c1: "(rev v @ pre, w @ s, c1) \<in> set (rx_run a (pre, v @ w @ s, cap))"
    using seq.IH(1) seq.prems by fastforce
  obtain c2 where c2: "(rev w @ rev v @ pre, s, c2) \<in> set (rx_run b (rev v @ pre, w @ s, c1))"
    using seq.IH(2) seq.prems by fastforce
  show ?case
    using c1 c2 by (intro exI [of _ c2]) (auto intro!: bexI [of _ "(rev v @ pre, w @ s, c1)"])
next
  case (star0 a)
  then show ?case by (auto simp: rx_run_Star [of a "(pre, s, cap)"])
next
  case (star a v w)
  obtain c1 where c1: "(rev v @ pre, w @ s, c1) \<in> set (rx_run a (pre, v @ w @ s, cap))"
    using star.IH(1) star.prems by fastforce
  obtain c2 where c2: "(rev w @ rev v @ pre, s, c2) \<in> set (rx_run (RStar a) (rev v @ pre, w @ s, c1))"
    using star.IH(2) star.prems by fastforce
  have "(rev v @ pre, w @ s, c1) \<in> set (filter (\<lambda>q. length (fst (snd q)) < length (v @ w @ s))
      (rx_run a (pre, v @ w @ s, cap)))"
    using c1 star.hyps(2) by simp
  then have "(rev w @ rev v @ pre, s, c2) \<in> set (rx_run (RStar a) (pre, v @ w @ s, cap))"
    using c2 unfolding rx_run_Star [of a "(pre, v @ w @ s, cap)"] by fastforce
  then show ?case by auto
next
  case (alt1 a w b)
  then show ?case by fastforce
next
  case (alt2 b w a)
  then show ?case by fastforce
next
  case (grp a w)
  then obtain c where "(rev w @ pre, s, c) \<in> set (rx_run a (pre, w @ s, cap))" by fastforce
  then show ?case by (force simp: set_group_def image_iff)
qed auto

lemma has_match_word:
  assumes "no_boundary r"
  shows "has_match r pre s \<longleftrightarrow> (\<exists>w t. rx_word r w \<and> s = w @ t)"
proof
  assume "has_match r pre s"
  then obtain q where "q \<in> set (rx_run r (pre, s, None))"
    unfolding has_match_def using list.set_sel(1) by blast
  then show "\<exists>w t. rx_word r w \<and> s = w @ t"
    using rx_run_word by fastforce
next
  assume "\<exists>w t. rx_word r w \<and> s = w @ t"
  then obtain w t where "rx_word r w" "s = w @ t" by blast
  then show "has_match r pre s"
    using rx_word_run [OF _ assms, of w pre t None] by (auto simp: has_match_def)
qed

lemma has_match_boundary_seq:
  "has_match (RSeq RWordB r) pre s \<longleftrightarrow> at_boundary pre s \<and> has_match r pre s"
  by (simp add: has_match_def)

lemma rx_word_seq_class:
  "rx_word (RSeq (RClass P) b) w \<longleftrightarrow> (\<exists>c v. w = c # v \<and> P c \<and> rx_word b v)"
  by (auto simp: Cons_eq_append_conv) (metis append_Cons append_Nil)

lemma rx_word_RByte [simp]: "rx_word (RByte c) w \<longleftrightarrow> w = [c]"
  by (auto simp: RByte_def)

lemma rx_word_RLit [simp]: "rx_word (RLit l) w \<longleftrightarrow> w = l"
  by (induction l arbitrary: w) auto

lemma rx_word_star_class:
  "rx_word (RStar (RClass P)) w \<longleftrightarrow> list_all P w"
proof
  have "rx_word r w \<Longrightarrow> r = RStar (RClass P) \<Longrightarrow> list_all P w" for r
    by (induction r w rule: rx_word.induct) auto
  then show "rx_word (RStar (RClass P)) w \<Longrightarrow> list_all P w" by blast
next
  show "list_all P w \<Longrightarrow> rx_word (RStar (RClass P)) w"
  proof (induction w)
    case Nil
    then show ?case by (simp add: rx_word.star0)
  next
    case (Cons c w)
    then show ?case using rx_word.star [of "RClass P" "[c]" w] by simp
  qed
qed

lemma rx_word_plus_class:
  "rx_word (RPlus (RClass P)) w \<longleftrightarrow> w \<noteq> [] \<and> list_all P w"
  by (cases w) (auto simp: RPlus_def rx_word_star_class rx_word_seq_class simp del: rx_word_simps)

lemma rx_word_repeat_class:
  "rx_word (RRepeat n (RClass P)) w \<longleftrightarrow> length w = n \<and> list_all P w"
proof (induction n arbitrary: w)
  case 0
  then show ?case by auto
next
  case (Suc n)
  then show ?case
    by (cases w) (auto simp: rx_word_seq_class simp del: rx_word_simps)
qed

section \<open>Greedy repetition\<close>

text \<open>The preferred match of a greedy class repetition leaves no byte of the class behind.\<close>

definition stops :: "(char \<Rightarrow> bool) \<Rightarrow> pos \<Rightarrow> bool" where
  "stops P q \<longleftrightarrow> (case fst (snd q) of [] \<Rightarrow> True | c # _ \<Rightarrow> \<not> P c)"

definition first_all :: "(pos \<Rightarrow> bool) \<Rightarrow> pos list \<Rightarrow> bool" where
  "first_all \<Phi> qs \<longleftrightarrow> (case qs of [] \<Rightarrow> True | q # _ \<Rightarrow> \<Phi> q)"

lemma first_all_mono:
  "first_all \<Phi> qs \<Longrightarrow> (\<And>q. \<Phi> q \<Longrightarrow> \<Psi> q) \<Longrightarrow> first_all \<Psi> qs"
  by (cases qs) (simp_all add: first_all_def)

lemma first_all_append:
  "first_all \<Phi> xs \<Longrightarrow> first_all \<Phi> ys \<Longrightarrow> first_all \<Phi> (xs @ ys)"
  by (cases xs) (simp_all add: first_all_def)

lemma first_all_concat:
  "(\<And>x. x \<in> set xs \<Longrightarrow> first_all \<Phi> (f x)) \<Longrightarrow> first_all \<Phi> (concat (map f xs))"
proof (induction xs)
  case Nil
  then show ?case by (simp add: first_all_def)
next
  case (Cons x xs)
  then show ?case by (simp add: first_all_append)
qed

lemma first_all_seq:
  "(\<And>p. first_all \<Phi> (rx_run b p)) \<Longrightarrow> first_all \<Phi> (rx_run (RSeq a b) p)"
  by (simp add: first_all_concat)

lemma star_class_stops: "first_all (stops P) (rx_run (RStar (RClass P)) (pre, s, cap))"
proof (induction s arbitrary: pre)
  case Nil
  then show ?case by (simp add: rx_run_Star first_all_def stops_def)
next
  case (Cons c s)
  show ?case
  proof (cases "P c")
    case True
    have "rx_run (RStar (RClass P)) (pre, c # s, cap) =
        rx_run (RStar (RClass P)) (c # pre, s, cap) @ [(pre, c # s, cap)]"
      using True by (subst rx_run_Star) simp
    moreover have "rx_run (RStar (RClass P)) (c # pre, s, cap) \<noteq> []"
      by (subst rx_run_Star) simp
    ultimately show ?thesis
      using Cons.IH [of "c # pre"] by (auto simp: first_all_def neq_Nil_conv)
  next
    case False
    then show ?thesis by (subst rx_run_Star) (simp add: first_all_def stops_def)
  qed
qed

lemma plus_class_stops: "first_all (stops P) (rx_run (RPlus (RClass P)) p)"
proof -
  have "first_all (stops P) (rx_run (RStar (RClass P)) q)" for q
    using star_class_stops by (metis prod.collapse)
  then show ?thesis unfolding RPlus_def by (rule first_all_seq)
qed

lemma match_at_first_all:
  "match_at r pre s = Some q \<Longrightarrow> first_all \<Phi> (rx_run r (pre, s, None)) \<Longrightarrow> \<Phi> q"
  by (auto simp: match_at_def first_all_def split: list.splits)

section \<open>The capture group\<close>

fun no_group :: "rx \<Rightarrow> bool" where
  "no_group (RGroup a) = False"
| "no_group (RSeq a b) = (no_group a \<and> no_group b)"
| "no_group (RAlt a b) = (no_group a \<and> no_group b)"
| "no_group (RStar a) = no_group a"
| "no_group r = True"

lemma no_group_cap:
  "q \<in> set (rx_run r p) \<Longrightarrow> no_group r \<Longrightarrow> snd (snd q) = snd (snd p)"
proof (induction r p arbitrary: q rule: rx_run.induct)
  case (3 a b p)
  then obtain m where "m \<in> set (rx_run a p)" "q \<in> set (rx_run b m)" by auto
  then show ?case using "3.IH" "3.prems"(2) by (metis no_group.simps(2))
next
  case (4 a b p)
  then consider "q \<in> set (rx_run a p)" | "q \<in> set (rx_run b p)" by auto
  then show ?case using "4.IH" "4.prems"(2) by cases simp_all
next
  case (5 a p)
  show ?case
  proof (cases "q = p")
    case False
    then obtain m where m: "m \<in> set (rx_run a p)"
      "length (fst (snd m)) < length (fst (snd p))" "q \<in> set (rx_run (RStar a) m)"
      using "5.prems" unfolding rx_run_Star [of a p] by auto
    then have "snd (snd q) = snd (snd m)" using "5.IH"(2) [of m q] "5.prems"(2) by simp
    also have "\<dots> = snd (snd p)" using "5.IH"(1) m(1) "5.prems"(2) by simp
    finally show ?thesis .
  qed simp
qed (auto split: list.splits if_splits)

lemma group_seq_run:
  assumes "q \<in> set (rx_run (RSeq (RGroup a) b) (pre, s, c))" and "no_group b"
  shows "\<exists>g val. rx_word a g \<and> rx_word b val \<and> s = g @ val @ fst (snd q) \<and>
    fst q = rev (g @ val) @ pre \<and> snd (snd q) = Some g"
proof -
  obtain p0 where p0: "p0 \<in> set (rx_run a (pre, s, c))"
      "q \<in> set (rx_run b (set_group pre p0))"
    using assms(1) by auto
  obtain g where g: "rx_word a g" "s = g @ fst (snd p0)" "fst p0 = rev g @ pre"
    using rx_run_word [OF p0(1)] by auto
  obtain val where val: "rx_word b val" "fst (snd p0) = val @ fst (snd q)"
      "fst q = rev val @ fst p0"
    using rx_run_word [OF p0(2)] by (auto simp: set_group_def)
  have "snd (snd q) = Some g"
    using no_group_cap [OF p0(2) assms(2)] g by (simp add: set_group_def group_text_def)
  then show ?thesis using g val by auto
qed

lemma rx_run_assoc: "rx_run (RSeq a (RSeq b c)) p = rx_run (RSeq (RSeq a b) c) p"
  proof -
  have "concat (map (rx_run c) (concat (map (rx_run b) xs))) =
      concat (map (rx_run (RSeq b c)) xs)" for xs
    by (induction xs) simp_all
  then show ?thesis by simp
qed

lemma match_at_in: "match_at r pre s = Some q \<Longrightarrow> q \<in> set (rx_run r (pre, s, None))"
  by (auto simp: match_at_def split: list.splits)

end
