(* ===== verification/Redact.thy ===== *)
theory Redact
  imports GoRegexp
begin

text \<open>
  Package \<open>redact\<close>: the four patterns and \<open>RedactSecrets\<close>, which removes keys,
  passwords, JSON secret fields and UUIDs from text that leaves the agent.
\<close>

definition marker :: string where
  "marker = ''[REDACTED]''"

definition is_space_re :: "char \<Rightarrow> bool" where
  "is_space_re c \<longleftrightarrow> c \<in> {CHR 0x09, CHR 0x0A, CHR 0x0C, CHR 0x0D, CHR 0x20}"

definition is_key_char :: "char \<Rightarrow> bool" where
  "is_key_char c \<longleftrightarrow> is_digit c \<or> is_lower c \<or> is_upper c \<or> c \<in> {CHR ''+'', CHR ''/'', CHR ''='', CHR ''_'', CHR ''-''}"

definition is_hex :: "char \<Rightarrow> bool" where
  "is_hex c \<longleftrightarrow> is_digit c \<or> (97 \<le> code c \<and> code c \<le> 102) \<or> (65 \<le> code c \<and> code c \<le> 70)"

definition spaces :: rx where
  "spaces = RStar (RClass is_space_re)"

definition wireGuardKeyPattern :: rx where
  "wireGuardKeyPattern =
     RSeq RWordB
       (RSeq (RGroup (RSeq (RAlt (RLit ''PrivateKey'') (RLit ''PresharedKey''))
                        (RSeq spaces (RSeq (RByte CHR ''='') spaces))))
             (RPlus (RClass is_key_char)))"

definition passwordPattern :: rx where
  "passwordPattern =
     RSeq RWordB
       (RSeq (RGroup (RLitFold ''password=''))
             (RPlus (RClass (\<lambda>c. \<not> is_space_re c \<and> c \<notin> {CHR '','', CHR '';'', CHR ''&''}))))"

definition quoted_value :: rx where
  "quoted_value =
     (let plain = RStar (RClass (\<lambda>c. c \<noteq> CHR 0x22 \<and> c \<noteq> CHR 0x5C))
      in RSeq (RByte CHR 0x22)
           (RSeq plain
             (RSeq (RStar (RSeq (RByte CHR 0x5C) (RSeq (RClass (\<lambda>c. c \<noteq> CHR 0x0A)) plain)))
                   (RByte CHR 0x22))))"

definition bare_value :: rx where
  "bare_value = RPlus (RClass (\<lambda>c. \<not> is_space_re c \<and> c \<notin> {CHR '','', CHR ''}'', CHR '']''}))"

definition jsonSecretPattern :: rx where
  "jsonSecretPattern =
     RSeq (RGroup
            (RSeq (RByte CHR 0x22)
              (RSeq (RAlts (map RLitFold
                       [''privateKey'', ''preshared_key'', ''secret'', ''password'', ''uuid'']))
                (RSeq (RByte CHR 0x22) (RSeq spaces (RSeq (RByte CHR '':'') spaces))))))
          (RAlt quoted_value bare_value)"

definition uuidPattern :: rx where
  "uuidPattern =
     (let hex = RClass is_hex; dash = RByte CHR ''-''
      in RSeq RWordB
         (RSeq (RRepeat 8 hex) (RSeq dash
         (RSeq (RRepeat 4 hex) (RSeq dash
         (RSeq (RRepeat 4 hex) (RSeq dash
         (RSeq (RRepeat 4 hex) (RSeq dash
         (RSeq (RRepeat 12 hex) RWordB))))))))))"

text \<open>The replacement templates \<open>${1}[REDACTED]\<close> and \<open>${1}"[REDACTED]"\<close>.\<close>

definition keep_group :: "string option \<Rightarrow> string" where
  "keep_group cap = (case cap of None \<Rightarrow> [] | Some g \<Rightarrow> g)"

definition RedactSecrets :: "string \<Rightarrow> string" where
  "RedactSecrets s0 =
     (if s0 = [] then s0
      else
        let s1 = (if MatchString wireGuardKeyPattern s0
                  then ReplaceAllString wireGuardKeyPattern (\<lambda>g. keep_group g @ marker) s0 else s0);
            s2 = (if MatchString passwordPattern s1
                  then ReplaceAllString passwordPattern (\<lambda>g. keep_group g @ marker) s1 else s1);
            s3 = (if MatchString jsonSecretPattern s2
                  then ReplaceAllString jsonSecretPattern
                         (\<lambda>g. keep_group g @ [CHR 0x22] @ marker @ [CHR 0x22]) s2 else s2)
        in (if MatchString uuidPattern s3 then ReplaceAllString uuidPattern (\<lambda>_. marker) s3 else s3))"

section \<open>What text gives away\<close>

text \<open>
  What the redaction promises, written over the text alone and with none of the expressions or
  byte classes of the code. A text shows a UUID when 36 of its bytes have the usual form (hex
  digits of either case in groups of 8, 4, 4, 4 and 12) and no letter, digit or underscore
  touches them. It shows a WireGuard key when \<open>PrivateKey\<close> or \<open>PresharedKey\<close>, not glued to a
  word on its left, is followed by an equals sign, with white space around it or not, and the first
  byte of a key.
\<close>

definition word_bytes :: string where
  "word_bytes = ''ABCDEFGHIJKLMNOPQRSTUVWXYZabcdefghijklmnopqrstuvwxyz0123456789_''"

definition blank_bytes :: string where
  "blank_bytes = [CHR '' '', CHR 0x09, CHR 0x0A, CHR 0x0C, CHR 0x0D]"

definition uuid_shape :: "string \<Rightarrow> bool" where
  "uuid_shape u \<longleftrightarrow>
     length u = 36 \<and>
     (\<forall>i<36. if i \<in> {8, 13, 18, 23} then u ! i = CHR ''-'' else u ! i \<in> set ''0123456789abcdefABCDEF'')"

definition shows_uuid :: "string \<Rightarrow> bool" where
  "shows_uuid s \<longleftrightarrow>
     (\<exists>a u b. s = a @ u @ b \<and> uuid_shape u \<and>
        (a = [] \<or> last a \<notin> set word_bytes) \<and> (b = [] \<or> hd b \<notin> set word_bytes))"

definition shows_key :: "string \<Rightarrow> bool" where
  "shows_key s \<longleftrightarrow>
     (\<exists>a name ws ws' k b. s = a @ name @ ws @ ''='' @ ws' @ [k] @ b \<and>
        (a = [] \<or> last a \<notin> set word_bytes) \<and> name \<in> {''PrivateKey'', ''PresharedKey''} \<and>
        set ws \<subseteq> set blank_bytes \<and> set ws' \<subseteq> set blank_bytes \<and>
        k \<in> set (word_bytes @ ''+/=-''))"

text \<open>Text that shows neither.\<close>

definition redacted :: "string \<Rightarrow> bool" where
  "redacted s \<longleftrightarrow> \<not> shows_uuid s \<and> \<not> shows_key s"

section \<open>A stage of the redaction keeps a pattern out of the text\<close>

definition plain :: "char \<Rightarrow> bool" where
  "plain c \<longleftrightarrow> c \<noteq> CHR ''['' \<and> c \<noteq> CHR '']'' \<and> c \<noteq> CHR 0x22"

definition mark_text :: "string \<Rightarrow> bool" where
  "mark_text m \<longleftrightarrow> m = marker \<or> m = [CHR 0x22] @ marker @ [CHR 0x22]"

lemma split_three:
  assumes "g @ m @ r = u @ v"
  shows "(\<exists>v'. g = u @ v' \<and> v' \<noteq> [] \<and> v = v' @ m @ r) \<or>
    (\<exists>u' v'. m = u' @ v' \<and> v' \<noteq> [] \<and> v = v' @ r) \<or>
    (\<exists>u'. u = g @ m @ u' \<and> r = u' @ v)"
proof -
  consider v' where "g = u @ v'" "v = v' @ m @ r" | u' where "u = g @ u'" "m @ r = u' @ v"
    using assms by (auto simp: append_eq_append_conv2)
  then show ?thesis
  proof cases
    case (1 v')
    then show ?thesis by (cases "v' = []"; cases "m = []") auto
  next
    case (2 u')
    then consider v' where "m = u' @ v'" "v = v' @ r" | u'' where "u' = m @ u''" "r = u'' @ v"
      by (auto simp: append_eq_append_conv2)
    then show ?thesis
    proof cases
      case (1 v')
      then show ?thesis using 2 by (cases "v' = []") auto
    next
      case (2 u'')
      then show ?thesis using \<open>u = g @ u'\<close> by auto
    qed
  qed
qed

text \<open>
  A non-empty end of a mark that starts with a word byte is an end of the word
  \<open>REDACTED\<close> before a byte that is not plain.
\<close>

lemma mark_suffix_split:
  assumes "mark_text m" and "m = u @ v" and "v \<noteq> []" and "v @ rest = (c # w') @ t" and "is_word c"
  shows "\<exists>z e. v = z @ e \<and> suffix z ''REDACTED'' \<and> (\<exists>d e'. e = d # e' \<and> \<not> plain d)"
proof -
  obtain q where q: "m = (q @ ''['') @ ''REDACTED'' @ ('']'' @ q)" "q = [] \<or> q = [CHR 0x22]"
    using assms(1) that [of "[]"] that [of "[CHR 0x22]"] by (auto simp: mark_text_def marker_def)
  have head: "hd v = c" using assms(3,4) by (cases v) auto
  have nonword: "\<forall>d \<in> set (q @ ''['') \<union> set ('']'' @ q). \<not> is_word d"
    using q(2) by (auto simp: is_word_def is_digit_def is_lower_def is_upper_def)
  have split: "(q @ ''['') @ ''REDACTED'' @ ('']'' @ q) = u @ v" using q(1) assms(2) by simp
  consider v' where "q @ ''['' = u @ v'" "v' \<noteq> []" "v = v' @ ''REDACTED'' @ '']'' @ q"
    | u' v' where "''REDACTED'' = u' @ v'" "v = v' @ '']'' @ q"
    | u' where "'']'' @ q = u' @ v"
    using split_three [OF split] by metis
  then show ?thesis
  proof cases
    case (1 v')
    then have "c \<in> set (q @ ''['')" using head by (cases v') auto
    then show ?thesis using nonword assms(5) by blast
  next
    case (2 u' v')
    then show ?thesis
      by (intro exI [of _ v'] exI [of _ "'']'' @ q"]) (auto simp: suffix_def plain_def)
  next
    case (3 u')
    then have "c \<in> set ('']'' @ q)" using head assms(3) by (metis Un_iff hd_in_set set_append)
    then show ?thesis using nonword assms(5) by blast
  qed
qed

lemma nonword_bytes:
  "\<not> is_word CHR ''[''" "\<not> is_word CHR '']''" "\<not> is_word CHR 0x22"
  "\<not> is_word CHR '',''" "\<not> is_word CHR '';''" "\<not> is_word CHR ''&''" "\<not> is_word CHR ''}''"
  by (simp_all add: is_word_def is_digit_def is_lower_def is_upper_def)

lemma mark_text_head:
  assumes "mark_text m"
  shows "\<exists>c t. m = c # t \<and> \<not> plain c"
proof -
  have "\<not> plain CHR ''[''" "\<not> plain CHR 0x22" by (simp_all add: plain_def)
  then show ?thesis using assms unfolding mark_text_def marker_def by auto
qed

lemma mark_text_last:
  assumes "mark_text m"
  shows "\<not> word_head (rev m @ pre)"
  using assms nonword_bytes unfolding mark_text_def marker_def word_head_def by auto

text \<open>
  The interface of one replacement stage. \<open>P\<close> is the pattern to keep out, \<open>Q\<close> the
  pattern the stage replaces, \<open>m\<close> the mark it writes after the group it keeps.
  \<open>L\<close> is the set of texts \<open>P\<close> matches between word boundaries; \<open>tb\<close> says whether it
  asks for a boundary at the end, too. \<open>NM\<close> is what is known of the text that
  remains to be scanned. The laws say that a text of \<open>L\<close> holds no byte of a mark,
  that the text after a match does not continue a word, and that \<open>P\<close> does not match
  inside the group a match keeps.
\<close>

locale redaction_stage =
  fixes P Q :: rx
    and tmpl :: "string option \<Rightarrow> string"
    and m :: string
    and L :: "string \<Rightarrow> bool"
    and tb :: bool
    and NM :: "string \<Rightarrow> string \<Rightarrow> bool"
  assumes P_iff: "has_match P pre s \<longleftrightarrow>
      at_boundary pre s \<and> (\<exists>w t. L w \<and> s = w @ t \<and> (tb \<longrightarrow> \<not> word_head t))"
    and L_head: "L w \<Longrightarrow> word_head w"
    and L_plain: "L w \<Longrightarrow> list_all plain w"
    and L_last: "tb \<Longrightarrow> L w \<Longrightarrow> word_head (rev w)"
    and L_mark: "L w \<Longrightarrow> suffix v ''REDACTED'' \<Longrightarrow> \<not> prefix w v"
    and m_mark: "mark_text m"
    and Q_match: "match_at Q pre s = Some (pre', s', cap) \<Longrightarrow> NM pre s \<Longrightarrow>
      \<exists>g val. s = g @ val @ s' \<and> pre' = rev (g @ val) @ pre \<and> val \<noteq> [] \<and>
        tmpl cap = g @ m \<and> (word_head s' \<longrightarrow> \<not> word_head pre') \<and>
        (tb \<longrightarrow> g = [] \<and> \<not> word_head pre) \<and>
        (\<forall>u v w. g = u @ v \<longrightarrow> L w \<longrightarrow> prefix w v \<longrightarrow> \<not> at_boundary (rev u @ pre) v)"
    and NM_step: "NM pre (c # s) \<Longrightarrow> NM (c # pre) s"
    and NM_clean: "NM pre s \<Longrightarrow> \<not> has_match Q pre s \<Longrightarrow> \<not> has_match P pre s"
begin

lemma NM_append: "NM pre (u @ s) \<Longrightarrow> NM (rev u @ pre) s"
proof (induction u arbitrary: pre)
  case (Cons c u)
  then have "NM (c # pre) (u @ s)" by (simp add: NM_step)
  then show ?case using Cons.IH by simp
qed simp

lemma L_nonempty: "L w \<Longrightarrow> w \<noteq> []"
  using L_head by (fastforce simp: word_head_def)

lemma mark_head: "\<exists>c t. m = c # t \<and> \<not> plain c"
  using mark_text_head [OF m_mark] .

lemma mark_last: "\<not> word_head (rev m @ pre)"
  using mark_text_last [OF m_mark] .

lemma Q_match_shorter:
  "match_at Q pre s = Some (pre', s', cap) \<Longrightarrow> NM pre s \<Longrightarrow> length s' < length s"
  by (drule (1) Q_match) (elim exE conjE, simp)

text \<open>Up to its first mark, the output is the text that was scanned.\<close>

lemma output_agrees:
  "NM pre s \<Longrightarrow> \<exists>x y t. replace_from Q tmpl pre s = x @ y \<and> s = x @ t \<and>
     (y = [] \<and> t = [] \<or>
      (\<exists>c y'. y = c # y' \<and> \<not> plain c) \<and> (tb \<longrightarrow> \<not> word_head (rev x @ pre)))"
proof (induction s arbitrary: pre)
  case Nil
  then have "\<not> has_match Q pre []"
    using Q_match_shorter has_match_obtain by (metis length_0_conv less_nat_zero_code)
  then show ?case by (simp add: replace_from_Nil)
next
  case (Cons a s)
  show ?case
  proof (cases "has_match Q pre (a # s)")
    case True
    then obtain pre' s' cap where q: "match_at Q pre (a # s) = Some (pre', s', cap)"
      using has_match_obtain by metis
    obtain g val where g: "a # s = g @ val @ s'" "tmpl cap = g @ m"
        "tb \<longrightarrow> g = [] \<and> \<not> word_head pre"
      using Q_match [OF q Cons.prems] by blast
    obtain c t where m: "m = c # t" "\<not> plain c" using mark_head by blast
    have "replace_from Q tmpl pre (a # s) = g @ m @ replace_from Q tmpl pre' s'"
      using replace_from_Some [OF q Q_match_shorter [OF q Cons.prems]] g(2) by simp
    moreover have "tb \<longrightarrow> \<not> word_head (rev g @ pre)" using g(3) by auto
    ultimately show ?thesis using g(1) m
      by (intro exI [of _ g] exI [of _ "m @ replace_from Q tmpl pre' s'"] exI [of _ "val @ s'"]) simp
  next
    case False
    obtain x y t where "replace_from Q tmpl (a # pre) s = x @ y" "s = x @ t"
        "y = [] \<and> t = [] \<or>
         (\<exists>c y'. y = c # y' \<and> \<not> plain c) \<and> (tb \<longrightarrow> \<not> word_head (rev x @ a # pre))"
      using Cons.IH [OF NM_step [OF Cons.prems]] by blast
    then show ?thesis using replace_from_Cons [OF False]
      by (intro exI [of _ "a # x"] exI [of _ y] exI [of _ t]) simp
  qed
qed

lemma plain_prefix:
  assumes "list_all plain w" and "x @ y = w @ t" and "y = [] \<or> (\<exists>c y'. y = c # y' \<and> \<not> plain c)"
  shows "\<exists>x'. x = w @ x' \<and> t = x' @ y"
  using assms by (auto simp: append_eq_append_conv2 Cons_eq_append_conv)

text \<open>A match of \<open>P\<close> at the start of the output is a match at the start of the scanned text.\<close>

lemma output_start:
  assumes nm: "NM pre s"
    and same: "word_head pre = word_head opre \<or> \<not> word_head s"
    and hit: "has_match P opre (replace_from Q tmpl pre s)"
    and noq: "\<not> has_match Q pre s"
  shows False
proof -
  obtain x y t where xy: "replace_from Q tmpl pre s = x @ y" "s = x @ t"
      "y = [] \<and> t = [] \<or>
       (\<exists>c y'. y = c # y' \<and> \<not> plain c) \<and> (tb \<longrightarrow> \<not> word_head (rev x @ pre))"
    using output_agrees [OF nm] by blast
  obtain w r where w: "L w" "x @ y = w @ r" "tb \<longrightarrow> \<not> word_head r" "at_boundary opre (x @ y)"
    using hit P_iff xy(1) by metis
  obtain x' where x': "x = w @ x'" "r = x' @ y"
    using plain_prefix [OF L_plain [OF w(1)] w(2)] xy(3) by auto
  obtain c w' where cw: "w = c # w'" "is_word c"
    using L_head [OF w(1)] by (auto simp: word_head_def split: list.splits)
  have heads: "word_head s" "word_head (x @ y)"
    using cw x' xy(2) by (auto simp: word_head_def)
  have "at_boundary pre s"
    using w(4) same heads by (auto simp: at_boundary_def)
  moreover have "tb \<longrightarrow> \<not> word_head (x' @ t)"
  proof (intro impI)
    assume tb
    show "\<not> word_head (x' @ t)"
    proof (cases x')
      case Nil
      then show ?thesis
        using xy(3) x' L_last [OF \<open>tb\<close> w(1)] \<open>tb\<close> by (auto simp: word_head_def split: list.splits)
    next
      case (Cons d z)
      then show ?thesis using w(3) x' \<open>tb\<close> by (simp add: word_head_def)
    qed
  qed
  ultimately have "has_match P pre s"
    unfolding P_iff using w(1) x'(1) xy(2) by auto
  then show False using NM_clean [OF nm noq] by blast
qed

lemma no_match_in_mark:
  assumes "m = u @ v" and "v \<noteq> []"
  shows "\<not> has_match P pre (v @ rest)"
proof
  assume "has_match P pre (v @ rest)"
  then obtain w t where w: "L w" "v @ rest = w @ t" unfolding P_iff by blast
  obtain c w' where cw: "w = c # w'" "is_word c"
    using L_head [OF w(1)] by (auto simp: word_head_def split: list.splits)
  obtain z e where ze: "v = z @ e" "suffix z ''REDACTED''" "\<exists>d e'. e = d # e' \<and> \<not> plain d"
    using mark_suffix_split [OF m_mark assms, of rest c w' t] cw w(2) by auto
  have "prefix w z"
    using plain_prefix [OF L_plain [OF w(1)], of z "e @ rest" t] w(2) ze by (auto simp: prefix_def)
  then show False using L_mark [OF w(1) ze(2)] by blast
qed

theorem output_clean:
  "NM pre s \<Longrightarrow> word_head pre = word_head opre \<or> \<not> word_head s \<Longrightarrow>
     \<not> matches_from P opre (replace_from Q tmpl pre s)"
proof (induction "length s" arbitrary: pre opre s rule: less_induct)
  case less
  show ?case
  proof (cases "has_match Q pre s")
    case False
    then show ?thesis
    proof (cases s)
      case Nil
      then show ?thesis using False output_start [OF less.prems _ False]
        by (auto simp: replace_from_Nil)
    next
      case (Cons c t)
      then have "\<not> matches_from P (c # opre) (replace_from Q tmpl (c # pre) t)"
        using less.hyps [of t "c # pre" "c # opre"] NM_step less.prems
        by (simp add: word_head_def)
      then show ?thesis
        using output_start [OF less.prems _ False] Cons False by (auto simp: replace_from_Cons)
    qed
  next
    case True
    then obtain pre' s' cap where q: "match_at Q pre s = Some (pre', s', cap)"
      using has_match_obtain by metis
    note short = Q_match_shorter [OF q less.prems(1)]
    obtain g val where g: "s = g @ val @ s'" "pre' = rev (g @ val) @ pre" "tmpl cap = g @ m"
        "word_head s' \<longrightarrow> \<not> word_head pre'"
        "\<And>u v w. g = u @ v \<Longrightarrow> L w \<Longrightarrow> prefix w v \<Longrightarrow> \<not> at_boundary (rev u @ pre) v"
      using Q_match [OF q less.prems(1)] by blast
    let ?out' = "replace_from Q tmpl pre' s'"
    have out: "replace_from Q tmpl pre s = g @ m @ ?out'"
      using replace_from_Some [OF q short] g(3) by simp
    have "NM pre' s'" using NM_append [of pre "g @ val" s'] less.prems(1) g(1,2) by simp
    then have rest: "\<not> matches_from P (rev m @ rev g @ opre) ?out'"
      using less.hyps [OF short, of pre' "rev m @ rev g @ opre"] g(4) mark_last by auto
    show ?thesis
    proof
      assume "matches_from P opre (replace_from Q tmpl pre s)"
      then obtain u v where uv: "g @ m @ ?out' = u @ v" "has_match P (rev u @ opre) v"
        unfolding out matches_from_iff by blast
      then consider (group) v' where "g = u @ v'" "v' \<noteq> []" "v = v' @ m @ ?out'"
        | (mark) u' v' where "m = u' @ v'" "v' \<noteq> []" "v = v' @ ?out'"
        | (rest) u' where "u = g @ m @ u'" "?out' = u' @ v"
        using split_three [OF uv(1)] by metis
      then show False
      proof cases
        case group
        obtain w t where w: "L w" "v' @ m @ ?out' = w @ t" "at_boundary (rev u @ opre) v"
          using uv(2) group(3) unfolding P_iff by auto
        have pw: "prefix w v'"
          using plain_prefix [OF L_plain [OF w(1)], of v' "m @ ?out'" t] w(2) mark_head
          by (auto simp: prefix_def)
        obtain c w' where cw: "w = c # w'" "is_word c"
          using L_head [OF w(1)] by (auto simp: word_head_def split: list.splits)
        have hv: "word_head v'" "word_head v" using pw cw group(3) by (auto simp: prefix_def word_head_def)
        have "u = [] \<Longrightarrow> word_head s" using group(1) g(1) hv by (auto simp: word_head_def split: list.splits)
        then have "at_boundary (rev u @ pre) v'"
          using w(3) hv less.prems(2) by (cases u rule: rev_cases) (auto simp: at_boundary_def word_head_def)
        then show False using g(5) [OF group(1) w(1) pw] by blast
      next
        case mark
        then show False using no_match_in_mark uv(2) by blast
      next
        case rest': (rest u')
        then show False using rest uv(2) unfolding matches_from_iff by auto
      qed
    qed
  qed
qed

end

section \<open>The words of the patterns\<close>

definition wg_group :: rx where
  "wg_group = RSeq (RAlt (RLit ''PrivateKey'') (RLit ''PresharedKey''))
     (RSeq spaces (RSeq (RByte CHR ''='') spaces))"

definition wg_body :: rx where
  "wg_body = RSeq (RGroup wg_group) (RPlus (RClass is_key_char))"

definition uuid_core :: rx where
  "uuid_core =
     (let hex = RClass is_hex; dash = RByte CHR ''-''
      in RSeq (RSeq (RSeq (RSeq (RSeq (RSeq (RSeq (RSeq (RRepeat 8 hex) dash) (RRepeat 4 hex)) dash)
           (RRepeat 4 hex)) dash) (RRepeat 4 hex)) dash) (RRepeat 12 hex))"

lemma wireGuardKeyPattern_split: "wireGuardKeyPattern = RSeq RWordB wg_body"
  by (simp add: wireGuardKeyPattern_def wg_body_def wg_group_def)

lemma rx_run_boundary_seq:
  "rx_run (RSeq RWordB r) p = (if at_boundary (fst p) (fst (snd p)) then rx_run r p else [])"
  by simp

lemma uuidPattern_run: "rx_run uuidPattern p = rx_run (RSeq RWordB (RSeq uuid_core RWordB)) p"
  unfolding uuidPattern_def uuid_core_def Let_def
  by (simp only: rx_run_boundary_seq) (simp only: rx_run_assoc)

lemma no_boundary_lit [simp]: "no_boundary (RLit l)"
  by (induction l) (simp_all add: RByte_def)

lemma no_boundary_repeat [simp]: "no_boundary (RRepeat n r) \<longleftrightarrow> n = 0 \<or> no_boundary r"
  by (induction n) auto

lemma rx_word_key_value:
  "rx_word (RSeq a (RSeq b (RSeq (RByte c) d))) g \<longleftrightarrow>
     (\<exists>k s1 s2. rx_word a k \<and> rx_word b s1 \<and> rx_word d s2 \<and> g = k @ s1 @ c # s2)"
  unfolding rx_word_simps rx_word_RByte by (auto; blast)

lemma wg_group_word:
  "rx_word wg_group g \<longleftrightarrow>
     (\<exists>k s1 s2. (k = ''PrivateKey'' \<or> k = ''PresharedKey'') \<and> list_all is_space_re s1 \<and>
        list_all is_space_re s2 \<and> g = k @ s1 @ CHR ''='' # s2)"
  unfolding wg_group_def spaces_def rx_word_key_value rx_word_star_class
  by (simp only: rx_word_simps rx_word_RLit)

lemma wg_body_word:
  "rx_word wg_body w \<longleftrightarrow>
     (\<exists>g x. rx_word wg_group g \<and> x \<noteq> [] \<and> list_all is_key_char x \<and> w = g @ x)"
  unfolding wg_body_def by (auto simp: rx_word_plus_class)

lemma uuid_core_word:
  assumes "rx_word uuid_core w"
  shows "length w = 36 \<and> list_all (\<lambda>c. is_hex c \<or> c = CHR ''-'') w \<and>
    is_hex (hd w) \<and> is_hex (last w)"
proof -
  from assms obtain a b c d e where w: "w = a @ ''-'' @ b @ ''-'' @ c @ ''-'' @ d @ ''-'' @ e"
    and len: "length a = 8" "length b = 4" "length c = 4" "length d = 4" "length e = 12"
    and hex: "list_all is_hex a" "list_all is_hex b" "list_all is_hex c" "list_all is_hex d" "list_all is_hex e"
    unfolding uuid_core_def Let_def rx_word_simps rx_word_repeat_class rx_word_RByte by auto
  have "a \<noteq> []" "e \<noteq> []" using len by auto
  then have "is_hex (hd a)" "is_hex (last e)" using hex by (auto simp: list_all_iff)
  then show ?thesis using w len hex \<open>a \<noteq> []\<close> \<open>e \<noteq> []\<close>
    by (auto simp: list_all_iff hd_append)
qed

lemma is_word_key: "is_word c \<Longrightarrow> is_key_char c"
  by (auto simp: is_word_def is_key_char_def)

lemma is_hex_word: "is_hex c \<Longrightarrow> is_word c"
  by (auto simp: is_hex_def is_word_def is_lower_def is_upper_def)

lemma word_plain: "is_word c \<Longrightarrow> plain c"
  using nonword_bytes by (auto simp: plain_def)

lemma key_plain: "is_key_char c \<Longrightarrow> plain c"
  using word_plain by (auto simp: is_key_char_def is_word_def plain_def)

lemma space_plain: "is_space_re c \<Longrightarrow> plain c"
  by (auto simp: is_space_re_def plain_def)

lemma space_not_key: "is_space_re c \<Longrightarrow> \<not> is_key_char c"
  by (auto simp: is_space_re_def is_key_char_def is_digit_def is_lower_def is_upper_def)

lemma word_not_space: "is_word c \<Longrightarrow> \<not> is_space_re c"
  using is_word_key space_not_key by blast

section \<open>What the patterns match\<close>

lemma word_head_hd: "word_head s \<longleftrightarrow> s \<noteq> [] \<and> is_word (hd s)"
  by (cases s) (simp_all add: word_head_def)

lemma wg_word_shape:
  assumes "rx_word wg_body w"
  shows "word_head w \<and> list_all plain w"
proof -
  obtain k s1 s2 x where k: "k = ''PrivateKey'' \<or> k = ''PresharedKey''"
    and sp: "list_all is_space_re s1" "list_all is_space_re s2"
    and x: "x \<noteq> []" "list_all is_key_char x" and w: "w = (k @ s1 @ CHR ''='' # s2) @ x"
    using assms unfolding wg_body_word wg_group_word by blast
  have kp: "list_all plain k" and kh: "word_head k" and kn: "k \<noteq> []"
    using k by (auto simp: plain_def word_head_def is_word_def is_digit_def is_lower_def is_upper_def)
  have "list_all plain s1" "list_all plain s2" "list_all plain x"
    using sp x space_plain key_plain by (auto simp: list_all_iff)
  moreover have "word_head w" using kh kn w by (cases k) (auto simp: word_head_def)
  ultimately show ?thesis using w kp by (auto simp: plain_def)
qed

lemma wg_has_match:
  "has_match wireGuardKeyPattern pre s \<longleftrightarrow> at_boundary pre s \<and> (\<exists>w t. rx_word wg_body w \<and> s = w @ t)"
proof -
  have "no_boundary wg_body"
    by (simp add: wg_body_def wg_group_def spaces_def RPlus_def RByte_def)
  then show ?thesis
    unfolding wireGuardKeyPattern_split has_match_boundary_seq by (simp add: has_match_word)
qed

lemma wg_has_match_tb:
  "has_match wireGuardKeyPattern pre s \<longleftrightarrow>
     at_boundary pre s \<and> (\<exists>w t. rx_word wg_body w \<and> s = w @ t \<and> (False \<longrightarrow> \<not> word_head t))"
  by (simp add: wg_has_match)

lemma uuid_in_run:
  "q \<in> set (rx_run uuidPattern (pre, s, c)) \<longleftrightarrow>
     at_boundary pre s \<and> q \<in> set (rx_run uuid_core (pre, s, c)) \<and> at_boundary (fst q) (fst (snd q))"
  unfolding uuidPattern_run rx_run_boundary_seq by (auto split: if_splits)

lemma no_boundary_uuid_core: "no_boundary uuid_core"
  by (simp add: uuid_core_def RByte_def Let_def)

lemma uuid_has_match:
  "has_match uuidPattern pre s \<longleftrightarrow>
     at_boundary pre s \<and> (\<exists>w t. rx_word uuid_core w \<and> s = w @ t \<and> \<not> word_head t)"
proof -
  have tail: "at_boundary (rev w @ pre') t \<longleftrightarrow> \<not> word_head t" if "rx_word uuid_core w" for w pre' t
  proof -
    have "w \<noteq> []" "is_hex (last w)" using uuid_core_word [OF that] by auto
    then have "word_head (rev w @ pre')"
      by (cases w rule: rev_cases) (simp_all add: word_head_def is_hex_word)
    then show ?thesis by (simp add: at_boundary_def)
  qed
  show ?thesis
  proof
    assume "has_match uuidPattern pre s"
    then obtain q where q: "q \<in> set (rx_run uuidPattern (pre, s, None))"
      unfolding has_match_def using list.set_sel(1) by blast
    then obtain w where "rx_word uuid_core w" "s = w @ fst (snd q)" "fst q = rev w @ pre"
      using rx_run_word unfolding uuid_in_run by fastforce
    then show "at_boundary pre s \<and> (\<exists>w t. rx_word uuid_core w \<and> s = w @ t \<and> \<not> word_head t)"
      using q tail unfolding uuid_in_run by auto
  next
    assume *: "at_boundary pre s \<and> (\<exists>w t. rx_word uuid_core w \<and> s = w @ t \<and> \<not> word_head t)"
    then obtain w t where w: "rx_word uuid_core w" "s = w @ t" "\<not> word_head t" by blast
    obtain c where "(rev w @ pre, t, c) \<in> set (rx_run uuid_core (pre, s, None))"
      using rx_word_run [OF w(1) no_boundary_uuid_core, of pre t None] w(2) by blast
    then have "(rev w @ pre, t, c) \<in> set (rx_run uuidPattern (pre, s, None))"
      using * w tail unfolding uuid_in_run by simp
    then show "has_match uuidPattern pre s" by (auto simp: has_match_def)
  qed
qed

lemma uuid_match_at:
  assumes "match_at uuidPattern pre s = Some (pre', s', cap)"
  shows "\<exists>w. s = w @ s' \<and> pre' = rev w @ pre \<and> w \<noteq> [] \<and> \<not> word_head s' \<and> \<not> word_head pre"
proof -
  have q: "at_boundary pre s" "(pre', s', cap) \<in> set (rx_run uuid_core (pre, s, None))"
      "at_boundary pre' s'"
    using match_at_in [OF assms] unfolding uuid_in_run by auto
  obtain w where w: "rx_word uuid_core w" "s = w @ s'" "pre' = rev w @ pre"
    using rx_run_word [OF q(2)] by auto
  have "w \<noteq> []" "is_hex (hd w)" "is_hex (last w)" using uuid_core_word [OF w(1)] by auto
  then have "word_head s" "word_head pre'"
    using w(2,3) by (simp_all add: word_head_hd is_hex_word hd_append hd_rev)
  then show ?thesis using q w \<open>w \<noteq> []\<close> by (auto simp: at_boundary_def)
qed

section \<open>The stages\<close>

definition clean_of :: "rx \<Rightarrow> string \<Rightarrow> string \<Rightarrow> bool" where
  "clean_of r pre s \<longleftrightarrow> \<not> matches_from r pre s"

lemma clean_of_step: "clean_of r pre (c # s) \<Longrightarrow> clean_of r (c # pre) s"
  by (simp add: clean_of_def)

lemma clean_of_here: "clean_of r pre s \<Longrightarrow> \<not> has_match r pre s"
  by (cases s) (simp_all add: clean_of_def)

lemma clean_of_inside:
  assumes "clean_of wireGuardKeyPattern pre (u @ v @ t)" and "rx_word wg_body w" and "prefix w v"
  shows "\<not> at_boundary (rev u @ pre) v"
proof
  assume b: "at_boundary (rev u @ pre) v"
  have "v \<noteq> []" using wg_word_shape [OF assms(2)] assms(3) by (auto simp: word_head_def)
  then have "at_boundary (rev u @ pre) (v @ t)"
    using b by (cases v) (simp_all add: at_boundary_def word_head_def)
  moreover have "\<exists>r. v @ t = w @ r" using assms(3) by (auto simp: prefix_def)
  ultimately have "has_match wireGuardKeyPattern (rev u @ pre) (v @ t)"
    unfolding wg_has_match using assms(2) by blast
  then show False
    using assms(1) unfolding clean_of_def matches_from_iff by blast
qed

lemma group_plus_match:
  assumes "match_at (RSeq RWordB (RSeq (RGroup a) (RPlus (RClass C)))) pre s = Some (pre', s', cap)"
    and "\<And>c. is_word c \<Longrightarrow> C c"
  shows "\<exists>g val. rx_word a g \<and> s = g @ val @ s' \<and> pre' = rev (g @ val) @ pre \<and> val \<noteq> [] \<and>
    cap = Some g \<and> \<not> word_head s'"
proof -
  let ?b = "RSeq (RGroup a) (RPlus (RClass C))"
  have "(pre', s', cap) \<in> set (rx_run ?b (pre, s, None))"
    using match_at_in [OF assms(1)] by (auto split: if_splits simp del: rx_run.simps(3) simp: rx_run_boundary_seq)
  then obtain g val where g: "rx_word a g" "rx_word (RPlus (RClass C)) val" "s = g @ val @ s'"
      "pre' = rev (g @ val) @ pre" "cap = Some g"
    using group_seq_run [OF \<open>(pre', s', cap) \<in> _\<close>]
    by (metis RPlus_def fst_conv no_group.simps(2,4,6) snd_conv)
  have "first_all (stops C) (rx_run ?b p)" for p
    by (rule first_all_seq) (rule plus_class_stops)
  then have "first_all (stops C) (rx_run (RSeq RWordB ?b) (pre, s, None))"
    by (rule first_all_seq)
  then have "stops C (pre', s', cap)" by (rule match_at_first_all [OF assms(1)])
  then have "\<not> word_head s'" using assms(2) by (auto simp: stops_def word_head_def split: list.splits)
  then show ?thesis using g by (auto simp: rx_word_plus_class)
qed

lemma wg_group_clean:
  assumes "rx_word wg_group g" and "g = u @ v" and "rx_word wg_body w" and "prefix w v"
  shows False
proof -
  obtain k s1 s2 where k: "k = ''PrivateKey'' \<or> k = ''PresharedKey''"
    and sp: "list_all is_space_re s1" "list_all is_space_re s2" and g: "g = (k @ s1) @ CHR ''='' # s2"
    using assms(1) unfolding wg_group_word by fastforce
  obtain a r x where w: "w = a @ CHR ''='' # r @ x" and x: "x \<noteq> []" "list_all is_key_char x"
  proof -
    obtain k' s1' s2' x' where "w = (k' @ s1' @ CHR ''='' # s2') @ x'" "x' \<noteq> []" "list_all is_key_char x'"
      using assms(3) unfolding wg_body_word wg_group_word by blast
    then show thesis using that [of "k' @ s1'" s2' x'] by simp
  qed
  obtain t where t: "v = w @ t" using assms(4) by (auto simp: prefix_def)
  have eq: "(k @ s1) @ CHR ''='' # s2 = (u @ a) @ CHR ''='' # (r @ x @ t)"
    using g assms(2) w t by simp
  have "\<not> is_space_re CHR ''=''" by (simp add: is_space_re_def)
  then have "CHR ''='' \<notin> set (k @ s1)" "CHR ''='' \<notin> set s2"
    using k sp by (auto simp: list_all_iff)
  then have "s2 = r @ x @ t"
    using eq append_Cons_eq_iff [of "CHR ''=''" "k @ s1" s2] by blast
  then have "is_space_re (hd x)" using sp x by (cases x) auto
  then show False using x space_not_key by (cases x) auto
qed

lemma suffix_no_P: "suffix v ''REDACTED'' \<Longrightarrow> CHR ''P'' \<notin> set v"
  using set_mono_suffix by fastforce

lemma wg_mark: "rx_word wg_body w \<Longrightarrow> suffix v ''REDACTED'' \<Longrightarrow> \<not> prefix w v"
proof
  assume a: "rx_word wg_body w" "suffix v ''REDACTED''" "prefix w v"
  have "CHR ''P'' \<in> set w" using a(1) unfolding wg_body_word wg_group_word by auto
  then show False using suffix_no_P [OF a(2)] set_mono_prefix [OF a(3)] by blast
qed

lemma uuid_mark: "rx_word uuid_core w \<Longrightarrow> suffix v ''REDACTED'' \<Longrightarrow> \<not> prefix w v"
  using uuid_core_word prefix_length_le suffix_length_le by fastforce

lemma uuid_word_shape:
  assumes "rx_word uuid_core w"
  shows "word_head w \<and> list_all plain w \<and> word_head (rev w)"
proof -
  note u = uuid_core_word [OF assms]
  have "plain CHR ''-''" by (simp add: plain_def)
  then have "list_all plain w" using u is_hex_word word_plain by (auto simp: list_all_iff)
  moreover have "w \<noteq> []" using u by auto
  ultimately show ?thesis using u
    by (simp add: word_head_hd is_hex_word hd_rev)
qed

lemma quoted_value_last: "rx_word quoted_value w \<Longrightarrow> w \<noteq> [] \<and> last w = CHR 0x22"
  unfolding quoted_value_def Let_def rx_word_simps rx_word_RByte by auto

definition json_group :: rx where
  "json_group =
     RSeq (RByte CHR 0x22)
       (RSeq (RAlts (map RLitFold
                [''privateKey'', ''preshared_key'', ''secret'', ''password'', ''uuid'']))
         (RSeq (RByte CHR 0x22) (RSeq spaces (RSeq (RByte CHR '':'') spaces))))"

lemma jsonSecretPattern_split:
  "jsonSecretPattern = RSeq (RGroup json_group) (RAlt quoted_value bare_value)"
  by (simp add: jsonSecretPattern_def json_group_def)

lemma no_group_value: "no_group (RAlt quoted_value bare_value)"
  by (simp add: quoted_value_def bare_value_def RPlus_def RByte_def Let_def)

lemma json_match:
  assumes "match_at jsonSecretPattern pre s = Some (pre', s', cap)"
  shows "\<exists>g val. s = g @ val @ s' \<and> pre' = rev (g @ val) @ pre \<and> val \<noteq> [] \<and>
    cap = Some g \<and> (word_head s' \<longrightarrow> \<not> word_head pre')"
proof -
  let ?C = "\<lambda>c. \<not> is_space_re c \<and> c \<notin> {CHR '','', CHR ''}'', CHR '']''}"
  let ?\<Phi> = "\<lambda>q. word_head (fst (snd q)) \<longrightarrow> \<not> word_head (fst q)"
  obtain g val where g: "rx_word (RAlt quoted_value bare_value) val" "s = g @ val @ s'"
      "pre' = rev (g @ val) @ pre" "cap = Some g"
    using group_seq_run [OF match_at_in [OF assms, unfolded jsonSecretPattern_split] no_group_value]
    by (metis fst_conv snd_conv)
  have "val \<noteq> []"
    using g(1) quoted_value_last unfolding bare_value_def rx_word_simps rx_word_plus_class by blast
  have quoted: "?\<Phi> q" if "q \<in> set (rx_run quoted_value p)" for q p
  proof -
    obtain w where "rx_word quoted_value w" "fst q = rev w @ fst p"
      using rx_run_word \<open>q \<in> _\<close> by blast
    then have "hd (fst q) = CHR 0x22"
      using quoted_value_last [of w] by (simp add: hd_append hd_rev)
    then show ?thesis using nonword_bytes(3) by (simp add: word_head_hd)
  qed
  have bare: "?\<Phi> q" if "stops ?C q" for q
  proof -
    have "\<not> ?C c \<Longrightarrow> \<not> is_word c" for c
      using word_not_space nonword_bytes by blast
    then show ?thesis using that by (auto simp: stops_def word_head_def split: list.splits)
  qed
  have "first_all ?\<Phi> (rx_run (RAlt quoted_value bare_value) p)" for p
  proof -
    have "first_all ?\<Phi> (rx_run quoted_value p)"
      using quoted [of _ p] by (auto simp: first_all_def split: list.splits)
    moreover have "first_all ?\<Phi> (rx_run bare_value p)"
      using plus_class_stops [of ?C p] bare unfolding bare_value_def
      by (rule first_all_mono)
    ultimately show ?thesis by (simp add: first_all_append)
  qed
  then have "first_all ?\<Phi> (rx_run jsonSecretPattern (pre, s, None))"
    unfolding jsonSecretPattern_split by (rule first_all_seq)
  from match_at_first_all [OF assms this] show ?thesis
    using g \<open>val \<noteq> []\<close> by auto
qed

lemma pw_word: "is_word c \<Longrightarrow> \<not> is_space_re c \<and> c \<notin> {CHR '','', CHR '';'', CHR ''&''}"
  using word_not_space nonword_bytes by blast

abbreviation quoted_mark :: string where
  "quoted_mark \<equiv> [CHR 0x22] @ marker @ [CHR 0x22]"

interpretation uuid_stage: redaction_stage uuidPattern uuidPattern "\<lambda>_. marker" marker
  "rx_word uuid_core" True "\<lambda>_ _. True"
proof unfold_locales
  show "has_match uuidPattern pre s \<longleftrightarrow>
    at_boundary pre s \<and> (\<exists>w t. rx_word uuid_core w \<and> s = w @ t \<and> (True \<longrightarrow> \<not> word_head t))" for pre s
    by (simp add: uuid_has_match)
  show "\<exists>g val. s = g @ val @ s' \<and> pre' = rev (g @ val) @ pre \<and> val \<noteq> [] \<and>
        marker = g @ marker \<and> (word_head s' \<longrightarrow> \<not> word_head pre') \<and>
        (True \<longrightarrow> g = [] \<and> \<not> word_head pre) \<and>
        (\<forall>u v w. g = u @ v \<longrightarrow> rx_word uuid_core w \<longrightarrow> prefix w v \<longrightarrow> \<not> at_boundary (rev u @ pre) v)"
    if m: "match_at uuidPattern pre s = Some (pre', s', cap)" for pre s pre' s' cap
  proof -
    obtain w where "s = w @ s'" "pre' = rev w @ pre" "w \<noteq> []" "\<not> word_head s'" "\<not> word_head pre"
      using uuid_match_at [OF m] by blast
    moreover have "\<not> rx_word uuid_core []" using uuid_core_word by fastforce
    ultimately show ?thesis by (intro exI [of _ "[]"] exI [of _ w]) (auto; fastforce)
  qed
qed (auto simp: uuid_word_shape uuid_mark mark_text_def)

interpretation wg_stage: redaction_stage wireGuardKeyPattern wireGuardKeyPattern
  "\<lambda>g. keep_group g @ marker" marker "rx_word wg_body" False "\<lambda>_ _. True"
proof unfold_locales
  show "\<exists>g val. s = g @ val @ s' \<and> pre' = rev (g @ val) @ pre \<and> val \<noteq> [] \<and>
        keep_group cap @ marker = g @ marker \<and> (word_head s' \<longrightarrow> \<not> word_head pre') \<and>
        (False \<longrightarrow> g = [] \<and> \<not> word_head pre) \<and>
        (\<forall>u v w. g = u @ v \<longrightarrow> rx_word wg_body w \<longrightarrow> prefix w v \<longrightarrow> \<not> at_boundary (rev u @ pre) v)"
    if m: "match_at wireGuardKeyPattern pre s = Some (pre', s', cap)" for pre s pre' s' cap
    using group_plus_match [OF m [unfolded wireGuardKeyPattern_split wg_body_def] is_word_key]
      wg_group_clean by (fastforce simp: keep_group_def)
qed (auto simp: wg_has_match wg_word_shape wg_mark mark_text_def)

interpretation wg_pw_stage: redaction_stage wireGuardKeyPattern passwordPattern
  "\<lambda>g. keep_group g @ marker" marker "rx_word wg_body" False "clean_of wireGuardKeyPattern"
proof unfold_locales
  show "\<exists>g val. s = g @ val @ s' \<and> pre' = rev (g @ val) @ pre \<and> val \<noteq> [] \<and>
        keep_group cap @ marker = g @ marker \<and> (word_head s' \<longrightarrow> \<not> word_head pre') \<and>
        (False \<longrightarrow> g = [] \<and> \<not> word_head pre) \<and>
        (\<forall>u v w. g = u @ v \<longrightarrow> rx_word wg_body w \<longrightarrow> prefix w v \<longrightarrow> \<not> at_boundary (rev u @ pre) v)"
    if m: "match_at passwordPattern pre s = Some (pre', s', cap)"
      and c: "clean_of wireGuardKeyPattern pre s" for pre s pre' s' cap
    using group_plus_match [OF m [unfolded passwordPattern_def] pw_word] clean_of_inside c
    by (fastforce simp: keep_group_def)
qed (rule wg_has_match_tb, auto simp: wg_word_shape wg_mark mark_text_def clean_of_step clean_of_here)

interpretation wg_json_stage: redaction_stage wireGuardKeyPattern jsonSecretPattern
  "\<lambda>g. keep_group g @ quoted_mark" quoted_mark "rx_word wg_body" False "clean_of wireGuardKeyPattern"
proof unfold_locales
  show "\<exists>g val. s = g @ val @ s' \<and> pre' = rev (g @ val) @ pre \<and> val \<noteq> [] \<and>
        keep_group cap @ quoted_mark = g @ quoted_mark \<and> (word_head s' \<longrightarrow> \<not> word_head pre') \<and>
        (False \<longrightarrow> g = [] \<and> \<not> word_head pre) \<and>
        (\<forall>u v w. g = u @ v \<longrightarrow> rx_word wg_body w \<longrightarrow> prefix w v \<longrightarrow> \<not> at_boundary (rev u @ pre) v)"
    if m: "match_at jsonSecretPattern pre s = Some (pre', s', cap)"
      and c: "clean_of wireGuardKeyPattern pre s" for pre s pre' s' cap
    using json_match [OF m] clean_of_inside c by (fastforce simp: keep_group_def)
qed (rule wg_has_match_tb, auto simp: wg_word_shape wg_mark mark_text_def clean_of_step clean_of_here)

interpretation wg_uuid_stage: redaction_stage wireGuardKeyPattern uuidPattern
  "\<lambda>_. marker" marker "rx_word wg_body" False "clean_of wireGuardKeyPattern"
proof unfold_locales
  show "\<exists>g val. s = g @ val @ s' \<and> pre' = rev (g @ val) @ pre \<and> val \<noteq> [] \<and>
        marker = g @ marker \<and> (word_head s' \<longrightarrow> \<not> word_head pre') \<and>
        (False \<longrightarrow> g = [] \<and> \<not> word_head pre) \<and>
        (\<forall>u v w. g = u @ v \<longrightarrow> rx_word wg_body w \<longrightarrow> prefix w v \<longrightarrow> \<not> at_boundary (rev u @ pre) v)"
    if m: "match_at uuidPattern pre s = Some (pre', s', cap)"
      and c: "clean_of wireGuardKeyPattern pre s" for pre s pre' s' cap
  proof -
    obtain w where "s = w @ s'" "pre' = rev w @ pre" "w \<noteq> []" "\<not> word_head s'"
      using uuid_match_at [OF m] by blast
    then show ?thesis using clean_of_inside [of pre "[]" "[]" s] c
      by (intro exI [of _ "[]"] exI [of _ w]) auto
  qed
qed (rule wg_has_match_tb, auto simp: wg_word_shape wg_mark mark_text_def clean_of_step clean_of_here)

section \<open>RedactSecrets\<close>

lemma RedactSecrets_stages:
  "RedactSecrets s =
     ReplaceAllString uuidPattern (\<lambda>_. marker)
       (ReplaceAllString jsonSecretPattern (\<lambda>g. keep_group g @ quoted_mark)
         (ReplaceAllString passwordPattern (\<lambda>g. keep_group g @ marker)
           (ReplaceAllString wireGuardKeyPattern (\<lambda>g. keep_group g @ marker) s)))"
proof (cases "s = []")
  case True
  then show ?thesis by (simp add: RedactSecrets_def ReplaceAllString_Nil)
next
  case False
  then show ?thesis by (simp add: RedactSecrets_def match_replace_eq Let_def)
qed

text \<open>
  The two properties that hold for every text: the redaction leaves no UUID and no
  WireGuard key assignment.
\<close>

lemma RedactSecrets_no_uuid: "\<not> MatchString uuidPattern (RedactSecrets s)"
  unfolding RedactSecrets_stages MatchString_def
  by (subst ReplaceAllString_def) (rule uuid_stage.output_clean; simp)

lemma RedactSecrets_no_key: "\<not> MatchString wireGuardKeyPattern (RedactSecrets s)"
proof -
  let ?s1 = "ReplaceAllString wireGuardKeyPattern (\<lambda>g. keep_group g @ marker) s"
  let ?s2 = "ReplaceAllString passwordPattern (\<lambda>g. keep_group g @ marker) ?s1"
  let ?s3 = "ReplaceAllString jsonSecretPattern (\<lambda>g. keep_group g @ quoted_mark) ?s2"
  have "clean_of wireGuardKeyPattern [] ?s1"
    unfolding clean_of_def by (subst ReplaceAllString_def) (rule wg_stage.output_clean; simp)
  then have "clean_of wireGuardKeyPattern [] ?s2"
    by (subst clean_of_def, subst ReplaceAllString_def) (rule wg_pw_stage.output_clean; simp)
  then have "clean_of wireGuardKeyPattern [] ?s3"
    by (subst clean_of_def, subst ReplaceAllString_def) (rule wg_json_stage.output_clean; simp)
  then show ?thesis
    unfolding RedactSecrets_stages MatchString_def
    by (subst ReplaceAllString_def) (rule wg_uuid_stage.output_clean; simp)
qed

text \<open>
  The patterns find all that is shown: what the specification calls a UUID or a key is matched by
  the code's own expressions.
\<close>

lemma word_bytes_words: "c \<in> set word_bytes \<Longrightarrow> is_word c"
proof -
  have "list_all is_word word_bytes" by code_simp
  then show "c \<in> set word_bytes \<Longrightarrow> is_word c" by (simp add: list_all_iff)
qed

lemma words_word_bytes:
  assumes "is_word c"
  shows "c \<in> set word_bytes"
proof -
  have "list_all (\<lambda>n. char_of n \<in> set word_bytes) ([48..<58] @ [65..<91] @ [97..<123] @ [95 :: nat])"
    by code_simp
  moreover have "of_char c \<in> set ([48..<58] @ [65..<91] @ [97..<123] @ [95 :: nat])"
    using assms unfolding is_word_def is_digit_def is_lower_def is_upper_def set_append set_upt by force
  ultimately have "char_of (of_char c :: nat) \<in> set word_bytes" unfolding list_all_iff by blast
  then show ?thesis by simp
qed

lemma is_word_bytes: "is_word c \<longleftrightarrow> c \<in> set word_bytes"
  using word_bytes_words words_word_bytes by blast

lemma hex_bytes: "c \<in> set ''0123456789abcdefABCDEF'' \<Longrightarrow> is_hex c"
proof -
  have "list_all is_hex ''0123456789abcdefABCDEF''" by code_simp
  then show "c \<in> set ''0123456789abcdefABCDEF'' \<Longrightarrow> is_hex c" unfolding list_all_iff by blast
qed

lemma is_key_bytes: "k \<in> set (word_bytes @ ''+/=-'') \<Longrightarrow> is_key_char k"
  using is_word_bytes [of k] is_word_key [of k] by (auto simp: is_key_char_def)

lemma is_space_bytes: "set ws \<subseteq> set blank_bytes \<Longrightarrow> list_all is_space_re ws"
  by (auto simp: list_all_iff blank_bytes_def is_space_re_def)

lemma list_all_slice:
  assumes "\<And>i. m \<le> i \<Longrightarrow> i < m + n \<Longrightarrow> P (xs ! i)" and "m + n \<le> length xs"
  shows "list_all P (take n (drop m xs))"
  using assms by (auto simp: list_all_length)

lemma uuid_shape_groups:
  assumes "uuid_shape u"
  shows "rx_word uuid_core u"
proof -
  have len: "length u = 36" using assms by (simp add: uuid_shape_def)
  have dash: "u ! i = CHR ''-''" if "i \<in> {8, 13, 18, 23}" for i
    using assms that by (auto simp: uuid_shape_def)
  have hex: "is_hex (u ! i)" if "i < 36" "i \<notin> {8, 13, 18, 23}" for i
    using assms that hex_bytes unfolding uuid_shape_def by meson
  let ?a = "take 8 (drop 0 u)" and ?b = "take 4 (drop 9 u)" and ?c = "take 4 (drop 14 u)"
    and ?d = "take 4 (drop 19 u)" and ?e = "take 12 (drop 24 u)"
  have all: "list_all is_hex ?a" "list_all is_hex ?b" "list_all is_hex ?c" "list_all is_hex ?d"
      "list_all is_hex ?e"
    by (rule list_all_slice; use len hex in simp)+
  have step: "drop n u = take m (drop n u) @ ''-'' @ drop (Suc (n + m)) u"
    if "n + m \<in> {8, 13, 18, 23}" for n m
  proof -
    have lt: "n + m < length u" using that len by auto
    have "drop n u = take m (drop n u) @ drop (n + m) u"
      by (metis append_take_drop_id drop_drop add.commute)
    also have "drop (n + m) u = ''-'' @ drop (Suc (n + m)) u"
      using Cons_nth_drop_Suc [OF lt] dash [OF that] by simp
    finally show ?thesis .
  qed
  have "u = ?a @ ''-'' @ drop 9 u" using step [of 0 8] by simp
  also have "drop 9 u = ?b @ ''-'' @ drop 14 u" using step [of 9 4] by simp
  also have "drop 14 u = ?c @ ''-'' @ drop 19 u" using step [of 14 4] by simp
  also have "drop 19 u = ?d @ ''-'' @ drop 24 u" using step [of 19 4] by simp
  also have "drop 24 u = ?e" using len by simp
  finally have u: "u = ?a @ ''-'' @ ?b @ ''-'' @ ?c @ ''-'' @ ?d @ ''-'' @ ?e" .
  have seqI: "rx_word (RSeq p q) (x @ y)" if "rx_word p x" "rx_word q y" for p q x y
    using that by (auto simp: rx_word_simps)
  have "rx_word uuid_core ((((((((?a @ ''-'') @ ?b) @ ''-'') @ ?c) @ ''-'') @ ?d) @ ''-'') @ ?e)"
    unfolding uuid_core_def Let_def
    by (intro seqI; use all len in \<open>simp add: rx_word_repeat_class rx_word_RByte del: rx_word_simps\<close>)
  then show ?thesis by (subst u) (simp only: append_assoc)
qed

lemma shows_uuid_match:
  assumes "shows_uuid s"
  shows "MatchString uuidPattern s"
proof -
  obtain a u b where s: "s = a @ u @ b" and u: "uuid_shape u"
    and a: "a = [] \<or> last a \<notin> set word_bytes" and b: "b = [] \<or> hd b \<notin> set word_bytes"
    using assms by (auto simp: shows_uuid_def)
  have core: "rx_word uuid_core u" by (rule uuid_shape_groups [OF u])
  then have "is_word (hd u)" "u \<noteq> []" using uuid_core_word [OF core] is_hex_word by auto
  moreover have "\<not> word_head (rev a)" "\<not> word_head b"
    using a b by (auto simp: word_head_hd hd_rev is_word_bytes)
  ultimately have "word_head (u @ b)" "\<not> word_head (rev a)" "\<not> word_head b"
    by (auto simp: word_head_hd)
  then have "has_match uuidPattern (rev a) (u @ b)"
    unfolding uuid_has_match at_boundary_def using core by blast
  then show ?thesis using s unfolding MatchString_def matches_from_iff by auto
qed

lemma shows_key_match:
  assumes "shows_key s"
  shows "MatchString wireGuardKeyPattern s"
proof -
  obtain a name ws ws' k b where s: "s = a @ name @ ws @ ''='' @ ws' @ [k] @ b"
    and a: "a = [] \<or> last a \<notin> set word_bytes" and name: "name \<in> {''PrivateKey'', ''PresharedKey''}"
    and ws: "set ws \<subseteq> set blank_bytes" "set ws' \<subseteq> set blank_bytes" and k: "k \<in> set (word_bytes @ ''+/=-'')"
    using assms unfolding shows_key_def by blast
  have "rx_word wg_group (name @ ws @ CHR ''='' # ws')"
    unfolding wg_group_word using name is_space_bytes [OF ws(1)] is_space_bytes [OF ws(2)] by blast
  then have body: "rx_word wg_body ((name @ ws @ CHR ''='' # ws') @ [k])"
    unfolding wg_body_word using is_key_bytes [OF k] by fastforce
  have "word_head (name @ ws @ ''='' @ ws' @ [k] @ b)"
    using name by (auto simp: word_head_def is_word_def is_upper_def is_lower_def is_digit_def)
  moreover have "\<not> word_head (rev a)"
    using a by (auto simp: word_head_hd hd_rev is_word_bytes)
  moreover have "name @ ws @ ''='' @ ws' @ [k] @ b = ((name @ ws @ CHR ''='' # ws') @ [k]) @ b" by simp
  ultimately have "has_match wireGuardKeyPattern (rev a) (name @ ws @ ''='' @ ws' @ [k] @ b)"
    unfolding wg_has_match at_boundary_def using body by metis
  then show ?thesis using s unfolding MatchString_def matches_from_iff by auto
qed

lemma RedactSecrets_redacted: "redacted (RedactSecrets s)"
  unfolding redacted_def
  using shows_uuid_match shows_key_match RedactSecrets_no_uuid RedactSecrets_no_key by blast

text \<open>\<open>SafeError\<close> on the message of an error (\<open>None\<close> for a nil error).\<close>

definition SafeError :: "string option \<Rightarrow> string" where
  "SafeError err = (case err of None \<Rightarrow> [] | Some msg \<Rightarrow> RedactSecrets msg)"

lemma RedactSecrets_Nil [simp]: "RedactSecrets [] = []"
  by (simp add: RedactSecrets_def)

end
