(* ===== verification/GoErrors.thy ===== *)
theory GoErrors
  imports Redact
begin

text \<open>
  Go's error values. A value of \<open>goerror\<close> keeps what the agent can observe of an error:
  its text (\<open>Error\<close>) and the chain of errors it wraps, which \<open>errors.Is\<close> and
  \<open>errors.As\<close> walk. Errors that other code constructs (the operating system, the
  network stack, the JSON decoder) have constructors that carry what is asked of them.
  The wording of the JSON decoder's own messages is reduced to one text per kind.
\<close>

datatype json_error =
    JSyntaxError
  | JTypeError string string   \<comment> \<open>kind of the JSON value, Go type of the target\<close>

datatype goerror =
    ErrNew string                       \<comment> \<open>\<open>errors.New\<close>, \<open>fmt.Errorf\<close> without \<open>%w\<close>\<close>
  | ErrWrap string goerror string       \<comment> \<open>\<open>fmt.Errorf\<close>: text before \<open>%w\<close>, the error, text after\<close>
  | ErrNotExist string                  \<comment> \<open>a path error for which \<open>errors.Is(err, os.ErrNotExist)\<close>\<close>
  | ErrCanceled                         \<comment> \<open>\<open>context.Canceled\<close>\<close>
  | ErrDeadlineExceeded                 \<comment> \<open>\<open>context.DeadlineExceeded\<close>\<close>
  | ErrNet string bool bool             \<comment> \<open>a \<open>net.Error\<close>: text, \<open>Timeout()\<close>, is \<open>DeadlineExceeded\<close>\<close>
  | ErrURL string goerror bool          \<comment> \<open>\<open>*url.Error\<close>: operation and URL, cause, \<open>Timeout()\<close>\<close>
  | ErrJSON json_error
  | HTTPError int string                \<comment> \<open>\<open>api.HTTPError\<close>\<close>
  | SafeOperationError string string goerror
  | RedirectError string string

fun json_error_text :: "json_error \<Rightarrow> string" where
  "json_error_text JSyntaxError = ''invalid JSON''"
| "json_error_text (JTypeError v t) = ''json: cannot unmarshal '' @ v @ '' into Go value of type '' @ t"

text \<open>The method \<open>Error() string\<close>.\<close>

fun Error :: "goerror \<Rightarrow> string" where
  "Error (ErrNew s) = s"
| "Error (ErrWrap pre e post) = pre @ Error e @ post"
| "Error (ErrNotExist s) = s"
| "Error ErrCanceled = ''context canceled''"
| "Error ErrDeadlineExceeded = ''context deadline exceeded''"
| "Error (ErrNet s _ _) = s"
| "Error (ErrURL s e _) = s @ '': '' @ Error e"
| "Error (ErrJSON j) = json_error_text j"
| "Error (HTTPError status body) = ''http '' @ itoa status @ '': '' @ body"
| "Error (SafeOperationError opType opID e) =
     RedactSecrets (''executor: '' @ opType @ '' '' @ opID @ '': '' @ Error e)"
| "Error (RedirectError opType target) =
     opType @ '': not yet implemented '' @ [CHR 0xE2, CHR 0x80, CHR 0x94] @ '' scheduled for '' @ target"

fun Unwrap :: "goerror \<Rightarrow> goerror option" where
  "Unwrap (ErrWrap _ e _) = Some e"
| "Unwrap (ErrURL _ e _) = Some e"
| "Unwrap (SafeOperationError _ _ e) = Some e"
| "Unwrap _ = None"

text \<open>The chain that \<open>errors.Is\<close> and \<open>errors.As\<close> walk.\<close>

fun err_chain :: "goerror \<Rightarrow> goerror list" where
  "err_chain (ErrWrap p e q) = ErrWrap p e q # err_chain e"
| "err_chain (ErrURL s e t) = ErrURL s e t # err_chain e"
| "err_chain (SafeOperationError a b e) = SafeOperationError a b e # err_chain e"
| "err_chain e = [e]"

fun is_canceled :: "goerror \<Rightarrow> bool" where
  "is_canceled ErrCanceled = True"
| "is_canceled _ = False"

fun is_deadline :: "goerror \<Rightarrow> bool" where
  "is_deadline ErrDeadlineExceeded = True"
| "is_deadline (ErrNet _ _ d) = d"
| "is_deadline _ = False"

fun is_not_exist :: "goerror \<Rightarrow> bool" where
  "is_not_exist (ErrNotExist _) = True"
| "is_not_exist _ = False"

definition errors_Is :: "(goerror \<Rightarrow> bool) \<Rightarrow> goerror \<Rightarrow> bool" where
  "errors_Is p e = list_ex p (err_chain e)"

text \<open>\<open>errors.As(err, &netErr)\<close> followed by \<open>netErr.Timeout()\<close>.\<close>

fun net_timeout :: "goerror \<Rightarrow> bool option" where
  "net_timeout (ErrNet _ t _) = Some t"
| "net_timeout (ErrURL _ _ t) = Some t"
| "net_timeout ErrDeadlineExceeded = Some True"
| "net_timeout _ = None"

fun first_some :: "('a \<Rightarrow> 'b option) \<Rightarrow> 'a list \<Rightarrow> 'b option" where
  "first_some f [] = None"
| "first_some f (x # xs) = (case f x of Some y \<Rightarrow> Some y | None \<Rightarrow> first_some f xs)"

definition errors_As_net :: "goerror \<Rightarrow> bool option" where
  "errors_As_net e = first_some net_timeout (err_chain e)"

text \<open>The first error of two, in the order they arise.\<close>

definition first_err :: "goerror option \<Rightarrow> goerror option \<Rightarrow> goerror option" where
  "first_err a b = (case a of Some e \<Rightarrow> Some e | None \<Rightarrow> b)"

lemma first_err_simps [simp]:
  "first_err None b = b"
  "first_err (Some e) b = Some e"
  "first_err a None = a"
  by (simp_all add: first_err_def split: option.splits)

lemma first_err_None: "first_err a b = None \<longleftrightarrow> a = None \<and> b = None"
  by (cases a) simp_all

text \<open>Wrapping keeps the chain, so \<open>errors.Is\<close> still finds the cause.\<close>

lemma errors_Is_wrap:
  "errors_Is p e \<Longrightarrow> errors_Is p (ErrWrap a e b)"
  "errors_Is p e \<Longrightarrow> errors_Is p (SafeOperationError t i e)"
  "errors_Is p e \<Longrightarrow> errors_Is p (ErrURL s e tmo)"
  by (simp_all add: errors_Is_def)

text \<open>The text of a safe operation error never shows a UUID or a WireGuard key.\<close>

lemma SafeOperationError_redacted [redact_laws]:
  "\<not> MatchString uuidPattern (Error (SafeOperationError t i e))"
  "\<not> MatchString wireGuardKeyPattern (Error (SafeOperationError t i e))"
  by (simp_all add: RedactSecrets_no_uuid RedactSecrets_no_key)

end
