(* ===== verification/GoIO.thy ===== *)
theory GoIO
  imports GoErrors
begin

text \<open>
  Go code with effects: a function from the state of the world to a result and the next
  state. The components differ in the part of the world they act on (an HTTP peer, the
  commands of the host, the file system); the state is therefore a type parameter. An
  early \<open>return err\<close> is \<open>io_bind\<close> skipping the rest.

  Every part of the world keeps a log of what was done to it. \<open>emits log P m\<close> says that
  \<open>m\<close> only appends to that log and that every entry it appends satisfies \<open>P\<close>.
\<close>

type_synonym ('s, 'a) io = "'s \<Rightarrow> (goerror + 'a) \<times> 's"

text \<open>A Go function may also panic.\<close>

datatype 'a outcome = Returns 'a | Panics string

definition io_bind :: "('s, 'a) io \<Rightarrow> ('a \<Rightarrow> ('s, 'b) io) \<Rightarrow> ('s, 'b) io" where
  "io_bind m f s = (case m s of (Inl e, s') \<Rightarrow> (Inl e, s') | (Inr x, s') \<Rightarrow> f x s')"

definition io_return :: "'a \<Rightarrow> ('s, 'a) io" where
  "io_return x s = (Inr x, s)"

definition io_fail :: "goerror \<Rightarrow> ('s, 'a) io" where
  "io_fail e s = (Inl e, s)"

text \<open>A check without effects: its error ends the function.\<close>

definition io_check :: "goerror option \<Rightarrow> ('s, unit) io" where
  "io_check r = (case r of Some e \<Rightarrow> io_fail e | None \<Rightarrow> io_return ())"

text \<open>The result of a function without effects.\<close>

definition io_lift :: "goerror + 'a \<Rightarrow> ('s, 'a) io" where
  "io_lift r s = (r, s)"

text \<open>An error of the operation is replaced by one that wraps it (\<open>fmt.Errorf\<close> with \<open>%w\<close>).\<close>

definition io_wrap :: "string \<Rightarrow> ('s, 'a) io \<Rightarrow> ('s, 'a) io" where
  "io_wrap msg m s = (case m s of (r, s') \<Rightarrow> (map_error (\<lambda>e. ErrWrap msg e []) r, s'))"

text \<open>The operation's result, error or not, is handed on as a value.\<close>

definition io_try :: "('s, 'a) io \<Rightarrow> ('s, goerror + 'a) io" where
  "io_try m s = (case m s of (r, s') \<Rightarrow> (Inr r, s'))"

text \<open>What runs when the operation fails (\<open>if err := m(); err != nil { ... }\<close>).\<close>

definition io_catch :: "('s, 'a) io \<Rightarrow> (goerror \<Rightarrow> ('s, 'a) io) \<Rightarrow> ('s, 'a) io" where
  "io_catch m h s = (case m s of (Inl e, s') \<Rightarrow> h e s' | (Inr x, s') \<Rightarrow> (Inr x, s'))"

text \<open>A call whose result is not looked at.\<close>

definition io_ignore :: "('s, 'a) io \<Rightarrow> ('s, unit) io" where
  "io_ignore m s = (Inr (), snd (m s))"

text \<open>The operation acts on one component of a larger state.\<close>

definition io_on :: "('w \<Rightarrow> 's) \<Rightarrow> (('s \<Rightarrow> 's) \<Rightarrow> 'w \<Rightarrow> 'w) \<Rightarrow> ('s, 'a) io \<Rightarrow> ('w, 'a) io" where
  "io_on get upd m w = (case m (get w) of (r, s') \<Rightarrow> (r, upd (\<lambda>_. s') w))"

section \<open>Laws\<close>

lemma io_simps [simp]:
  "io_return x s = (Inr x, s)"
  "io_fail e s = (Inl e, s)"
  "io_lift r s = (r, s)"
  "io_check None = io_return ()"
  "io_check (Some e) = io_fail e"
  by (simp_all add: io_return_def io_fail_def io_lift_def io_check_def)

lemma io_bind_return [simp]: "io_bind (io_return x) f = f x"
  by (rule ext) (simp add: io_bind_def)

lemma io_bind_fail [simp]: "io_bind (io_fail e) f = io_fail e"
  by (rule ext) (simp add: io_bind_def)

lemma io_bind_Inr:
  "io_bind m f s = (Inr y, s2) \<longleftrightarrow> (\<exists>x s1. m s = (Inr x, s1) \<and> f x s1 = (Inr y, s2))"
  by (auto simp: io_bind_def split: prod.splits sum.splits)

lemma io_wrap_Inr: "io_wrap msg m s = (Inr y, s') \<longleftrightarrow> m s = (Inr y, s')"
  by (auto simp: io_wrap_def map_error_eq_Inr split: prod.splits)

lemma io_check_Inr: "io_check r s = (Inr y, s') \<longleftrightarrow> r = None \<and> s' = s"
  by (cases r) auto

lemma io_try_eq: "io_try m s = (r, s') \<longleftrightarrow> (\<exists>x. r = Inr x \<and> m s = (x, s'))"
  by (auto simp: io_try_def split: prod.splits)

lemma io_on_Inr: "io_on get upd m w = (Inr x, w') \<longleftrightarrow> (\<exists>s'. m (get w) = (Inr x, s') \<and> w' = upd (\<lambda>_. s') w)"
  by (auto simp: io_on_def split: prod.splits)

lemmas io_success = io_bind_Inr io_wrap_Inr io_check_Inr io_try_eq io_on_Inr

definition emits :: "('s \<Rightarrow> 'e list) \<Rightarrow> ('e \<Rightarrow> bool) \<Rightarrow> ('s, 'a) io \<Rightarrow> bool" where
  "emits log P m \<longleftrightarrow> (\<forall>s. \<exists>es. log (snd (m s)) = log s @ es \<and> list_all P es)"

lemma emitsI:
  "(\<And>s. \<exists>es. log (snd (m s)) = log s @ es \<and> list_all P es) \<Longrightarrow> emits log P m"
  by (simp add: emits_def)

lemma emitsE:
  assumes "emits log P m" and "m s = (r, s')"
  obtains es where "log s' = log s @ es" and "list_all P es"
  using assms by (metis emits_def snd_conv)

lemma emits_return [client_laws]: "emits log P (io_return x)"
  by (simp add: emits_def)

lemma emits_fail [client_laws]: "emits log P (io_fail e)"
  by (simp add: emits_def)

lemma emits_check [client_laws]: "emits log P (io_check r)"
  by (cases r) (simp_all add: emits_def)

lemma emits_bind [client_laws]:
  assumes "emits log P m" and "\<And>x. emits log P (f x)"
  shows "emits log P (io_bind m f)"
proof (rule emitsI)
  fix s
  obtain r s' where m: "m s = (r, s')" by (cases "m s")
  obtain es where es: "log s' = log s @ es" "list_all P es"
    using assms(1) m by (rule emitsE)
  show "\<exists>es. log (snd (io_bind m f s)) = log s @ es \<and> list_all P es"
  proof (cases r)
    case (Inl e)
    then show ?thesis using es m by (simp add: io_bind_def)
  next
    case (Inr x)
    obtain es' where "log (snd (f x s')) = log s' @ es'" "list_all P es'"
      using assms(2) unfolding emits_def by blast
    then show ?thesis using es m Inr by (intro exI [of _ "es @ es'"]) (simp add: io_bind_def)
  qed
qed

lemma emits_wrap [client_laws]: "emits log P m \<Longrightarrow> emits log P (io_wrap msg m)"
  by (simp add: emits_def io_wrap_def split: prod.splits) (metis snd_conv)

lemma emits_try [client_laws]: "emits log P m \<Longrightarrow> emits log P (io_try m)"
  by (simp add: emits_def io_try_def split: prod.splits) (metis snd_conv)

lemma emits_if [client_laws]:
  "(b \<Longrightarrow> emits log P m) \<Longrightarrow> (\<not> b \<Longrightarrow> emits log P m') \<Longrightarrow> emits log P (if b then m else m')"
  by simp

lemma emits_option [client_laws]:
  "emits log P m \<Longrightarrow> (\<And>x. emits log P (f x)) \<Longrightarrow> emits log P (case r of None \<Rightarrow> m | Some x \<Rightarrow> f x)"
  by (cases r) simp_all

lemma emits_sum [client_laws]:
  "(\<And>x. emits log P (f x)) \<Longrightarrow> (\<And>x. emits log P (g x)) \<Longrightarrow>
     emits log P (case r of Inl x \<Rightarrow> f x | Inr x \<Rightarrow> g x)"
  by (cases r) simp_all

lemma emits_mono:
  assumes "emits log P m" and "\<And>e. P e \<Longrightarrow> Q e"
  shows "emits log Q m"
  using assms unfolding emits_def list_all_iff by blast

section \<open>Effects that respect an order on states\<close>

text \<open>
  \<open>along R m\<close>: whatever \<open>m\<close> returns, the state after it is related to the state before. For a
  preorder this composes, so that it holds for an operation when it holds for the calls the
  operation makes.
\<close>

definition along :: "('s \<Rightarrow> 's \<Rightarrow> bool) \<Rightarrow> ('s, 'a) io \<Rightarrow> bool" where
  "along R m \<longleftrightarrow> (\<forall>s. R s (snd (m s)))"

lemma alongD: "along R m \<Longrightarrow> m s = (r, s') \<Longrightarrow> R s s'"
  by (metis along_def snd_conv)

locale state_order =
  fixes R :: "'s \<Rightarrow> 's \<Rightarrow> bool"
  assumes R_refl: "R s s"
    and R_trans: "R a b \<Longrightarrow> R b c \<Longrightarrow> R a c"
begin

lemma along_basic: "along R (io_return x)" "along R (io_fail e)" "along R (io_lift r)"
  by (simp_all add: along_def R_refl)

lemma along_bind:
  assumes "along R m" and "\<And>x. along R (f x)"
  shows "along R (io_bind m f)"
  unfolding along_def
proof
  fix s
  obtain r s1 where m: "m s = (r, s1)" by (cases "m s")
  have 1: "R s s1" using assms(1) m by (rule alongD)
  show "R s (snd (io_bind m f s))"
  proof (cases r)
    case (Inr x)
    have "R s1 (snd (f x s1))" using assms(2) by (simp add: along_def)
    then show ?thesis using R_trans [OF 1] m Inr by (simp add: io_bind_def)
  qed (use 1 m in \<open>simp add: io_bind_def\<close>)
qed

lemma along_wrap: "along R m \<Longrightarrow> along R (io_wrap msg m)" "along R m \<Longrightarrow> along R (io_try m)"
  by (simp_all add: along_def io_wrap_def io_try_def case_prod_beta)

lemma along_if: "along R m \<Longrightarrow> along R m' \<Longrightarrow> along R (if b then m else m')"
  by simp

lemma along_sum:
  "(\<And>x. along R (f x)) \<Longrightarrow> (\<And>x. along R (g x)) \<Longrightarrow> along R (case r of Inl x \<Rightarrow> f x | Inr x \<Rightarrow> g x)"
  by (cases r) simp_all

lemmas along_laws = along_basic along_bind along_wrap along_if along_sum

end

end
