(* ===== verification/GoHost.thy ===== *)
theory GoHost
  imports GoIO "HOL-Library.Word"
begin

text \<open>
  The host the agent runs on, as far as the managers use it: running a command
  (\<open>os/exec\<close>), reading the clock and dialling a TCP port. What the host does is a
  parameter; the state \<open>'h\<close> is the host's own. Every command that was run is logged
  with whether it succeeded.

  A Go \<open>time.Duration\<close> is a count of nanoseconds in 64 bits that wraps around.
\<close>

record command =
  cmd_name :: string
  cmd_args :: "string list"
  cmd_ok :: bool

record 'h host =
  ran :: "command list"
  machine :: 'h

record exec_outcome =
  eo_Stdout :: string
  eo_Combined :: string
  eo_Err :: "goerror option"

type_synonym 'h os_exec = "string \<Rightarrow> string list \<Rightarrow> 'h \<Rightarrow> exec_outcome \<times> 'h"

text \<open>\<open>exec.CommandContext(ctx, name, args...)\<close>, run to its end.\<close>

definition run_command :: "'h os_exec \<Rightarrow> string \<Rightarrow> string list \<Rightarrow> 'h host \<Rightarrow> exec_outcome \<times> 'h host" where
  "run_command os name args h =
     (case os name args (machine h) of
        (o1, m) \<Rightarrow>
          (o1, \<lparr>ran = ran h @ [\<lparr>cmd_name = name, cmd_args = args, cmd_ok = eo_Err o1 = None\<rparr>],
                machine = m\<rparr>))"

section \<open>Durations\<close>

definition wrap64 :: "int \<Rightarrow> int" where
  "wrap64 i = sint (word_of_int i :: 64 word)"

definition Second :: int where
  "Second = 1000000000"

definition Millisecond :: int where
  "Millisecond = 1000000"

lemma wrap64_id: "- (2 ^ 63) \<le> i \<Longrightarrow> i < 2 ^ 63 \<Longrightarrow> wrap64 i = i"
  unfolding wrap64_def by (simp add: sint_sbintrunc' signed_take_bit_int_eq_self)

lemma wrap64_range: "- (2 ^ 63) \<le> wrap64 i" "wrap64 i < 2 ^ 63"
  using sint_ge [of "word_of_int i :: 64 word"] sint_lt [of "word_of_int i :: 64 word"]
  by (simp_all add: wrap64_def)

end
