(* ===== verification/GoJson.thy ===== *)
theory GoJson
  imports GoErrors
begin

text \<open>
  Go's package \<open>encoding/json\<close> as the agent uses it: parsing a text into a JSON value,
  storing a value into a struct (\<open>Unmarshal\<close>) and writing one (\<open>MarshalIndent\<close>).

  The parser follows the grammar of the library's scanner: its white space, number
  syntax and escapes, the replacement of invalid UTF-8 and of unpaired surrogates by
  U+FFFD. It is given as much fuel as the text has bytes and one more; every nested
  call comes after at least one byte, so it never runs out. The limit of 10000 nested
  levels of the library is not modelled.
\<close>

datatype json =
    JNull
  | JBool bool
  | JNum string
  | JStr string
  | JArr "json list"
  | JObj "(string \<times> json) list"

text \<open>
  A \<open>json.RawMessage\<close> or a request payload is represented by the value it parses to;
  \<open>None\<close> stands for bytes that are not a JSON text, the nil message among them.
\<close>

type_synonym raw_json = "json option"

section \<open>Parsing\<close>

definition is_ws :: "char \<Rightarrow> bool" where
  "is_ws c \<longleftrightarrow> c = CHR 0x20 \<or> c = CHR 0x09 \<or> c = CHR 0x0A \<or> c = CHR 0x0D"

definition skip_ws :: "string \<Rightarrow> string" where
  "skip_ws s = dropWhile is_ws s"

definition in_range :: "nat \<Rightarrow> nat \<Rightarrow> char \<Rightarrow> bool" where
  "in_range lo hi c \<longleftrightarrow> lo \<le> code c \<and> code c \<le> hi"

text \<open>The length of the valid UTF-8 sequence a text starts with, 0 if there is none.\<close>

definition utf8_len :: "string \<Rightarrow> nat" where
  "utf8_len s =
     (case s of
        [] \<Rightarrow> 0
      | a # r \<Rightarrow>
          if code a < 128 then 1
          else case r of
            [] \<Rightarrow> 0
          | b # r2 \<Rightarrow>
              if in_range 194 223 a then (if in_range 128 191 b then 2 else 0)
              else case r2 of
                [] \<Rightarrow> 0
              | c # r3 \<Rightarrow>
                  if in_range 224 239 a then
                    (if in_range (if code a = 224 then 160 else 128) (if code a = 237 then 159 else 191) b
                        \<and> in_range 128 191 c then 3 else 0)
                  else case r3 of
                    [] \<Rightarrow> 0
                  | d # _ \<Rightarrow>
                      if in_range 240 244 a
                         \<and> in_range (if code a = 240 then 144 else 128) (if code a = 244 then 143 else 191) b
                         \<and> in_range 128 191 c \<and> in_range 128 191 d then 4 else 0)"

definition replacement_rune :: string where
  "replacement_rune = [CHR 0xEF, CHR 0xBF, CHR 0xBD]"

definition utf8_encode :: "nat \<Rightarrow> string" where
  "utf8_encode n =
     (if n < 128 then [char_of n]
      else if n < 2048 then [char_of (192 + n div 64), char_of (128 + n mod 64)]
      else if n < 65536 then
        [char_of (224 + n div 4096), char_of (128 + n div 64 mod 64), char_of (128 + n mod 64)]
      else [char_of (240 + n div 262144), char_of (128 + n div 4096 mod 64),
            char_of (128 + n div 64 mod 64), char_of (128 + n mod 64)])"

definition hex_val :: "char \<Rightarrow> nat option" where
  "hex_val c =
     (if is_digit c then Some (code c - 48)
      else if in_range 97 102 c then Some (code c - 87)
      else if in_range 65 70 c then Some (code c - 55)
      else None)"

fun hex4 :: "string \<Rightarrow> nat option" where
  "hex4 (a # b # c # d # _) =
     (case (hex_val a, hex_val b, hex_val c, hex_val d) of
        (Some w, Some x, Some y, Some z) \<Rightarrow> Some (((w * 16 + x) * 16 + y) * 16 + z)
      | _ \<Rightarrow> None)"
| "hex4 _ = None"

text \<open>
  The rune of a \<open>\u\<close> escape whose four digits give \<open>u\<close>, and how many bytes after
  them belong to it: 6 for the second half of a surrogate pair.
\<close>

definition escape_rune :: "nat \<Rightarrow> string \<Rightarrow> string \<times> nat" where
  "escape_rune u rest =
     (if 55296 \<le> u \<and> u < 57344 then
        (if u < 56320 \<and> HasPrefix rest [CHR 0x5C, CHR ''u''] then
           (case hex4 (drop 2 rest) of
              Some v \<Rightarrow>
                if 56320 \<le> v \<and> v < 57344
                then (utf8_encode ((u - 55296) * 1024 + (v - 56320) + 65536), 6)
                else (replacement_rune, 0)
            | None \<Rightarrow> (replacement_rune, 0))
         else (replacement_rune, 0))
      else (utf8_encode u, 0))"

definition simple_escape :: "char \<Rightarrow> char option" where
  "simple_escape c =
     (if c = CHR 0x22 \<or> c = CHR 0x5C \<or> c = CHR ''/'' then Some c
      else if c = CHR ''b'' then Some CHR 0x08
      else if c = CHR ''f'' then Some CHR 0x0C
      else if c = CHR ''n'' then Some CHR 0x0A
      else if c = CHR ''r'' then Some CHR 0x0D
      else if c = CHR ''t'' then Some CHR 0x09
      else None)"

definition cons_str :: "string \<Rightarrow> (string \<times> string) option \<Rightarrow> (string \<times> string) option" where
  "cons_str w r = map_option (\<lambda>(v, rest). (w @ v, rest)) r"

text \<open>The rest of a string literal, after its opening quote.\<close>

function parse_str :: "string \<Rightarrow> (string \<times> string) option" where
  "parse_str [] = None"
| "parse_str (c # s) =
     (if c = CHR 0x22 then Some ([], s)
      else if c = CHR 0x5C then
        (case s of
           [] \<Rightarrow> None
         | e # t \<Rightarrow>
             (case simple_escape e of
                Some d \<Rightarrow> cons_str [d] (parse_str t)
              | None \<Rightarrow>
                  if e = CHR ''u'' then
                    (case hex4 t of
                       None \<Rightarrow> None
                     | Some u \<Rightarrow>
                         (let rest = drop 4 t; (w, n) = escape_rune u rest
                          in cons_str w (parse_str (drop n rest))))
                  else None))
      else if code c < 32 then None
      else
        (let n = utf8_len (c # s)
         in if n = 0 then cons_str replacement_rune (parse_str s)
            else cons_str (take n (c # s)) (parse_str (drop (n - 1) s))))"
  by pat_completeness auto
termination
  by (relation "measure length") auto

declare parse_str.simps [simp del]

definition parse_digits :: "string \<Rightarrow> (string \<times> string) option" where
  "parse_digits s =
     (if takeWhile is_digit s = [] then None else Some (takeWhile is_digit s, dropWhile is_digit s))"

definition parse_frac :: "string \<Rightarrow> (string \<times> string) option" where
  "parse_frac s =
     (case s of
        c # t \<Rightarrow> if c = CHR ''.'' then cons_str [c] (parse_digits t) else Some ([], s)
      | [] \<Rightarrow> Some ([], s))"

definition parse_exp :: "string \<Rightarrow> (string \<times> string) option" where
  "parse_exp s =
     (case s of
        c # t \<Rightarrow>
          if c = CHR ''e'' \<or> c = CHR ''E'' then
            (case t of
               d # u \<Rightarrow>
                 if d = CHR ''+'' \<or> d = CHR ''-'' then cons_str [c, d] (parse_digits u)
                 else cons_str [c] (parse_digits t)
             | [] \<Rightarrow> None)
          else Some ([], s)
      | [] \<Rightarrow> Some ([], s))"

definition parse_uint :: "string \<Rightarrow> (string \<times> string) option" where
  "parse_uint s =
     (case s of
        [] \<Rightarrow> None
      | c # t \<Rightarrow> if c = CHR ''0'' then Some ([c], t) else parse_digits s)"

definition parse_num :: "string \<Rightarrow> (string \<times> string) option" where
  "parse_num s =
     (let (sg, s1) = (if HasPrefix s ''-'' then (''-'', drop 1 s) else ([], s))
      in case parse_uint s1 of
           None \<Rightarrow> None
         | Some (i, s2) \<Rightarrow>
             (case parse_frac s2 of
                None \<Rightarrow> None
              | Some (f, s3) \<Rightarrow>
                  (case parse_exp s3 of
                     None \<Rightarrow> None
                   | Some (x, s4) \<Rightarrow> Some (sg @ i @ f @ x, s4))))"

definition lit_value :: "string \<Rightarrow> json \<Rightarrow> string \<Rightarrow> (json \<times> string) option" where
  "lit_value l v s = (if HasPrefix s l then Some (v, drop (length l) s) else None)"

fun parse_value :: "nat \<Rightarrow> string \<Rightarrow> (json \<times> string) option"
  and parse_elems :: "nat \<Rightarrow> string \<Rightarrow> (json list \<times> string) option"
  and parse_members :: "nat \<Rightarrow> string \<Rightarrow> ((string \<times> json) list \<times> string) option" where
  "parse_value 0 s0 = None"
| "parse_value (Suc n) s0 =
     (case skip_ws s0 of
        [] \<Rightarrow> None
      | c # s \<Rightarrow>
          if c = CHR ''{'' then
            (case skip_ws s of
               [] \<Rightarrow> None
             | d # t \<Rightarrow>
                 if d = CHR ''}'' then Some (JObj [], t)
                 else map_option (\<lambda>(ms, r). (JObj ms, r)) (parse_members n (d # t)))
          else if c = CHR ''['' then
            (case skip_ws s of
               [] \<Rightarrow> None
             | d # t \<Rightarrow>
                 if d = CHR '']'' then Some (JArr [], t)
                 else map_option (\<lambda>(vs, r). (JArr vs, r)) (parse_elems n (d # t)))
          else if c = CHR 0x22 then map_option (\<lambda>(v, r). (JStr v, r)) (parse_str s)
          else if c = CHR ''t'' then lit_value ''true'' (JBool True) (c # s)
          else if c = CHR ''f'' then lit_value ''false'' (JBool False) (c # s)
          else if c = CHR ''n'' then lit_value ''null'' JNull (c # s)
          else map_option (\<lambda>(l, r). (JNum l, r)) (parse_num (c # s)))"
| "parse_elems 0 s0 = None"
| "parse_elems (Suc n) s0 =
     (case parse_value n s0 of
        None \<Rightarrow> None
      | Some (v, s1) \<Rightarrow>
          (case skip_ws s1 of
             [] \<Rightarrow> None
           | c # s \<Rightarrow>
               if c = CHR '','' then map_option (\<lambda>(vs, r). (v # vs, r)) (parse_elems n s)
               else if c = CHR '']'' then Some ([v], s)
               else None))"
| "parse_members 0 s0 = None"
| "parse_members (Suc n) s0 =
     (case skip_ws s0 of
        [] \<Rightarrow> None
      | q # s1 \<Rightarrow>
          if q \<noteq> CHR 0x22 then None
          else case parse_str s1 of
            None \<Rightarrow> None
          | Some (k, s2) \<Rightarrow>
              (case skip_ws s2 of
                 [] \<Rightarrow> None
               | c # s3 \<Rightarrow>
                   if c \<noteq> CHR '':'' then None
                   else case parse_value n s3 of
                     None \<Rightarrow> None
                   | Some (v, s4) \<Rightarrow>
                       (case skip_ws s4 of
                          [] \<Rightarrow> None
                        | e # s5 \<Rightarrow>
                            if e = CHR '','' then map_option (\<lambda>(ms, r). ((k, v) # ms, r)) (parse_members n s5)
                            else if e = CHR ''}'' then Some ([(k, v)], s5)
                            else None)))"

text \<open>\<open>json.Unmarshal\<close> wants one value and white space after it.\<close>

definition json_parse :: "string \<Rightarrow> raw_json" where
  "json_parse s =
     (case parse_value (2 * length s + 2) s of
        None \<Rightarrow> None
      | Some (v, r) \<Rightarrow> if skip_ws r = [] then Some v else None)"

text \<open>\<open>json.NewDecoder(r).Decode\<close> reads the first value and leaves the rest.\<close>

definition json_decode_first :: "string \<Rightarrow> raw_json" where
  "json_decode_first s = map_option fst (parse_value (2 * length s + 2) s)"

section \<open>Storing a value into a Go variable\<close>

fun json_kind :: "json \<Rightarrow> string" where
  "json_kind JNull = ''null''"
| "json_kind (JBool _) = ''bool''"
| "json_kind (JNum _) = ''number''"
| "json_kind (JStr _) = ''string''"
| "json_kind (JArr _) = ''array''"
| "json_kind (JObj _) = ''object''"

definition type_error :: "json \<Rightarrow> string \<Rightarrow> goerror option" where
  "type_error v t = Some (ErrJSON (JTypeError (json_kind v) t))"

text \<open>
  Storing a value into a variable of type \<open>'r\<close>: the new content and the first type
  error. A value of the wrong type leaves the variable as it was and decoding goes on.
\<close>

type_synonym 'r store = "json \<Rightarrow> 'r \<Rightarrow> 'r \<times> goerror option"

definition store_string :: "string store" where
  "store_string v old =
     (case v of JStr s \<Rightarrow> (s, None) | JNull \<Rightarrow> (old, None) | _ \<Rightarrow> (old, type_error v ''string''))"

definition store_bool :: "bool store" where
  "store_bool v old =
     (case v of JBool b \<Rightarrow> (b, None) | JNull \<Rightarrow> (old, None) | _ \<Rightarrow> (old, type_error v ''bool''))"

text \<open>\<open>int\<close> (64 bits) and \<open>int64\<close>: the literal must be an integer in range.\<close>

definition store_int :: "int store" where
  "store_int v old =
     (case v of
        JNum l \<Rightarrow>
          (case ParseInt64 l of
             (n, None) \<Rightarrow> (n, None)
           | (_, Some _) \<Rightarrow> (old, Some (ErrJSON (JTypeError (''number '' @ l) ''int''))))
      | JNull \<Rightarrow> (old, None)
      | _ \<Rightarrow> (old, type_error v ''int''))"

text \<open>\<open>json.RawMessage\<close>.\<close>

definition store_raw :: "raw_json store" where
  "store_raw v old = (Some v, None)"

fun store_elems :: "'a \<Rightarrow> 'a store \<Rightarrow> json list \<Rightarrow> 'a list \<times> goerror option" where
  "store_elems zero st [] = ([], None)"
| "store_elems zero st (v # vs) =
     (let (x, e) = st v zero; (xs, e') = store_elems zero st vs in (x # xs, first_err e e'))"

definition store_slice :: "'a \<Rightarrow> 'a store \<Rightarrow> 'a list store" where
  "store_slice zero st v old =
     (case v of
        JArr vs \<Rightarrow> store_elems zero st vs
      | JNull \<Rightarrow> ([], None)
      | _ \<Rightarrow> (old, type_error v ''slice''))"

text \<open>A map with string keys; a later member overrides an earlier one.\<close>

fun store_members :: "'a \<Rightarrow> 'a store \<Rightarrow> (string \<times> json) list \<Rightarrow> (string \<rightharpoonup> 'a) \<Rightarrow>
    (string \<rightharpoonup> 'a) \<times> goerror option" where
  "store_members zero st [] m = (m, None)"
| "store_members zero st ((k, v) # ms) m =
     (let (x, e) = st v zero; (m', e') = store_members zero st ms (m(k \<mapsto> x))
      in (m', first_err e e'))"

text \<open>\<open>None\<close> stands for a nil map.\<close>

definition store_map :: "'a \<Rightarrow> 'a store \<Rightarrow> (string \<rightharpoonup> 'a) option store" where
  "store_map zero st v old =
     (case v of
        JObj ms \<Rightarrow>
          (let (m, e) = store_members zero st ms (case old of None \<Rightarrow> Map.empty | Some m0 \<Rightarrow> m0)
           in (Some m, e))
      | JNull \<Rightarrow> (None, None)
      | _ \<Rightarrow> (old, type_error v ''map''))"

text \<open>A pointer to a struct: null stores nil.\<close>

definition store_ptr :: "'a \<Rightarrow> 'a store \<Rightarrow> 'a option store" where
  "store_ptr zero st v old =
     (case v of
        JNull \<Rightarrow> (None, None)
      | _ \<Rightarrow> (let (x, e) = st v (case old of None \<Rightarrow> zero | Some y \<Rightarrow> y) in (Some x, e)))"

text \<open>
  A struct is described by its fields: the name in the JSON text and how to store into
  it. A member goes to the field with exactly its name or else to the first field whose
  name is the same but for case; a member with no field is ignored.
\<close>

type_synonym 'r fields = "(string \<times> 'r store) list"

definition in_field :: "('r \<Rightarrow> 'a) \<Rightarrow> (('a \<Rightarrow> 'a) \<Rightarrow> 'r \<Rightarrow> 'r) \<Rightarrow> 'a store \<Rightarrow> 'r store" where
  "in_field get upd st v r = (let (x, e) = st v (get r) in (upd (\<lambda>_. x) r, e))"

definition find_field :: "'r fields \<Rightarrow> string \<Rightarrow> 'r store option" where
  "find_field fs k =
     (case find (\<lambda>f. fst f = k) fs of
        Some f \<Rightarrow> Some (snd f)
      | None \<Rightarrow> map_option snd (find (\<lambda>f. fold_ascii (fst f) = fold_ascii k) fs))"

fun store_fields :: "'r fields \<Rightarrow> (string \<times> json) list \<Rightarrow> 'r \<Rightarrow> 'r \<times> goerror option" where
  "store_fields fs [] r = (r, None)"
| "store_fields fs ((k, v) # ms) r =
     (case find_field fs k of
        None \<Rightarrow> store_fields fs ms r
      | Some st \<Rightarrow>
          (let (r1, e) = st v r; (r2, e') = store_fields fs ms r1 in (r2, first_err e e')))"

definition store_struct :: "string \<Rightarrow> 'r fields \<Rightarrow> 'r store" where
  "store_struct name fs v r =
     (case v of
        JObj ms \<Rightarrow> store_fields fs ms r
      | JNull \<Rightarrow> (r, None)
      | _ \<Rightarrow> (r, type_error v name))"

text \<open>
  \<open>json.Unmarshal(data, &r)\<close>: the variable's content after the call and the error. A
  syntax error is found before anything is stored.
\<close>

definition Unmarshal :: "'r store \<Rightarrow> raw_json \<Rightarrow> 'r \<Rightarrow> 'r \<times> goerror option" where
  "Unmarshal st data r =
     (case data of None \<Rightarrow> (r, Some (ErrJSON JSyntaxError)) | Some v \<Rightarrow> st v r)"

text \<open>
  A map whose order of iteration matters to the program is an association list with each
  key once; nil and empty are not distinguished there.
\<close>

fun alist_put :: "string \<Rightarrow> 'a \<Rightarrow> (string \<times> 'a) list \<Rightarrow> (string \<times> 'a) list" where
  "alist_put k v [] = [(k, v)]"
| "alist_put k v ((k', v') # ms) = (if k = k' then (k, v) # ms else (k', v') # alist_put k v ms)"

fun store_alist_members :: "'a \<Rightarrow> 'a store \<Rightarrow> (string \<times> json) list \<Rightarrow> (string \<times> 'a) list \<Rightarrow>
    (string \<times> 'a) list \<times> goerror option" where
  "store_alist_members zero st [] m = (m, None)"
| "store_alist_members zero st ((k, v) # ms) m =
     (let (x, e) = st v zero; (m', e') = store_alist_members zero st ms (alist_put k x m)
      in (m', first_err e e'))"

definition store_alist :: "'a \<Rightarrow> 'a store \<Rightarrow> (string \<times> 'a) list store" where
  "store_alist zero st v old =
     (case v of
        JObj ms \<Rightarrow> store_alist_members zero st ms old
      | JNull \<Rightarrow> ([], None)
      | _ \<Rightarrow> (old, type_error v ''map''))"

section \<open>Building a value\<close>

text \<open>
  A Go map with string keys as the JSON object the encoder writes for it: the members
  in the order of their keys, each key once.
\<close>

fun str_less :: "string \<Rightarrow> string \<Rightarrow> bool" where
  "str_less _ [] = False"
| "str_less [] (b # bs) = True"
| "str_less (a # as) (b # bs) = (code a < code b \<or> (a = b \<and> str_less as bs))"

fun obj_put :: "string \<Rightarrow> json \<Rightarrow> (string \<times> json) list \<Rightarrow> (string \<times> json) list" where
  "obj_put k v [] = [(k, v)]"
| "obj_put k v ((k', v') # ms) =
     (if k = k' then (k, v) # ms
      else if str_less k k' then (k, v) # (k', v') # ms
      else (k', v') # obj_put k v ms)"

fun obj_of :: "(string \<times> json) list \<Rightarrow> (string \<times> json) list" where
  "obj_of [] = []"
| "obj_of ((k, v) # ms) = obj_put k v (obj_of ms)"

definition obj_get :: "(string \<times> json) list \<Rightarrow> string \<Rightarrow> json option" where
  "obj_get ms k = map_of ms k"

lemma obj_get_put: "obj_get (obj_put k v ms) k' = (if k' = k then Some v else obj_get ms k')"
  by (induction k v ms rule: obj_put.induct) (auto simp: obj_get_def)

section \<open>Lemmas on decoding\<close>

lemma Unmarshal_simps [simp]:
  "Unmarshal st None r = (r, Some (ErrJSON JSyntaxError))"
  "Unmarshal st (Some v) r = st v r"
  by (simp_all add: Unmarshal_def)

lemma store_string_simps [simp]:
  "store_string (JStr s) old = (s, None)"
  "store_string JNull old = (old, None)"
  by (simp_all add: store_string_def)

lemma find_field_other:
  assumes "\<And>f. f \<in> set fs \<Longrightarrow> fold_ascii (fst f) \<noteq> fold_ascii k"
  shows "find_field fs k = None"
proof -
  have "find (\<lambda>f. fst f = k) fs = None" using assms by (fastforce simp: find_None_iff)
  moreover have "find (\<lambda>f. fold_ascii (fst f) = fold_ascii k) fs = None"
    using assms by (auto simp: find_None_iff)
  ultimately show ?thesis by (simp add: find_field_def)
qed

end
