(* ===== verification/Executor.thy ===== *)
theory Executor
  imports GoHost GoJson
begin

text \<open>
  Package \<open>executor\<close> (\<open>internal/executor/executor.go\<close>): dispatch of operations to handlers,
  with a check that an operation ID was not processed before.

  A handler is a function of the operation and of the world \<open>'w\<close>; \<open>Inr None\<close> is a handler
  that returns neither a result nor an error. \<open>Execute\<close> is composed of the section under
  the mutex (\<open>Execute_begin\<close>), the call of the handler, and the rest (\<open>Execute_finish\<close>), so
  that the step relation at the end can interleave several calls with the eviction of old
  IDs. Times are in nanoseconds. Log lines are kept with their text attributes; the
  attribute \<open>elapsed\<close> is left out.
\<close>

section \<open>Types\<close>

definition OpInstallComponent :: string where "OpInstallComponent = ''INSTALL_COMPONENT''"
definition OpApplyServiceRevision :: string where "OpApplyServiceRevision = ''APPLY_SERVICE_REVISION''"
definition OpStartService :: string where "OpStartService = ''START_SERVICE''"
definition OpStopService :: string where "OpStopService = ''STOP_SERVICE''"
definition OpRestartService :: string where "OpRestartService = ''RESTART_SERVICE''"
definition OpApplyFirewallRevision :: string where "OpApplyFirewallRevision = ''APPLY_FIREWALL_REVISION''"
definition OpCreateTunnel :: string where "OpCreateTunnel = ''CREATE_TUNNEL''"
definition OpRemoveTunnel :: string where "OpRemoveTunnel = ''REMOVE_TUNNEL''"
definition OpCollectStatus :: string where "OpCollectStatus = ''COLLECT_STATUS''"
definition OpCollectLogs :: string where "OpCollectLogs = ''COLLECT_LOGS''"
definition OpRunHealthCheck :: string where "OpRunHealthCheck = ''RUN_HEALTH_CHECK''"
definition OpManageCertificate :: string where "OpManageCertificate = ''MANAGE_CERTIFICATE''"

record Operation =
  opr_ID :: string
  opr_Type :: string
  opr_Data :: raw_json

record OpResult =
  res_Status :: string
  res_Message :: string
  res_Data :: raw_json

type_synonym 'w Handler = "Operation \<Rightarrow> ('w, OpResult option) io"

record log_entry =
  le_Level :: string
  le_Msg :: string
  le_Attrs :: "(string \<times> string) list"

record 'w Executor =
  exr_handlers :: "string \<rightharpoonup> 'w Handler"
  exr_seen :: "string \<rightharpoonup> int"
  exr_log :: "log_entry list"
  exr_defaultTimeout :: int

section \<open>Operations\<close>

definition NewExecutor :: "'w Executor" where
  "NewExecutor = \<lparr>exr_handlers = Map.empty, exr_seen = Map.empty, exr_log = [],
     exr_defaultTimeout = 5 * 60 * Second\<rparr>"

definition Register :: "'w Executor \<Rightarrow> string \<Rightarrow> 'w Handler \<Rightarrow> 'w Executor outcome" where
  "Register e opType handler =
     (case exr_handlers e opType of
        Some _ \<Rightarrow> Panics (''executor: handler for '' @ Quote opType @ '' already registered'')
      | None \<Rightarrow> Returns (e\<lparr>exr_handlers := (exr_handlers e)(opType \<mapsto> handler)\<rparr>))"

definition log_op :: "string \<Rightarrow> string \<Rightarrow> Operation \<Rightarrow> (string \<times> string) list \<Rightarrow> log_entry" where
  "log_op level msg op attrs =
     \<lparr>le_Level = level, le_Msg = msg,
      le_Attrs = [(''op_id'', RedactSecrets (opr_ID op)), (''op_type'', RedactSecrets (opr_Type op))] @ attrs\<rparr>"

definition add_log :: "log_entry \<Rightarrow> 'w Executor \<Rightarrow> 'w Executor" where
  "add_log l e = e\<lparr>exr_log := exr_log e @ [l]\<rparr>"

text \<open>
  Steps 1 and 2 at the time \<open>t\<close>: either the call is over, or the handler is to be called and
  the ID is recorded.
\<close>

definition already_processed :: OpResult where
  "already_processed = \<lparr>res_Status = ''success'', res_Message = ''already processed'', res_Data = None\<rparr>"

definition unknown_type :: "string \<Rightarrow> goerror" where
  "unknown_type t = ErrNew (''executor: unknown operation type '' @ Quote (RedactSecrets t))"

definition Execute_begin ::
  "'w Executor \<Rightarrow> Operation \<Rightarrow> int \<Rightarrow> ((goerror + OpResult) + 'w Handler) \<times> 'w Executor" where
  "Execute_begin e op t =
     (case exr_handlers e (opr_Type op) of
        None \<Rightarrow> (Inl (Inl (unknown_type (opr_Type op))), e)
      | Some handler \<Rightarrow>
          (case exr_seen e (opr_ID op) of
             Some _ \<Rightarrow>
               (Inl (Inr already_processed), add_log (log_op ''WARN'' ''duplicate operation skipped'' op []) e)
           | None \<Rightarrow> (Inr handler, e\<lparr>exr_seen := (exr_seen e)(opr_ID op \<mapsto> t)\<rparr>)))"

text \<open>
  After the handler returned. A missing result is dereferenced for the log line: the call
  panics.
\<close>

definition Execute_finish ::
  "'w Executor \<Rightarrow> Operation \<Rightarrow> goerror + OpResult option \<Rightarrow> (goerror + OpResult) outcome \<times> 'w Executor" where
  "Execute_finish e op r =
     (case r of
        Inl err \<Rightarrow>
          (let safeErr = SafeOperationError (opr_Type op) (opr_ID op) err
           in (Returns (Inl safeErr),
               add_log (log_op ''ERROR'' ''operation failed'' op [(''error'', Error safeErr)]) e))
      | Inr None \<Rightarrow> (Panics ''invalid memory address or nil pointer dereference'', e)
      | Inr (Some result) \<Rightarrow>
          (Returns (Inr (result\<lparr>res_Message := RedactSecrets (res_Message result)\<rparr>)),
           add_log (log_op ''INFO'' ''operation completed'' op [(''status'', res_Status result)]) e))"

definition Execute ::
  "('w \<Rightarrow> int) \<Rightarrow> 'w Executor \<Rightarrow> Operation \<Rightarrow> 'w \<Rightarrow> (goerror + OpResult) outcome \<times> 'w Executor \<times> 'w" where
  "Execute now e op w =
     (case Execute_begin e op (now w) of
        (Inl r, e') \<Rightarrow> (Returns r, e', w)
      | (Inr handler, e') \<Rightarrow>
          (case handler op w of
             (r, w') \<Rightarrow> (case Execute_finish e' op r of (res, e'') \<Rightarrow> (res, e'', w'))))"

definition Hour :: int where
  "Hour = 3600 * Second"

text \<open>One tick of \<open>evictLoop\<close>, which comes every ten minutes, at the time \<open>t\<close>.\<close>

definition evict :: "'w Executor \<Rightarrow> int \<Rightarrow> 'w Executor" where
  "evict e t =
     (let cutoff = t - Hour
      in e\<lparr>exr_seen := (\<lambda>i. case exr_seen e i of
             None \<Rightarrow> None | Some s \<Rightarrow> if s < cutoff then None else Some s)\<rparr>)"

section \<open>Interleaved execution\<close>

text \<open>
  The executor with several calls under way. \<open>invoked\<close> lists the handler calls that were
  begun: the operation's ID and the time it was recorded.
\<close>

record 'w exec_state =
  xs_exec :: "'w Executor"
  xs_clock :: int
  xs_running :: "Operation list"
  xs_invoked :: "(string \<times> int) list"

inductive exec_step :: "'w exec_state \<Rightarrow> 'w exec_state \<Rightarrow> bool" where
  tick: "0 \<le> d \<Longrightarrow> exec_step s (s\<lparr>xs_clock := xs_clock s + d\<rparr>)"
| over: "Execute_begin (xs_exec s) op (xs_clock s) = (Inl r, e) \<Longrightarrow> exec_step s (s\<lparr>xs_exec := e\<rparr>)"
| call: "Execute_begin (xs_exec s) op (xs_clock s) = (Inr h, e) \<Longrightarrow>
    exec_step s (s\<lparr>xs_exec := e, xs_running := op # xs_running s,
                   xs_invoked := xs_invoked s @ [(opr_ID op, xs_clock s)]\<rparr>)"
| finish: "op \<in> set (xs_running s) \<Longrightarrow> Execute_finish (xs_exec s) op r = (res, e) \<Longrightarrow>
    exec_step s (s\<lparr>xs_exec := e, xs_running := remove1 op (xs_running s)\<rparr>)"
| evict: "exec_step s (s\<lparr>xs_exec := evict (xs_exec s) (xs_clock s)\<rparr>)"

definition exec_start :: "'w Executor \<Rightarrow> int \<Rightarrow> 'w exec_state" where
  "exec_start e t = \<lparr>xs_exec = e\<lparr>exr_seen := Map.empty\<rparr>, xs_clock = t, xs_running = [], xs_invoked = []\<rparr>"

inductive exec_reachable :: "'w exec_state \<Rightarrow> bool" where
  start: "exec_reachable (exec_start e t)"
| step: "exec_reachable s \<Longrightarrow> exec_step s s' \<Longrightarrow> exec_reachable s'"

section \<open>At most one handler call per ID and hour\<close>

text \<open>An ID that was called is still recorded, or its time is more than an hour ago.\<close>

definition remembered :: "'w exec_state \<Rightarrow> string \<times> int \<Rightarrow> bool" where
  "remembered s p \<longleftrightarrow> snd p \<le> xs_clock s \<and>
     ((\<exists>t. exr_seen (xs_exec s) (fst p) = Some t \<and> snd p \<le> t) \<or>
      (exr_seen (xs_exec s) (fst p) = None \<and> snd p < xs_clock s - Hour))"

definition spaced :: "string \<times> int \<Rightarrow> string \<times> int \<Rightarrow> bool" where
  "spaced p q \<longleftrightarrow> (fst p = fst q \<longrightarrow> snd p + Hour < snd q)"

definition exec_inv :: "'w exec_state \<Rightarrow> bool" where
  "exec_inv s \<longleftrightarrow> list_all (remembered s) (xs_invoked s) \<and> sorted_wrt spaced (xs_invoked s) \<and>
     (\<forall>i t. exr_seen (xs_exec s) i = Some t \<longrightarrow> t \<le> xs_clock s)"

lemma Execute_begin_Inl:
  "Execute_begin e op t = (Inl r, e') \<Longrightarrow> exr_seen e' = exr_seen e"
  by (auto simp: Execute_begin_def add_log_def split: option.splits)

lemma Execute_begin_Inr:
  "Execute_begin e op t = (Inr h, e') \<Longrightarrow>
     exr_seen e (opr_ID op) = None \<and> exr_seen e' = (exr_seen e)(opr_ID op \<mapsto> t) \<and>
     exr_handlers e (opr_Type op) = Some h"
  by (auto simp: Execute_begin_def split: option.splits)

lemma Execute_finish_seen: "Execute_finish e op r = (res, e') \<Longrightarrow> exr_seen e' = exr_seen e"
  by (auto simp: Execute_finish_def add_log_def Let_def split: sum.splits option.splits)

lemma exec_inv_start: "exec_inv (exec_start e t)"
  by (simp add: exec_inv_def exec_start_def)

text \<open>The invariant depends on the recorded IDs, the clock and the calls only.\<close>

lemma exec_inv_same:
  assumes "exec_inv s" and "exr_seen (xs_exec s') = exr_seen (xs_exec s)"
    and "xs_clock s' = xs_clock s" and "xs_invoked s' = xs_invoked s"
  shows "exec_inv s'"
proof -
  have "remembered s' = remembered s" 
    by (rule ext) (simp only: remembered_def assms)
  then show ?thesis using assms by (simp add: exec_inv_def)
qed

lemma remembered_tick:
  "0 \<le> d \<Longrightarrow> remembered s p \<Longrightarrow> remembered (s\<lparr>xs_clock := xs_clock s + d\<rparr>) p"
  by (auto simp: remembered_def split: option.splits)

lemma evict_seen: "exr_seen (evict e t) i = Some u \<longleftrightarrow> exr_seen e i = Some u \<and> t - Hour \<le> u"
  by (auto simp: evict_def Let_def split: option.splits)

lemma evict_seen_None:
  "exr_seen (evict e t) i = None \<longleftrightarrow> exr_seen e i = None \<or> (\<exists>u. exr_seen e i = Some u \<and> u < t - Hour)"
  by (auto simp: evict_def Let_def split: option.splits)

lemma remembered_evict:
  assumes "remembered s p"
  shows "remembered (s\<lparr>xs_exec := evict (xs_exec s) (xs_clock s)\<rparr>) p"
proof (cases "exr_seen (evict (xs_exec s) (xs_clock s)) (fst p)")
  case None
  then have "exr_seen (xs_exec s) (fst p) = None \<or>
      (\<exists>u. exr_seen (xs_exec s) (fst p) = Some u \<and> u < xs_clock s - Hour)"
    by (simp add: evict_seen_None)
  then show ?thesis using assms None by (auto simp: remembered_def)
next
  case (Some u)
  then have "exr_seen (xs_exec s) (fst p) = Some u" by (simp add: evict_seen)
  then show ?thesis using assms Some by (simp add: remembered_def)
qed

lemma exec_inv_step:
  assumes "exec_step s s'" and "exec_inv s"
  shows "exec_inv s'"
  using assms
proof (induction rule: exec_step.induct)
  case (tick d s)
  then have "list_all (remembered (s\<lparr>xs_clock := xs_clock s + d\<rparr>)) (xs_invoked s)"
    by (auto simp: exec_inv_def list_all_iff simp del: split_paired_All intro: remembered_tick)
  moreover have "u \<le> xs_clock s + d" if "exr_seen (xs_exec s) i = Some u" for i u
    using tick that by (fastforce simp: exec_inv_def)
  ultimately show ?case using tick.prems by (simp add: exec_inv_def)
next
  case (over s op r e)
  show ?case
    by (rule exec_inv_same [OF over.prems]) (use Execute_begin_Inl [OF over.hyps] in simp_all)
next
  case (call s op h e)
  note b = Execute_begin_Inr [OF call.hyps]
  have "list_all (\<lambda>p. spaced p (opr_ID op, xs_clock s)) (xs_invoked s)"
    using call.prems b by (auto simp: exec_inv_def list_all_iff remembered_def spaced_def)
  then show ?case using call.prems b
    by (auto simp: exec_inv_def list_all_iff remembered_def sorted_wrt_append)
next
  case (finish op s r res e)
  show ?case
    by (rule exec_inv_same [OF finish.prems]) (use Execute_finish_seen [OF finish.hyps(2)] in simp_all)
next
  case (evict s)
  then have "list_all (remembered (s\<lparr>xs_exec := evict (xs_exec s) (xs_clock s)\<rparr>)) (xs_invoked s)"
    by (auto simp: exec_inv_def list_all_iff simp del: split_paired_All intro: remembered_evict)
  then show ?case using evict by (auto simp: exec_inv_def evict_seen)
qed

lemma exec_inv_reachable: "exec_reachable s \<Longrightarrow> exec_inv s"
  by (induction rule: exec_reachable.induct) (auto intro: exec_inv_start exec_inv_step)

section \<open>Execute\<close>

lemma Execute_begin_handlers: "Execute_begin e op t = (r, e') \<Longrightarrow> exr_handlers e' = exr_handlers e"
  by (auto simp: Execute_begin_def add_log_def split: option.splits)

lemma Execute_finish_handlers: "Execute_finish e op r = (res, e') \<Longrightarrow> exr_handlers e' = exr_handlers e"
  by (auto simp: Execute_finish_def add_log_def Let_def split: sum.splits option.splits)

text \<open>Executing never changes the registered handlers and never forgets an ID.\<close>

lemma Execute_frame:
  assumes "Execute now e op w = (r, e', w')"
  shows "exr_handlers e' = exr_handlers e" and "exr_seen e \<subseteq>\<^sub>m exr_seen e'"
    and "exr_handlers e (opr_Type op) \<noteq> None \<Longrightarrow> opr_ID op \<in> dom (exr_seen e')"
proof -
  obtain b e1 where b: "Execute_begin e op (now w) = (b, e1)" by (cases "Execute_begin e op (now w)")
  have h1: "exr_handlers e1 = exr_handlers e" using Execute_begin_handlers [OF b] .
  have s1: "exr_seen e \<subseteq>\<^sub>m exr_seen e1"
    "exr_handlers e (opr_Type op) \<noteq> None \<Longrightarrow> opr_ID op \<in> dom (exr_seen e1)"
    using b by (auto simp: Execute_begin_def map_le_def add_log_def split: option.splits)
  have "exr_handlers e' = exr_handlers e1 \<and> exr_seen e' = exr_seen e1"
  proof (cases b)
    case (Inl x)
    then show ?thesis using assms b by (simp add: Execute_def)
  next
    case (Inr h)
    obtain hr w1 where "h op w = (hr, w1)" by (cases "h op w")
    moreover obtain res e2 where "Execute_finish e1 op hr = (res, e2)" by (cases "Execute_finish e1 op hr")
    ultimately show ?thesis
      using assms b Inr Execute_finish_handlers Execute_finish_seen by (auto simp: Execute_def)
  qed
  then show "exr_handlers e' = exr_handlers e" "exr_seen e \<subseteq>\<^sub>m exr_seen e'"
    "exr_handlers e (opr_Type op) \<noteq> None \<Longrightarrow> opr_ID op \<in> dom (exr_seen e')"
    using h1 s1 by simp_all
qed

lemma Execute_duplicate:
  assumes "exr_handlers e (opr_Type op) \<noteq> None" and "opr_ID op \<in> dom (exr_seen e)"
  shows "Execute now e op w =
    (Returns (Inr already_processed), add_log (log_op ''WARN'' ''duplicate operation skipped'' op []) e, w)"
  using assms by (auto simp: Execute_def Execute_begin_def)

lemma Execute_again:
  assumes "exr_handlers e (opr_Type op) \<noteq> None" and "Execute now e op w = (r, e1, w1)"
  shows "Execute now2 e1 op w2 =
    (Returns (Inr already_processed), add_log (log_op ''WARN'' ''duplicate operation skipped'' op []) e1, w2)"
  by (rule Execute_duplicate) (use Execute_frame(1,3) [OF assms(2)] assms(1) in simp_all)

text \<open>What a call that reached the handler returns.\<close>

lemma Execute_called:
  assumes "exr_handlers e (opr_Type op) = Some h" and "exr_seen e (opr_ID op) = None"
  shows "fst (Execute now e op w) =
      (case fst (h op w) of
         Inl err \<Rightarrow> Returns (Inl (SafeOperationError (opr_Type op) (opr_ID op) err))
       | Inr None \<Rightarrow> Panics ''invalid memory address or nil pointer dereference''
       | Inr (Some res) \<Rightarrow> Returns (Inr (res\<lparr>res_Message := RedactSecrets (res_Message res)\<rparr>)))"
    and "snd (snd (Execute now e op w)) = snd (h op w)"
  using assms
  by (auto simp: Execute_def Execute_begin_def Execute_finish_def Let_def
      split: prod.splits sum.splits option.splits)

text \<open>
  The contract of a handler: it returns a result with one of the three statuses that the
  type \<open>Result\<close> documents, or an error, never neither. An executor all of whose handlers keep
  it does not panic.
\<close>

definition result_statuses :: "string list" where
  "result_statuses = [''success'', ''degraded'', ''failed'']"

definition proper :: "OpResult option \<Rightarrow> bool" where
  "proper r = (case r of None \<Rightarrow> False | Some x \<Rightarrow> res_Status x \<in> set result_statuses)"

definition returns_result :: "'w Handler \<Rightarrow> bool" where
  "returns_result h \<longleftrightarrow> (\<forall>op w r. fst (h op w) = Inr r \<longrightarrow> proper r)"

lemma proper_simps [simp]:
  "\<not> proper None"
  "proper (Some x) \<longleftrightarrow> res_Status x \<in> set result_statuses"
  by (simp_all add: proper_def)

lemma status_simps [simp]:
  "''success'' \<in> set result_statuses" "''degraded'' \<in> set result_statuses" "''failed'' \<in> set result_statuses"
  "res_Status already_processed \<in> set result_statuses"
  by (simp_all add: already_processed_def result_statuses_def)

locale handler_table =
  fixes e :: "'w Executor"
  assumes handlers_return: "exr_handlers e t = Some h \<Longrightarrow> returns_result h"
begin

lemma Execute_outcome:
  "\<exists>r. fst (Execute now e op w) = Returns r \<and> (\<forall>x. r = Inr x \<longrightarrow> res_Status x \<in> set result_statuses)"
proof (cases "exr_handlers e (opr_Type op)")
  case None
  then show ?thesis by (simp add: Execute_def Execute_begin_def)
next
  case (Some h)
  show ?thesis
  proof (cases "exr_seen e (opr_ID op)")
    case None
    have "fst (h op w) = Inr r \<Longrightarrow> proper r" for r
      using handlers_return [OF Some] by (simp add: returns_result_def)
    then show ?thesis using Execute_called(1) [OF Some None, of now w]
      by (auto simp: proper_def split: sum.splits option.splits)
  next
    case seen: (Some t)
    then show ?thesis using Some by (simp add: Execute_duplicate domI)
  qed
qed

lemma Execute_returns: "\<exists>r. fst (Execute now e op w) = Returns r"
  using Execute_outcome by blast

lemma Execute_keeps_table:
  assumes "Execute now e op w = (r, e', w')"
  shows "handler_table e'"
  using handlers_return Execute_frame(1) [OF assms] by (simp add: handler_table_def)

end

section \<open>Properties\<close>

text \<open>
  Property C1. Idempotency window: however calls of \<open>Execute\<close>, handler completions, ticks of
  the clock and evictions interleave, two handler calls for the same operation ID are begun
  more than one hour apart.
\<close>

theorem at_most_once_per_hour:
  assumes "exec_reachable s" and "i < j" and "j < length (xs_invoked s)"
    and "fst (xs_invoked s ! i) = fst (xs_invoked s ! j)"
  shows "snd (xs_invoked s ! i) + Hour < snd (xs_invoked s ! j)"
proof -
  have "sorted_wrt spaced (xs_invoked s)"
    using exec_inv_reachable [OF assms(1)] by (simp add: exec_inv_def)
  then have "spaced (xs_invoked s ! i) (xs_invoked s ! j)"
    using assms(2,3) by (simp add: sorted_wrt_iff_nth_less)
  then show ?thesis using assms(4) by (simp add: spaced_def)
qed

definition sample_op :: Operation where
  "sample_op = \<lparr>opr_ID = ''op-1'', opr_Type = ''T'', opr_Data = None\<rparr>"

definition failing_handler :: "unit Handler" where
  "failing_handler op = io_fail (ErrNew ''disk full'')"

definition sample_executor :: "unit Executor" where
  "sample_executor = NewExecutor\<lparr>exr_handlers := [''T'' \<mapsto> failing_handler]\<rparr>"

theorem at_most_once_per_hour_witness:
  "\<exists>s :: unit exec_state. exec_reachable s \<and> xs_invoked s = [(''op-1'', 0), (''op-1'', 2 * Hour)] \<and>
     snd (xs_invoked s ! 0) + Hour < snd (xs_invoked s ! 1)"
proof -
  let ?e0 = "sample_executor"
  let ?e1 = "?e0\<lparr>exr_seen := [''op-1'' \<mapsto> 0]\<rparr>"
  let ?e3 = "?e0\<lparr>exr_seen := [''op-1'' \<mapsto> 2 * Hour]\<rparr>"
  let ?s1 = "\<lparr>xs_exec = ?e1, xs_clock = 0, xs_running = [sample_op], xs_invoked = [(''op-1'', 0)]\<rparr>"
  let ?s2 = "?s1\<lparr>xs_clock := 0 + 2 * Hour\<rparr>"
  let ?s3 = "?s2\<lparr>xs_exec := evict (xs_exec ?s2) (xs_clock ?s2)\<rparr>"
  let ?s4 = "?s3\<lparr>xs_exec := ?e3, xs_running := sample_op # xs_running ?s3,
       xs_invoked := xs_invoked ?s3 @ [(opr_ID sample_op, xs_clock ?s3)]\<rparr>"
  note defs = sample_executor_def NewExecutor_def sample_op_def Execute_begin_def exec_start_def
  have "exec_step (exec_start ?e0 0) ?s1"
    using exec_step.call [of "exec_start ?e0 0" sample_op failing_handler ?e1] by (simp add: defs)
  then have r1: "exec_reachable ?s1" by (rule exec_reachable.step [OF exec_reachable.start])
  have "exec_step ?s1 ?s2"
    using exec_step.tick [of "2 * Hour" ?s1] by (simp add: Hour_def Second_def)
  then have r2: "exec_reachable ?s2" by (rule exec_reachable.step [OF r1])
  have "exec_step ?s2 ?s3" by (rule exec_step.evict)
  then have r3: "exec_reachable ?s3" by (rule exec_reachable.step [OF r2])
  have "Execute_begin (xs_exec ?s3) sample_op (xs_clock ?s3) = (Inr failing_handler, ?e3)"
    by (simp add: defs evict_def Let_def Hour_def Second_def fun_eq_iff)
  then have "exec_step ?s3 ?s4" by (rule exec_step.call)
  then have r: "exec_reachable ?s4" by (rule exec_reachable.step [OF r3])
  have "snd (xs_invoked ?s4 ! 0) + Hour < snd (xs_invoked ?s4 ! 1)"
    by (rule at_most_once_per_hour [OF r]) (simp_all add: sample_op_def)
  then show ?thesis using r by (intro exI [of _ ?s4]) (simp add: sample_op_def)
qed

text \<open>
  Property C35. Once an operation of a known type was executed, executing it again before an
  eviction calls no handler, changes nothing in the world and reports success.
\<close>

theorem Execute_twice:
  assumes "exr_handlers e (opr_Type op) \<noteq> None" and "Execute now e op w = (r, e1, w1)"
  shows "\<exists>e2. Execute now e1 op w2 = (Returns (Inr already_processed), e2, w2)"
  using Execute_again [OF assms] by blast

theorem Execute_twice_witness:
  "\<exists>e2. Execute (\<lambda>_. 0) (fst (snd (Execute (\<lambda>_. 0) sample_executor sample_op ()))) sample_op () =
     (Returns (Inr already_processed), e2, ())"
  by (rule Execute_twice [of sample_executor sample_op "\<lambda>_. 0" "()"])
     (simp_all add: sample_executor_def sample_op_def prod_eq_iff)

lemma Execute_records:
  assumes "exr_handlers e (opr_Type op) = Some h" and "exr_seen e (opr_ID op) = None"
  shows "exr_seen (fst (snd (Execute now e op w))) (opr_ID op) = Some (now w)"
    and "exr_handlers (fst (snd (Execute now e op w))) (opr_Type op) = Some h"
  using assms
  by (auto simp: Execute_def Execute_begin_def Execute_finish_def Let_def add_log_def
      split: prod.splits sum.splits option.splits)

lemma evicts_keep:
  assumes "exr_seen e i = Some t0" and "\<forall>t \<in> set ts. t \<le> t0 + Hour"
  shows "exr_seen (fold (\<lambda>t e. evict e t) ts e) i = Some t0 \<and>
     exr_handlers (fold (\<lambda>t e. evict e t) ts e) = exr_handlers e"
  using assms by (induction ts arbitrary: e) (auto simp: evict_def Let_def)

text \<open>
  Property C36. The ID of an operation is recorded before its handler runs and stays when the
  handler fails. An operation whose handler failed is answered with the handler's error the first
  time; sent again within the hour, whatever evictions came in between, it is reported
  as a success, and neither is a handler called nor the world changed.
\<close>

theorem failed_operation_not_retried:
  assumes "exr_handlers e (opr_Type op) = Some h" and "exr_seen e (opr_ID op) = None"
    and "h op w = (Inl err, w1)" and "\<forall>t \<in> set ts. t \<le> now w + Hour"
  shows "\<exists>e1 e2.
     Execute now e op w = (Returns (Inl (SafeOperationError (opr_Type op) (opr_ID op) err)), e1, w1) \<and>
     Execute now2 (fold (\<lambda>t e. evict e t) ts e1) op w2 =
       (Returns (Inr \<lparr>res_Status = ''success'', res_Message = ''already processed'', res_Data = None\<rparr>), e2, w2)"
proof -
  let ?e1 = "fst (snd (Execute now e op w))"
  have "Execute now e op w = (Returns (Inl (SafeOperationError (opr_Type op) (opr_ID op) err)), ?e1, w1)"
    using Execute_called [OF assms(1,2), of now w] assms(3) by (simp add: prod_eq_iff)
  moreover note kept = evicts_keep [OF Execute_records(1) [OF assms(1,2), of now w] assms(4)]
  have "exr_handlers ?e1 (opr_Type op) = Some h" by (rule Execute_records(2) [OF assms(1,2)])
  then have "\<exists>e2. Execute now2 (fold (\<lambda>t e. evict e t) ts ?e1) op w2 = (Returns (Inr already_processed), e2, w2)"
    using kept Execute_duplicate [of "fold (\<lambda>t e. evict e t) ts ?e1" op] by (auto simp: domI)
  ultimately show ?thesis by (auto simp: already_processed_def)
qed

theorem failed_operation_not_retried_witness:
  "\<exists>e1 e2.
     Execute (\<lambda>_. 0) sample_executor sample_op () =
       (Returns (Inl (SafeOperationError ''T'' ''op-1'' (ErrNew ''disk full''))), e1, ()) \<and>
     Execute (\<lambda>_. Hour) (evict e1 Hour) sample_op () =
       (Returns (Inr \<lparr>res_Status = ''success'', res_Message = ''already processed'', res_Data = None\<rparr>), e2, ())"
proof -
  have h: "exr_handlers sample_executor (opr_Type sample_op) = Some failing_handler"
    "exr_seen sample_executor (opr_ID sample_op) = None"
    "failing_handler sample_op () = (Inl (ErrNew ''disk full''), ())"
    by (simp_all add: sample_executor_def NewExecutor_def sample_op_def failing_handler_def)
  show ?thesis
    using failed_operation_not_retried [OF h, of "[Hour]" "\<lambda>_. 0" "\<lambda>_. Hour" "()"]
    by (simp add: sample_op_def)
qed

lemma already_processed_redacted: "redacted ''already processed''"
proof -
  have "\<not> MatchString uuidPattern ''already processed''" "\<not> MatchString wireGuardKeyPattern ''already processed''"
    by code_simp+
  then show ?thesis using shows_uuid_match shows_key_match by (auto simp: redacted_def)
qed

definition outcome_text :: "(goerror + OpResult) outcome \<Rightarrow> string" where
  "outcome_text r =
     (case r of
        Returns (Inl err) \<Rightarrow> Error err
      | Returns (Inr res) \<Rightarrow> res_Message res
      | Panics _ \<Rightarrow> [])"

text \<open>
  Property C8. What \<open>Execute\<close> returns for an operation of a known type is redacted: the message of
  a result, and the text of the error of a handler, show neither a UUID that stands between
  bytes that are no letters, digits or underscores, nor an assignment to \<open>PrivateKey\<close> or
  \<open>PresharedKey\<close>, spelt so and not glued to a word on the left. Both are specified over the text,
  independently of the expressions the code uses.
\<close>

theorem Execute_redacted:
  assumes "exr_handlers e (opr_Type op) \<noteq> None"
  shows "redacted (outcome_text (fst (Execute now e op w)))"
proof (cases "exr_seen e (opr_ID op)")
  case None
  obtain h where h: "exr_handlers e (opr_Type op) = Some h" using assms by auto
  note c = Execute_called(1) [OF h None, of now w]
  have "\<exists>t. outcome_text (fst (Execute now e op w)) = RedactSecrets t"
  proof (cases "fst (h op w)")
    case (Inl err)
    then show ?thesis using c by (auto simp: outcome_text_def)
  next
    case (Inr res)
    then show ?thesis using c RedactSecrets_Nil [symmetric]
      by (cases res) (auto simp: outcome_text_def intro: exI [of _ "[]"])
  qed
  then show ?thesis using RedactSecrets_redacted by metis
next
  case (Some t)
  then have "outcome_text (fst (Execute now e op w)) = ''already processed''"
    using assms by (simp add: Execute_duplicate domI outcome_text_def already_processed_def)
  then show ?thesis using already_processed_redacted by simp
qed

theorem Execute_redacted_witness:
  "redacted (outcome_text (fst (Execute (\<lambda>_. 0) sample_executor sample_op ())))"
  by (rule Execute_redacted) (simp add: sample_executor_def sample_op_def)

end
