(* ===== verification/Components.thy ===== *)
theory Components
  imports GoErrors
begin

text \<open>
  Package \<open>components\<close> (\<open>internal/components/spec.go\<close>): the description of a managed
  Docker image, its validation and the comparison of digests.
\<close>

record Component =
  co_Name :: string
  co_Version :: string
  co_Image :: string
  co_ExpectedDigest :: string

definition digest_prefix :: string where
  "digest_prefix = ''sha256:''"

definition is_lower_hex :: "char \<Rightarrow> bool" where
  "is_lower_hex r \<longleftrightarrow>
     \<not> ((code r < 48 \<or> code r > 57) \<and> (code r < 97 \<or> code r > 102))"

definition ValidateDigest :: "string \<Rightarrow> goerror option" where
  "ValidateDigest s =
     (if \<not> HasPrefix s digest_prefix then Some (ErrNew ''expected digest must have sha256: prefix'')
      else
        let hex = TrimPrefix s digest_prefix
        in if length hex \<noteq> 64 then Some (ErrNew ''expected digest must have 64 hex characters'')
           else if \<not> list_all is_lower_hex hex then Some (ErrNew ''expected digest must be lowercase hex'')
           else None)"

definition Component_Validate :: "Component \<Rightarrow> goerror option" where
  "Component_Validate c =
     (if TrimSpace (co_Name c) = [] then Some (ErrNew ''component name is required'')
      else if TrimSpace (co_Version c) = [] then Some (ErrNew ''component version is required'')
      else if TrimSpace (co_Image c) = [] then Some (ErrNew ''component image is required'')
      else if \<not> Contains (co_Image c) '':'' then
        Some (ErrNew ''component image must include a tag or digest'')
      else ValidateDigest (co_ExpectedDigest c))"

definition FullImage :: "Component \<Rightarrow> string" where
  "FullImage c =
     (if Contains (co_Image c) ''@sha256:'' then co_Image c
      else if Contains (co_Image c) '':'' then co_Image c
      else co_Image c @ '':'' @ co_Version c)"

fun MatchDigest :: "string \<Rightarrow> string list \<Rightarrow> bool" where
  "MatchDigest expected [] = False"
| "MatchDigest expected (rd # rds) =
     (if HasSuffix rd expected then True
      else if rd = expected then True
      else MatchDigest expected rds)"

section \<open>Properties\<close>

lemma ValidateDigest_iff:
  "ValidateDigest s = None \<longleftrightarrow>
     (\<exists>hex. s = digest_prefix @ hex \<and> length hex = 64 \<and>
        set (map of_char hex) \<subseteq> ({48..57} \<union> {97..102} :: nat set))"
proof (cases "HasPrefix s digest_prefix")
  case True
  then obtain hex where s: "s = digest_prefix @ hex"
    by (auto simp: HasPrefix_iff_prefix prefix_def)
  have "is_lower_hex c \<longleftrightarrow> code c \<in> {48..57} \<union> {97..102}" for c
    by (auto simp: is_lower_hex_def)
  then have "list_all is_lower_hex hex \<longleftrightarrow>
      set (map of_char hex) \<subseteq> ({48..57} \<union> {97..102} :: nat set)"
    by (auto simp: list_all_iff)
  then show ?thesis using s by (simp add: ValidateDigest_def Let_def)
next
  case False
  then show ?thesis by (auto simp: ValidateDigest_def)
qed

text \<open>The second test of \<open>MatchDigest\<close> is subsumed by the first.\<close>

lemma MatchDigest_iff: "MatchDigest expected rds \<longleftrightarrow> (\<exists>rd \<in> set rds. suffix expected rd)"
  by (induction rds) (auto simp: HasSuffix_iff_suffix)

lemma FullImage_valid: "Component_Validate c = None \<Longrightarrow> FullImage c = co_Image c"
  by (auto simp: Component_Validate_def FullImage_def split: if_splits)

end
