(* ===== verification/GoHttp.thy ===== *)
theory GoHttp
  imports GoJson GoIO
begin

text \<open>
  The HTTP exchanges of the agent. The server at the other end (the Docker daemon, the
  control plane) is a parameter: a function from a request and its own state to a
  response or a transport error, and its next state. The state of an exchange records
  every request that was sent, so that theorems can speak of the requests a component
  makes and of their order.

  A request body is the JSON value that \<open>json.Marshal\<close> writes. A response body is a text;
  \<open>BodyErr\<close> is the error that ends reading it, if there is one.
\<close>

record http_request =
  hr_method :: string
  hr_url :: string
  hr_body :: raw_json

record http_response =
  StatusCode :: int
  Body :: string
  BodyErr :: "goerror option"

type_synonym 'd server = "http_request \<Rightarrow> 'd \<Rightarrow> (goerror + http_response) \<times> 'd"

record 'd net =
  sent :: "http_request list"
  peer :: 'd

text \<open>
  A request carries a context. Whether that context is over by now, and how it ended, is again a
  function of the state of what is outside the process.
\<close>

datatype context_end = CtxCanceled | CtxDeadline

fun ctx_Err :: "context_end \<Rightarrow> goerror" where
  "ctx_Err CtxCanceled = ErrCanceled"
| "ctx_Err CtxDeadline = ErrDeadlineExceeded"

type_synonym 'd context_of = "'d \<Rightarrow> context_end option"

text \<open>
  \<open>(*http.Client).Do\<close>. When the context of the request is over before it starts, nothing is sent
  and the error is a \<open>*url.Error\<close> that wraps the error of the context.
\<close>

definition over_error :: "http_request \<Rightarrow> context_end \<Rightarrow> goerror" where
  "over_error req e =
     ErrURL (take 1 (hr_method req) @ ToLower (drop 1 (hr_method req)) @ '' '' @ Quote (hr_url req))
       (ctx_Err e) (e = CtxDeadline)"

definition http_outcome :: "'d context_of \<Rightarrow> 'd server \<Rightarrow> http_request \<Rightarrow> 'd \<Rightarrow> (goerror + http_response) \<times> 'd" where
  "http_outcome over srv req d =
     (case over d of Some e \<Rightarrow> (Inl (over_error req e), d) | None \<Rightarrow> srv req d)"

definition http_Do :: "'d context_of \<Rightarrow> 'd server \<Rightarrow> http_request \<Rightarrow> ('d net, http_response) io" where
  "http_Do over srv req n =
     (let (r, d) = http_outcome over srv req (peer n)
      in (r, \<lparr>sent = sent n @ (if over (peer n) = None then [req] else []), peer = d\<rparr>))"

text \<open>
  The checks of \<open>http.NewRequestWithContext\<close> on the URL: no control byte, and every
  percent sign of the path starts an escape.
\<close>

definition is_ctl :: "char \<Rightarrow> bool" where
  "is_ctl c \<longleftrightarrow> code c < 32 \<or> code c = 127"

fun bad_escape :: "string \<Rightarrow> string option" where
  "bad_escape [] = None"
| "bad_escape (c # s) =
     (if c = CHR ''%'' then
        (case s of
           a # b # t \<Rightarrow>
             if hex_val a \<noteq> None \<and> hex_val b \<noteq> None then bad_escape s else Some [c, a, b]
         | _ \<Rightarrow> Some (c # s))
      else bad_escape s)"

definition url_path :: "string \<Rightarrow> string" where
  "url_path u = takeWhile (\<lambda>c. c \<noteq> CHR ''?'' \<and> c \<noteq> CHR ''#'') u"

definition url_error :: "string \<Rightarrow> goerror option" where
  "url_error u =
     (if list_ex is_ctl u then
        Some (ErrURL (''parse '' @ Quote u) (ErrNew ''net/url: invalid control character in URL'') False)
      else
        (case bad_escape (url_path u) of
           Some w \<Rightarrow> Some (ErrURL (''parse '' @ Quote u) (ErrNew (''invalid URL escape '' @ Quote w)) False)
         | None \<Rightarrow> None))"

text \<open>\<open>json.NewDecoder(resp.Body).Decode(&x)\<close>.\<close>

definition Decode :: "'r store \<Rightarrow> http_response \<Rightarrow> 'r \<Rightarrow> 'r \<times> goerror option" where
  "Decode st resp x =
     (case json_decode_first (Body resp) of
        None \<Rightarrow> (x, Some (case BodyErr resp of Some e \<Rightarrow> e | None \<Rightarrow> ErrJSON JSyntaxError))
      | Some v \<Rightarrow> st v x)"

lemma emits_Do [client_laws]: "P req \<Longrightarrow> emits sent P (http_Do over srv req)"
  by (simp add: emits_def http_Do_def split: prod.splits)

end
