(* ===== verification/Docker.thy ===== *)
theory Docker
  imports GoHttp
begin

text \<open>
  Package \<open>docker\<close> (\<open>internal/docker/client.go\<close>): the client of the Docker Engine API.
  The daemon behind the socket is the parameter of type \<open>'d server\<close>; a client value
  carries it together with the API version. Contexts appear only through the errors
  the daemon parameter may return.
\<close>

section \<open>Types\<close>

record 'd docker_client =
  dc_over :: "'d context_of"
  dc_serve :: "'d server"
  dc_apiVersion :: string

definition docker_NewClient :: "'d context_of \<Rightarrow> 'd server \<Rightarrow> 'd docker_client" where
  "docker_NewClient over srv = \<lparr>dc_over = over, dc_serve = srv, dc_apiVersion = ''v1.45''\<rparr>"

record PortMapping =
  pm_HostPort :: string
  pm_ContainerPort :: string
  pm_Protocol :: string

record VolumeMount =
  vm_Source :: string
  vm_Target :: string
  vm_Mode :: string

record ContainerSpec =
  cs_Name :: string
  cs_Image :: string
  cs_Ports :: "PortMapping list"
  cs_Volumes :: "VolumeMount list"
  cs_Env :: "string list"
  cs_Restart :: string
  cs_Cmd :: "string list"

record ContainerPort =
  cp_PrivatePort :: int
  cp_PublicPort :: int
  cp_Type :: string

record ContainerInfo =
  ci_ID :: string
  ci_Names :: "string list"
  ci_Image :: string
  ci_State :: string
  ci_Status :: string
  ci_Ports :: "ContainerPort list"

record HealthState =
  hs_Status :: string

record RunState =
  rs_Status :: string
  rs_Running :: bool
  rs_ExitCode :: int
  rs_StartedAt :: string
  rs_FinishedAt :: string
  rs_Health :: "HealthState option"

record ContainerConfig =
  cc_Image :: string
  cc_Labels :: "(string \<rightharpoonup> string) option"

record ContainerState =
  st_ID :: string
  st_Created :: string
  st_State :: RunState
  st_Name :: string
  st_Config :: ContainerConfig

record ImageInfo =
  ii_ID :: string
  ii_RepoTags :: "string list"
  ii_RepoDigests :: "string list"
  ii_Size :: int
  ii_Os :: string
  ii_Architecture :: string

record ExecResult =
  ex_ExitCode :: int
  ex_Stdout :: string
  ex_Stderr :: string

definition zero_RunState :: RunState where
  "zero_RunState = \<lparr>rs_Status = [], rs_Running = False, rs_ExitCode = 0, rs_StartedAt = [],
     rs_FinishedAt = [], rs_Health = None\<rparr>"

definition zero_ContainerState :: ContainerState where
  "zero_ContainerState = \<lparr>st_ID = [], st_Created = [], st_State = zero_RunState, st_Name = [],
     st_Config = \<lparr>cc_Image = [], cc_Labels = None\<rparr>\<rparr>"

definition zero_ImageInfo :: ImageInfo where
  "zero_ImageInfo = \<lparr>ii_ID = [], ii_RepoTags = [], ii_RepoDigests = [], ii_Size = 0, ii_Os = [],
     ii_Architecture = []\<rparr>"

definition zero_ContainerInfo :: ContainerInfo where
  "zero_ContainerInfo = \<lparr>ci_ID = [], ci_Names = [], ci_Image = [], ci_State = [], ci_Status = [],
     ci_Ports = []\<rparr>"

section \<open>The JSON of the daemon\<close>

definition store_HealthState :: "HealthState store" where
  "store_HealthState = store_struct ''struct'' [(''Status'', in_field hs_Status hs_Status_update store_string)]"

definition store_RunState :: "RunState store" where
  "store_RunState = store_struct ''struct''
     [(''Status'', in_field rs_Status rs_Status_update store_string),
      (''Running'', in_field rs_Running rs_Running_update store_bool),
      (''ExitCode'', in_field rs_ExitCode rs_ExitCode_update store_int),
      (''StartedAt'', in_field rs_StartedAt rs_StartedAt_update store_string),
      (''FinishedAt'', in_field rs_FinishedAt rs_FinishedAt_update store_string),
      (''Health'', in_field rs_Health rs_Health_update
         (store_ptr \<lparr>hs_Status = []\<rparr> store_HealthState))]"

definition store_ContainerConfig :: "ContainerConfig store" where
  "store_ContainerConfig = store_struct ''docker.ContainerConfig''
     [(''Image'', in_field cc_Image cc_Image_update store_string),
      (''Labels'', in_field cc_Labels cc_Labels_update (store_map [] store_string))]"

definition store_ContainerState :: "ContainerState store" where
  "store_ContainerState = store_struct ''docker.ContainerState''
     [(''Id'', in_field st_ID st_ID_update store_string),
      (''Created'', in_field st_Created st_Created_update store_string),
      (''State'', in_field st_State st_State_update store_RunState),
      (''Name'', in_field st_Name st_Name_update store_string),
      (''Config'', in_field st_Config st_Config_update store_ContainerConfig)]"

definition store_ImageInfo :: "ImageInfo store" where
  "store_ImageInfo = store_struct ''docker.ImageInfo''
     [(''Id'', in_field ii_ID ii_ID_update store_string),
      (''RepoTags'', in_field ii_RepoTags ii_RepoTags_update (store_slice [] store_string)),
      (''RepoDigests'', in_field ii_RepoDigests ii_RepoDigests_update (store_slice [] store_string)),
      (''Size'', in_field ii_Size ii_Size_update store_int),
      (''Os'', in_field ii_Os ii_Os_update store_string),
      (''Architecture'', in_field ii_Architecture ii_Architecture_update store_string)]"

definition store_ContainerPort :: "ContainerPort store" where
  "store_ContainerPort = store_struct ''docker.ContainerPort''
     [(''PrivatePort'', in_field cp_PrivatePort cp_PrivatePort_update store_int),
      (''PublicPort'', in_field cp_PublicPort cp_PublicPort_update store_int),
      (''Type'', in_field cp_Type cp_Type_update store_string)]"

definition store_ContainerInfo :: "ContainerInfo store" where
  "store_ContainerInfo = store_struct ''docker.ContainerInfo''
     [(''Id'', in_field ci_ID ci_ID_update store_string),
      (''Names'', in_field ci_Names ci_Names_update (store_slice [] store_string)),
      (''Image'', in_field ci_Image ci_Image_update store_string),
      (''State'', in_field ci_State ci_State_update store_string),
      (''Status'', in_field ci_Status ci_Status_update store_string),
      (''Ports'', in_field ci_Ports ci_Ports_update
         (store_slice \<lparr>cp_PrivatePort = 0, cp_PublicPort = 0, cp_Type = []\<rparr> store_ContainerPort))]"

text \<open>The anonymous structs with one field of \<open>Create\<close>, \<open>Exec\<close> and \<open>Pull\<close>.\<close>

definition store_one_string :: "string \<Rightarrow> string store" where
  "store_one_string name = store_struct ''struct'' [(name, store_string)]"

definition store_one_int :: "string \<Rightarrow> int store" where
  "store_one_int name = store_struct ''struct'' [(name, store_int)]"

section \<open>Requests\<close>

definition client_do :: "'d docker_client \<Rightarrow> string \<Rightarrow> string \<Rightarrow> raw_json \<Rightarrow> ('d net, http_response) io" where
  "client_do c meth path body n =
     (let url = ''http://unix'' @ path
      in case url_error url of
           Some e \<Rightarrow> (Inl e, n)
         | None \<Rightarrow> http_Do (dc_over c) (dc_serve c) \<lparr>hr_method = meth, hr_url = url, hr_body = body\<rparr> n)"

text \<open>\<open>doJSON\<close>: the bodies the client builds can always be marshalled.\<close>

definition client_doJSON :: "'d docker_client \<Rightarrow> string \<Rightarrow> string \<Rightarrow> json \<Rightarrow> ('d net, http_response) io" where
  "client_doJSON c meth path body = client_do c meth path (Some body)"

definition http_status_error :: "string \<Rightarrow> http_response \<Rightarrow> goerror" where
  "http_status_error msg resp =
     ErrNew (msg @ ''http '' @ itoa (StatusCode resp) @ '': '' @ TrimSpace (Body resp))"

text \<open>The common shape: wrap a transport error, turn a status of 400 or more into an error.\<close>

definition checked :: "string \<Rightarrow> ('d net, http_response) io \<Rightarrow> ('d net, http_response) io" where
  "checked msg m =
     io_bind (io_wrap msg m)
       (\<lambda>resp. if StatusCode resp \<ge> 400 then io_fail (http_status_error msg resp) else io_return resp)"

text \<open>\<open>bufio.Scanner\<close> over lines: a line of 65536 bytes or more ends the scan.\<close>

fun scan_lines_fuel :: "nat \<Rightarrow> string \<Rightarrow> string list" where
  "scan_lines_fuel 0 s = []"
| "scan_lines_fuel (Suc n) s =
     (if s = [] then []
      else
        let line = takeWhile (\<lambda>c. c \<noteq> CHR 0x0A) s
        in if length line \<ge> 65536 then []
           else TrimSuffix line [CHR 0x0D] # scan_lines_fuel n (drop (length line + 1) s))"

definition scan_lines :: "string \<Rightarrow> string list" where
  "scan_lines s = scan_lines_fuel (length s) s"

fun pull_stream :: "string \<Rightarrow> string list \<Rightarrow> goerror option" where
  "pull_stream img [] = None"
| "pull_stream img (line # rest) =
     (case Unmarshal (store_one_string ''error'') (json_parse line) [] of
        (msg, None) \<Rightarrow>
          if msg \<noteq> [] then Some (ErrNew (''docker pull '' @ img @ '': '' @ msg))
          else pull_stream img rest
      | (_, Some _) \<Rightarrow> pull_stream img rest)"

definition Pull :: "'d docker_client \<Rightarrow> string \<Rightarrow> ('d net, unit) io" where
  "Pull c img =
     (let q = ''/'' @ dc_apiVersion c @ ''/images/create?fromImage='' @ img;
          msg = ''docker pull '' @ img @ '': ''
      in io_bind (checked msg (client_do c ''POST'' q None))
           (\<lambda>resp. case pull_stream img (scan_lines (Body resp)) of
              Some e \<Rightarrow> io_fail e | None \<Rightarrow> io_return ()))"

definition decode_or_fail :: "string \<Rightarrow> 'r store \<Rightarrow> 'r \<Rightarrow> http_response \<Rightarrow> ('d net, 'r) io" where
  "decode_or_fail msg st zero resp =
     (case Decode st resp zero of
        (x, None) \<Rightarrow> io_return x
      | (_, Some e) \<Rightarrow> io_fail (ErrWrap (msg @ ''decode: '') e []))"

definition InspectImage :: "'d docker_client \<Rightarrow> string \<Rightarrow> ('d net, ImageInfo) io" where
  "InspectImage c img =
     (let q = ''/'' @ dc_apiVersion c @ ''/images/'' @ img @ ''/json'';
          msg = ''docker inspect image '' @ img @ '': ''
      in io_bind (checked msg (client_do c ''GET'' q None))
           (decode_or_fail msg store_ImageInfo zero_ImageInfo))"

definition Exec :: "'d docker_client \<Rightarrow> string \<Rightarrow> string list \<Rightarrow> ('d net, ExecResult) io" where
  "Exec c containerID cmd =
     (let createBody = JObj (obj_of [(''AttachStdout'', JBool True), (''AttachStderr'', JBool True),
            (''Cmd'', JArr (map JStr cmd))]);
          q = ''/'' @ dc_apiVersion c @ ''/containers/'' @ containerID @ ''/exec'';
          msg = ''docker exec create '' @ containerID @ '': ''
      in io_bind (checked msg (client_doJSON c ''POST'' q createBody)) (\<lambda>resp.
         io_bind (decode_or_fail msg (store_one_string ''Id'') [] resp) (\<lambda>execID.
         io_bind (io_wrap (''docker exec start '' @ containerID @ '': '')
              (client_doJSON c ''POST'' (''/'' @ dc_apiVersion c @ ''/exec/'' @ execID @ ''/start'')
                 (JObj (obj_of [(''Detach'', JBool False), (''Tty'', JBool False)])))) (\<lambda>startResp.
         case BodyErr startResp of
           Some e \<Rightarrow> io_fail (ErrWrap (''docker exec read '' @ containerID @ '': '') e [])
         | None \<Rightarrow>
             io_bind (io_wrap (''docker exec inspect '' @ containerID @ '': '')
                 (client_do c ''GET'' (''/'' @ dc_apiVersion c @ ''/exec/'' @ execID @ ''/json'') None))
               (\<lambda>inspectResp. io_return
                  \<lparr>ex_ExitCode = fst (Decode (store_one_int ''ExitCode'') inspectResp 0),
                   ex_Stdout = Body startResp, ex_Stderr = []\<rparr>)))))"

section \<open>Creating a container\<close>

definition port_key :: "PortMapping \<Rightarrow> string" where
  "port_key p = pm_ContainerPort p @ ''/'' @ pm_Protocol p"

definition put_ports :: "PortMapping list \<Rightarrow> (PortMapping \<Rightarrow> json) \<Rightarrow> (string \<times> json) list" where
  "put_ports ps val = fold (\<lambda>p ms. obj_put (port_key p) (val p) ms) ps []"

definition binding_json :: "PortMapping \<Rightarrow> json" where
  "binding_json p = JArr [JObj [(''HostPort'', JStr (pm_HostPort p))]]"

definition bind_text :: "VolumeMount \<Rightarrow> string" where
  "bind_text v =
     vm_Source v @ '':'' @ vm_Target v @ '':'' @ (if vm_Mode v = [] then ''rw'' else vm_Mode v)"

text \<open>
  \<open>req["HostConfig"]\<close> is created by the first section that needs it and extended by the
  later ones.
\<close>

definition put_host :: "string \<Rightarrow> json \<Rightarrow> (string \<times> json) list \<Rightarrow> (string \<times> json) list" where
  "put_host k v req =
     (let hostCfg = (case obj_get req ''HostConfig'' of Some (JObj ms) \<Rightarrow> ms | _ \<Rightarrow> [])
      in obj_put ''HostConfig'' (JObj (obj_put k v hostCfg)) req)"

definition managed_labels :: json where
  "managed_labels = JObj [(''managed-by'', JStr ''routestack'')]"

definition buildCreateRequest :: "ContainerSpec \<Rightarrow> (string \<times> json) list" where
  "buildCreateRequest spec =
     (let req0 = [(''Image'', JStr (cs_Image spec))];
          req1 = (if cs_Cmd spec \<noteq> [] then obj_put ''Cmd'' (JArr (map JStr (cs_Cmd spec))) req0 else req0);
          req2 = (if cs_Ports spec \<noteq> [] then
                    obj_put ''HostConfig''
                      (JObj [(''PortBindings'', JObj (put_ports (cs_Ports spec) binding_json))])
                      (obj_put ''ExposedPorts'' (JObj (put_ports (cs_Ports spec) (\<lambda>_. JObj []))) req1)
                  else req1);
          req3 = (if cs_Volumes spec \<noteq> [] then
                    put_host ''Binds'' (JArr (map (\<lambda>v. JStr (bind_text v)) (cs_Volumes spec))) req2
                  else req2);
          req4 = (if cs_Env spec \<noteq> [] then obj_put ''Env'' (JArr (map JStr (cs_Env spec))) req3 else req3);
          req5 = (if cs_Restart spec \<noteq> [] \<and> cs_Restart spec \<noteq> ''no'' then
                    put_host ''RestartPolicy'' (JObj [(''Name'', JStr (cs_Restart spec))]) req4
                  else req4)
      in obj_put ''Labels'' managed_labels req5)"

definition Create :: "'d docker_client \<Rightarrow> ContainerSpec \<Rightarrow> ('d net, string) io" where
  "Create c spec =
     (let q = ''/'' @ dc_apiVersion c @ ''/containers/create?name='' @ cs_Name spec;
          msg = ''docker create '' @ cs_Name spec @ '': ''
      in io_bind (checked msg (client_doJSON c ''POST'' q (JObj (buildCreateRequest spec))))
           (decode_or_fail msg (store_struct ''struct''
              [(''Id'', store_string), (''Warnings'', \<lambda>v x. (x, snd (store_slice [] store_string v [])))]) []))"

section \<open>Lifecycle\<close>

definition Start :: "'d docker_client \<Rightarrow> string \<Rightarrow> ('d net, unit) io" where
  "Start c containerID =
     io_bind (checked (''docker start '' @ containerID @ '': '')
       (client_do c ''POST'' (''/'' @ dc_apiVersion c @ ''/containers/'' @ containerID @ ''/start'') None))
     (\<lambda>_. io_return ())"

definition Stop :: "'d docker_client \<Rightarrow> string \<Rightarrow> int \<Rightarrow> ('d net, unit) io" where
  "Stop c containerID timeoutSec =
     io_bind (checked (''docker stop '' @ containerID @ '': '')
       (client_do c ''POST'' (''/'' @ dc_apiVersion c @ ''/containers/'' @ containerID @ ''/stop'' @
          (if timeoutSec > 0 then ''?t='' @ itoa timeoutSec else [])) None))
     (\<lambda>_. io_return ())"

definition Remove :: "'d docker_client \<Rightarrow> string \<Rightarrow> bool \<Rightarrow> ('d net, unit) io" where
  "Remove c containerID force =
     io_bind (checked (''docker remove '' @ containerID @ '': '')
       (client_do c ''DELETE'' (''/'' @ dc_apiVersion c @ ''/containers/'' @ containerID @
          (if force then ''?force=true'' else [])) None))
     (\<lambda>_. io_return ())"

definition Inspect :: "'d docker_client \<Rightarrow> string \<Rightarrow> ('d net, ContainerState) io" where
  "Inspect c containerID =
     (let msg = ''docker inspect '' @ containerID @ '': ''
      in io_bind (checked msg
             (client_do c ''GET'' (''/'' @ dc_apiVersion c @ ''/containers/'' @ containerID @ ''/json'') None))
           (decode_or_fail msg store_ContainerState zero_ContainerState))"

definition Adopt :: "'d docker_client \<Rightarrow> string \<Rightarrow> ('d net, unit) io" where
  "Adopt c containerID =
     io_bind (checked (''docker adopt '' @ containerID @ '': '')
       (client_doJSON c ''POST'' (''/'' @ dc_apiVersion c @ ''/containers/'' @ containerID @ ''/update'')
          (JObj [(''Labels'', managed_labels)])))
     (\<lambda>_. io_return ())"

definition Logs :: "'d docker_client \<Rightarrow> string \<Rightarrow> int \<Rightarrow> ('d net, string) io" where
  "Logs c containerID tail =
     (let msg = ''docker logs '' @ containerID @ '': ''
      in io_bind (checked msg
           (client_do c ''GET'' (''/'' @ dc_apiVersion c @ ''/containers/'' @ containerID @
              ''/logs?stdout=true&stderr=true&tail='' @ itoa tail) None))
         (\<lambda>resp. case BodyErr resp of
            Some e \<Rightarrow> io_fail (ErrWrap (msg @ ''read: '') e [])
          | None \<Rightarrow> io_return (Body resp)))"

text \<open>The labels in the order of the iteration over the map.\<close>

definition list_query :: "(string \<times> string) list \<Rightarrow> string" where
  "list_query labels =
     concat (map (\<lambda>(k, v). ''&filters={'' @ Quote ''label'' @ '':{'' @ Quote (k @ ''='' @ v) @ '':true}}'') labels) @
     (if labels = [] then
        ''&filters={'' @ Quote ''label'' @ '':{'' @ Quote ''managed-by=routestack'' @ '':true}}''
      else [])"

definition docker_List :: "'d docker_client \<Rightarrow> (string \<times> string) list \<Rightarrow> ('d net, ContainerInfo list) io" where
  "docker_List c labels =
     io_bind (io_wrap ''docker list: ''
       (client_do c ''GET'' (''/'' @ dc_apiVersion c @ ''/containers/json?all=true'' @ list_query labels) None))
     (decode_or_fail ''docker list: '' (store_slice zero_ContainerInfo store_ContainerInfo) [])"

section \<open>Finding a container\<close>

definition KnownContainerNames :: "string list" where
  "KnownContainerNames = [''amnezia-awg2'', ''amnezia-xray'', ''telemt'']"

text \<open>Step 2 of \<open>FindContainer\<close>: inspect the known names in turn.\<close>

fun try_known :: "'d docker_client \<Rightarrow> string \<Rightarrow> string list \<Rightarrow> 'd net \<Rightarrow> string option \<times> 'd net" where
  "try_known c name [] n = (None, n)"
| "try_known c name (candidate # rest) n =
     (if candidate = name then try_known c name rest n
      else case Inspect c candidate n of
        (Inr state, n') \<Rightarrow> (Some (st_ID state), n')
      | (Inl _, n') \<Rightarrow> try_known c name rest n')"

definition name_hits :: "string \<Rightarrow> string \<Rightarrow> bool" where
  "name_hits name raw =
     (let clean = TrimPrefix raw ''/'' in clean = name \<or> list_ex (\<lambda>candidate. clean = candidate) KnownContainerNames)"

text \<open>Step 3: the first listed container one of whose names is wanted.\<close>

fun scan_listed :: "string \<Rightarrow> ContainerInfo list \<Rightarrow> string" where
  "scan_listed name [] = []"
| "scan_listed name (x # xs) =
     (if list_ex (name_hits name) (ci_Names x) then ci_ID x else scan_listed name xs)"

definition FindContainer :: "'d docker_client \<Rightarrow> string \<Rightarrow> ('d net, string) io" where
  "FindContainer c name n =
     (case Inspect c name n of
        (Inr state, n1) \<Rightarrow> (Inr (st_ID state), n1)
      | (Inl _, n1) \<Rightarrow>
          (case try_known c name KnownContainerNames n1 of
             (Some i, n2) \<Rightarrow> (Inr i, n2)
           | (None, n2) \<Rightarrow>
               (case docker_List c [] n2 of
                  (Inl e, n3) \<Rightarrow> (Inl (ErrWrap (''find container '' @ name @ '': '') e []), n3)
                | (Inr containers, n3) \<Rightarrow> (Inr (scan_listed name containers), n3))))"

section \<open>The requests of each operation\<close>

definition docker_req :: "'d docker_client \<Rightarrow> string \<Rightarrow> string \<Rightarrow> raw_json \<Rightarrow> http_request" where
  "docker_req c meth path body =
     \<lparr>hr_method = meth, hr_url = ''http://unix/'' @ dc_apiVersion c @ path, hr_body = body\<rparr>"

definition is_read :: "http_request \<Rightarrow> bool" where
  "is_read r \<longleftrightarrow> hr_method r = ''GET''"

lemma is_read_docker_req [simp]: "is_read (docker_req c m p b) \<longleftrightarrow> m = ''GET''"
  by (simp add: is_read_def docker_req_def)

lemma client_do_emits [client_laws]:
  assumes "P (docker_req c meth path body)"
  shows "emits sent P (client_do c meth (''/'' @ dc_apiVersion c @ path) body)"
proof (rule emitsI)
  fix s
  show "\<exists>es. sent (snd (client_do c meth (''/'' @ dc_apiVersion c @ path) body s)) = sent s @ es
      \<and> list_all P es"
    using assms
    by (auto simp: client_do_def http_Do_def http_outcome_def docker_req_def Let_def split: option.splits prod.splits)
qed

lemma client_do_emits_Cons [client_laws]:
  "P (docker_req c meth path body) \<Longrightarrow>
     emits sent P (client_do c meth (CHR ''/'' # dc_apiVersion c @ path) body)"
  using client_do_emits [of P c meth path body] by simp

lemma client_doJSON_emits [client_laws]:
  "P (docker_req c meth path (Some body)) \<Longrightarrow>
     emits sent P (client_doJSON c meth (CHR ''/'' # dc_apiVersion c @ path) body)"
  using client_do_emits [of P c meth path "Some body"] by (simp add: client_doJSON_def)

lemma checked_emits [client_laws]: "emits log P m \<Longrightarrow> emits log P (checked msg m)"
  by (simp add: checked_def client_laws)

lemma decode_emits [client_laws]: "emits log P (decode_or_fail msg st zero resp)"
  by (auto simp: decode_or_fail_def client_laws split: prod.splits option.splits)

lemma Pull_emits [client_laws]:
  assumes "P (docker_req c ''POST'' (''/images/create?fromImage='' @ img) None)"
  shows "emits sent P (Pull c img)"
  using assms by (simp add: Pull_def Let_def client_laws)

lemma InspectImage_emits [client_laws]:
  assumes "P (docker_req c ''GET'' (''/images/'' @ img @ ''/json'') None)"
  shows "emits sent P (InspectImage c img)"
  using assms by (simp add: InspectImage_def Let_def client_laws)

lemma Inspect_emits [client_laws]:
  assumes "P (docker_req c ''GET'' (''/containers/'' @ i @ ''/json'') None)"
  shows "emits sent P (Inspect c i)"
  using assms by (simp add: Inspect_def Let_def client_laws)

lemma Create_emits [client_laws]:
  assumes "P (docker_req c ''POST'' (''/containers/create?name='' @ cs_Name spec)
             (Some (JObj (buildCreateRequest spec))))"
  shows "emits sent P (Create c spec)"
  using assms by (simp add: Create_def Let_def client_laws)

lemma Start_emits [client_laws]:
  assumes "P (docker_req c ''POST'' (''/containers/'' @ i @ ''/start'') None)"
  shows "emits sent P (Start c i)"
  using assms by (simp add: Start_def client_laws)

definition stop_req :: "'d docker_client \<Rightarrow> string \<Rightarrow> int \<Rightarrow> http_request" where
  "stop_req c i t =
     docker_req c ''POST'' (''/containers/'' @ i @ ''/stop'' @ (if t > 0 then ''?t='' @ itoa t else [])) None"

definition remove_req :: "'d docker_client \<Rightarrow> string \<Rightarrow> bool \<Rightarrow> http_request" where
  "remove_req c i force =
     docker_req c ''DELETE'' (''/containers/'' @ i @ (if force then ''?force=true'' else [])) None"

lemma Stop_emits [client_laws]: "P (stop_req c i t) \<Longrightarrow> emits sent P (Stop c i t)"
  by (simp add: Stop_def stop_req_def client_laws)

lemma Remove_emits [client_laws]: "P (remove_req c i force) \<Longrightarrow> emits sent P (Remove c i force)"
  by (simp add: Remove_def remove_req_def client_laws)

lemma Adopt_emits [client_laws]:
  assumes "P (docker_req c ''POST'' (''/containers/'' @ i @ ''/update'') (Some (JObj [(''Labels'', managed_labels)])))"
  shows "emits sent P (Adopt c i)"
  using assms by (simp add: Adopt_def client_laws)

lemma Logs_emits [client_laws]:
  assumes "P (docker_req c ''GET'' (''/containers/'' @ i @ ''/logs?stdout=true&stderr=true&tail='' @ itoa t) None)"
  shows "emits sent P (Logs c i t)"
  using assms by (simp add: Logs_def Let_def client_laws)

lemma List_emits [client_laws]:
  assumes "P (docker_req c ''GET'' (''/containers/json?all=true'' @ list_query labels) None)"
  shows "emits sent P (docker_List c labels)"
  using assms by (simp add: docker_List_def client_laws)

lemma try_known_reads:
  "\<exists>es. sent (snd (try_known c name ks n)) = sent n @ es \<and> list_all is_read es"
proof (induction ks arbitrary: n)
  case Nil
  then show ?case by simp
next
  case (Cons k ks)
  show ?case
  proof (cases "k = name")
    case True
    then show ?thesis using Cons.IH by simp
  next
    case False
    obtain r n' where r: "Inspect c k n = (r, n')" by (cases "Inspect c k n")
    have "emits sent is_read (Inspect c k)" by (simp add: client_laws)
    then obtain es where es: "sent n' = sent n @ es" "list_all is_read es" using r by (rule emitsE)
    obtain es' where "sent (snd (try_known c name ks n')) = sent n' @ es'" "list_all is_read es'"
      using Cons.IH by blast
    then show ?thesis using r es False
      by (cases r) (auto intro!: exI [of _ "es @ es'"])
  qed
qed

text \<open>Looking for a container changes nothing at the daemon.\<close>

lemma FindContainer_reads [client_laws]: "emits sent is_read (FindContainer c name)"
proof (rule emitsI)
  fix n
  obtain r1 n1 where r1: "Inspect c name n = (r1, n1)" by (cases "Inspect c name n")
  have "emits sent is_read (Inspect c name)" by (simp add: client_laws)
  then obtain es1 where es1: "sent n1 = sent n @ es1" "list_all is_read es1" using r1 by (rule emitsE)
  obtain r2 n2 where r2: "try_known c name KnownContainerNames n1 = (r2, n2)"
    by (cases "try_known c name KnownContainerNames n1")
  obtain es2 where es2: "sent n2 = sent n1 @ es2" "list_all is_read es2"
    using try_known_reads [of c name KnownContainerNames n1] r2 by auto
  obtain r3 n3 where r3: "docker_List c [] n2 = (r3, n3)" by (cases "docker_List c [] n2")
  have "emits sent is_read (docker_List c [])" by (simp add: client_laws)
  then obtain es3 where es3: "sent n3 = sent n2 @ es3" "list_all is_read es3" using r3 by (rule emitsE)
  show "\<exists>es. sent (snd (FindContainer c name n)) = sent n @ es \<and> list_all is_read es"
  proof (cases r1)
    case (Inr st)
    then show ?thesis using r1 es1 by (simp add: FindContainer_def)
  next
    case Inl1: (Inl e)
    show ?thesis
    proof (cases r2)
      case (Some i)
      then show ?thesis using r1 r2 es1 es2 Inl1
        by (intro exI [of _ "es1 @ es2"]) (simp add: FindContainer_def)
    next
      case None
      then show ?thesis using r1 r2 r3 es1 es2 es3 Inl1
        by (intro exI [of _ "es1 @ es2 @ es3"]) (cases r3; simp add: FindContainer_def)
    qed
  qed
qed

section \<open>A successful operation sends its request and was answered below 400\<close>

lemma client_do_Inr:
  assumes "client_do c meth (CHR ''/'' # dc_apiVersion c @ path) body n = (Inr resp, n')"
  shows "sent n' = sent n @ [docker_req c meth path body]"
  using assms
  by (auto simp: client_do_def http_Do_def http_outcome_def docker_req_def Let_def split: option.splits prod.splits)

lemma checked_Inr:
  "checked msg m n = (Inr resp, n') \<longleftrightarrow> m n = (Inr resp, n') \<and> StatusCode resp < 400"
  by (fastforce simp: checked_def io_success split: if_splits)

lemma decode_or_fail_Inr:
  "decode_or_fail msg st zero resp n = (Inr x, n') \<longleftrightarrow> Decode st resp zero = (x, None) \<and> n' = n"
  by (auto simp: decode_or_fail_def split: prod.splits option.splits)

lemma Inspect_ok:
  assumes "Inspect c i n = (Inr x, n')"
  shows "sent n' = sent n @ [docker_req c ''GET'' (''/containers/'' @ i @ ''/json'') None]"
  using assms client_do_Inr [of c "''GET''" "''/containers/'' @ i @ ''/json''" None]
  by (auto simp: Inspect_def Let_def io_success checked_Inr decode_or_fail_Inr)

lemma Create_ok:
  assumes "Create c spec n = (Inr x, n')"
  shows "sent n' = sent n @ [docker_req c ''POST'' (''/containers/create?name='' @ cs_Name spec)
           (Some (JObj (buildCreateRequest spec)))]"
  using assms client_do_Inr [of c "''POST''" "''/containers/create?name='' @ cs_Name spec"]
  by (auto simp: Create_def Let_def io_success checked_Inr decode_or_fail_Inr client_doJSON_def)

lemma Start_ok:
  assumes "Start c i n = (Inr x, n')"
  shows "sent n' = sent n @ [docker_req c ''POST'' (''/containers/'' @ i @ ''/start'') None]"
  using assms client_do_Inr [of c "''POST''" "''/containers/'' @ i @ ''/start''" None]
  by (auto simp: Start_def io_success checked_Inr)

lemma Remove_ok:
  assumes "Remove c i force n = (Inr x, n')"
  shows "sent n' = sent n @ [remove_req c i force]"
  using assms client_do_Inr [of c "''DELETE''" "''/containers/'' @ i @ (if force then ''?force=true'' else [])" None]
  by (auto simp: Remove_def remove_req_def io_success checked_Inr)

lemma Stop_ok:
  assumes "Stop c i t n = (Inr x, n')"
  shows "sent n' = sent n @ [stop_req c i t]"
  using assms
    client_do_Inr [of c "''POST''" "''/containers/'' @ i @ ''/stop'' @ (if t > 0 then ''?t='' @ itoa t else [])" None]
  by (auto simp: Stop_def stop_req_def io_success checked_Inr)

section \<open>The create request\<close>

definition host_get :: "(string \<times> json) list \<Rightarrow> string \<Rightarrow> json option" where
  "host_get req k = (case obj_get req ''HostConfig'' of Some (JObj ms) \<Rightarrow> obj_get ms k | _ \<Rightarrow> None)"

lemma host_get_put_host: "host_get (put_host k v req) k' = (if k' = k then Some v else host_get req k')"
  by (auto simp: host_get_def put_host_def Let_def obj_get_put split: option.splits json.splits)
     (simp_all add: obj_get_def)

lemma host_get_other [simp]: "k \<noteq> ''HostConfig'' \<Longrightarrow> host_get (obj_put k v req) k' = host_get req k'"
  by (auto simp: host_get_def obj_get_put)

lemma obj_get_put_host [simp]: "k \<noteq> ''HostConfig'' \<Longrightarrow> obj_get (put_host h v req) k = obj_get req k"
  by (simp add: put_host_def Let_def obj_get_put)

lemma host_get_ports: "host_get (obj_put ''HostConfig'' (JObj [(''PortBindings'', v)]) req) k =
    (if k = ''PortBindings'' then Some v else None)"
  by (simp add: host_get_def obj_get_put) (simp add: obj_get_def)

lemma obj_get_single: "obj_get [(k, v)] k' = (if k' = k then Some v else None)"
  by (simp add: obj_get_def)

lemma host_get_image [simp]: "host_get [(''Image'', v)] k = None"
  by (simp add: host_get_def obj_get_def)

lemma put_ports_get:
  "obj_get (put_ports ps val) k =
     map_option val (find (\<lambda>p. port_key p = k) (rev ps))"
proof (induction ps rule: rev_induct)
  case Nil
  then show ?case by (simp add: put_ports_def obj_get_def)
next
  case (snoc p ps)
  have "put_ports (ps @ [p]) val = obj_put (port_key p) (val p) (put_ports ps val)"
    by (simp add: put_ports_def)
  then show ?case using snoc by (simp add: obj_get_put)
qed

section \<open>Properties\<close>

text \<open>The mapping of a container port (a text like \<open>80/tcp\<close>) that counts: the last in the list.\<close>

definition last_mapping :: "PortMapping list \<Rightarrow> string \<Rightarrow> PortMapping option" where
  "last_mapping ps k = find (\<lambda>p. pm_ContainerPort p @ ''/'' @ pm_Protocol p = k) (rev ps)"

lemma put_ports_last: "obj_get (put_ports ps val) k = map_option val (last_mapping ps k)"
  by (simp add: put_ports_get last_mapping_def port_key_def)

text \<open>
  Property C34. What the body of a create request says: the image, the command, the environment,
  the label that marks the container as managed, every container port that is mapped as an
  exposed port, and under \<open>HostConfig\<close> the bind mounts in order (read-write unless a mode is
  given), the restart policy unless it is \<open>no\<close>, and for every container port the host port of
  the last mapping that names it; an earlier mapping of the same port is lost. No section
  overwrites another.
\<close>

theorem buildCreateRequest_complete:
  "obj_get (buildCreateRequest s) ''Image'' = Some (JStr (cs_Image s)) \<and>
   obj_get (buildCreateRequest s) ''Labels'' = Some (JObj [(''managed-by'', JStr ''routestack'')]) \<and>
   obj_get (buildCreateRequest s) ''Env'' =
     (if cs_Env s = [] then None else Some (JArr (map JStr (cs_Env s)))) \<and>
   obj_get (buildCreateRequest s) ''Cmd'' =
     (if cs_Cmd s = [] then None else Some (JArr (map JStr (cs_Cmd s)))) \<and>
   (\<exists>ports. obj_get (buildCreateRequest s) ''ExposedPorts'' = (if cs_Ports s = [] then None else Some (JObj ports)) \<and>
      (\<forall>k. obj_get ports k = map_option (\<lambda>_. JObj []) (last_mapping (cs_Ports s) k))) \<and>
   (\<exists>ports. host_get (buildCreateRequest s) ''PortBindings'' = (if cs_Ports s = [] then None else Some (JObj ports)) \<and>
      (\<forall>k. obj_get ports k =
         map_option (\<lambda>p. JArr [JObj [(''HostPort'', JStr (pm_HostPort p))]]) (last_mapping (cs_Ports s) k))) \<and>
   host_get (buildCreateRequest s) ''Binds'' =
     (if cs_Volumes s = [] then None
      else Some (JArr (map (\<lambda>v. JStr (vm_Source v @ '':'' @ vm_Target v @ '':'' @
        (if vm_Mode v = [] then ''rw'' else vm_Mode v))) (cs_Volumes s)))) \<and>
   host_get (buildCreateRequest s) ''RestartPolicy'' =
     (if cs_Restart s = [] \<or> cs_Restart s = ''no'' then None
      else Some (JObj [(''Name'', JStr (cs_Restart s))]))"
proof -
  note look = buildCreateRequest_def Let_def obj_get_put obj_get_single host_get_put_host
    host_get_ports managed_labels_def if_distrib [of "\<lambda>r. obj_get r _"] if_distrib [of "\<lambda>r. host_get r _"]
  have ports: "obj_get (buildCreateRequest s) ''ExposedPorts'' =
      (if cs_Ports s = [] then None else Some (JObj (put_ports (cs_Ports s) (\<lambda>_. JObj []))))"
    "host_get (buildCreateRequest s) ''PortBindings'' =
      (if cs_Ports s = [] then None else Some (JObj (put_ports (cs_Ports s) binding_json)))"
    by (simp_all add: look del: obj_put.simps split del: if_split cong: if_cong) simp_all
  have "\<exists>ports. obj_get (buildCreateRequest s) ''ExposedPorts'' = (if cs_Ports s = [] then None else Some (JObj ports)) \<and>
      (\<forall>k. obj_get ports k = map_option (\<lambda>_. JObj []) (last_mapping (cs_Ports s) k))"
    unfolding ports(1) by (intro exI conjI allI, rule refl, rule put_ports_last)
  moreover have "\<exists>ports. host_get (buildCreateRequest s) ''PortBindings'' =
        (if cs_Ports s = [] then None else Some (JObj ports)) \<and>
      (\<forall>k. obj_get ports k =
         map_option (\<lambda>p. JArr [JObj [(''HostPort'', JStr (pm_HostPort p))]]) (last_mapping (cs_Ports s) k))"
    unfolding ports(2)
    by (intro exI conjI allI, rule refl, simp only: put_ports_last binding_json_def [abs_def])
  ultimately show ?thesis
    by (intro conjI; (assumption | simp add: look bind_text_def del: obj_put.simps split del: if_split cong: if_cong)) simp_all
qed

text \<open>
  Looking for a container sends read requests only.
\<close>

theorem FindContainer_read_only: "emits sent is_read (FindContainer c name)"
  by (rule FindContainer_reads)

end
