(* ===== verification/Installer.thy ===== *)
theory Installer
  imports Components Docker
begin

text \<open>
  Package \<open>installer\<close> (\<open>internal/installer/installer.go\<close>): pull the image of a component
  and compare its repository digests with the expected one.
\<close>

record 's ImageClient =
  im_Pull :: "string \<Rightarrow> ('s, unit) io"
  im_InspectImage :: "string \<Rightarrow> ('s, ImageInfo) io"

definition digest_mismatch :: "string \<Rightarrow> string \<Rightarrow> string list \<Rightarrow> goerror" where
  "digest_mismatch img expected got =
     ErrNew (''digest mismatch for '' @ img @ '': expected '' @ expected @ '', got '' @ fmt_strings got)"

definition Install :: "'s ImageClient \<Rightarrow> Component \<Rightarrow> ('s, unit) io" where
  "Install i c =
     io_bind (io_wrap ''invalid component: '' (io_check (Component_Validate c))) (\<lambda>_.
     let img = FullImage c in
     io_bind (io_wrap (''pull '' @ img @ '': '') (im_Pull i img)) (\<lambda>_.
     io_bind (io_wrap (''inspect '' @ img @ '': '') (im_InspectImage i img)) (\<lambda>info.
     if \<not> MatchDigest (co_ExpectedDigest c) (ii_RepoDigests info)
     then io_fail (digest_mismatch img (co_ExpectedDigest c) (ii_RepoDigests info))
     else io_return ())))"

definition docker_ImageClient :: "'d docker_client \<Rightarrow> 'd net ImageClient" where
  "docker_ImageClient c = \<lparr>im_Pull = Pull c, im_InspectImage = InspectImage c\<rparr>"

section \<open>Properties\<close>

lemma Install_Inr:
  "Install i c s = (Inr u, s') \<longleftrightarrow>
     Component_Validate c = None \<and>
     (\<exists>s1 info. im_Pull i (co_Image c) s = (Inr (), s1) \<and>
        im_InspectImage i (co_Image c) s1 = (Inr info, s') \<and>
        (\<exists>rd \<in> set (ii_RepoDigests info). suffix (co_ExpectedDigest c) rd))"
proof (cases "Component_Validate c")
  case None
  show ?thesis using None
    by (auto simp: Install_def Let_def io_success FullImage_valid [OF None] MatchDigest_iff
        split: if_splits)
next
  case (Some e)
  then show ?thesis by (simp add: Install_def io_bind_def io_wrap_def)
qed

lemma Install_invalid:
  "Component_Validate c = Some e \<Longrightarrow>
     Install i c s = (Inl (ErrWrap ''invalid component: '' e []), s)"
  by (simp add: Install_def io_bind_def io_wrap_def)

lemma Pull_ok:
  assumes "Pull c img n = (Inr u, n')"
  shows "sent n' = sent n @ [docker_req c ''POST'' (''/images/create?fromImage='' @ img) None]"
  using assms client_do_Inr [of c "''POST''" "''/images/create?fromImage='' @ img" None]
  by (auto simp: Pull_def Let_def io_success checked_Inr split: option.splits)

lemma InspectImage_ok:
  assumes "InspectImage c img n = (Inr x, n')"
  shows "sent n' = sent n @ [docker_req c ''GET'' (''/images/'' @ img @ ''/json'') None]"
  using assms client_do_Inr [of c "''GET''" "''/images/'' @ img @ ''/json''" None]
  by (auto simp: InspectImage_def Let_def io_success checked_Inr decode_or_fail_Inr)

text \<open>
  Property C18. An installation that succeeds pulled exactly the component's image, and the
  daemon then reported for that image a repository digest that ends in the expected digest,
  which is \<open>sha256:\<close> and 64 lower-case hexadecimal digits.
\<close>

theorem Install_verifies_digest:
  assumes "Install (docker_ImageClient c) cmp n = (Inr u, n')"
  shows "ValidateDigest (co_ExpectedDigest cmp) = None \<and>
    sent n' = sent n @
      [docker_req c ''POST'' (''/images/create?fromImage='' @ co_Image cmp) None,
       docker_req c ''GET'' (''/images/'' @ co_Image cmp @ ''/json'') None] \<and>
    (\<exists>n1 info. InspectImage c (co_Image cmp) n1 = (Inr info, n') \<and>
       (\<exists>rd \<in> set (ii_RepoDigests info). suffix (co_ExpectedDigest cmp) rd))"
proof -
  from assms obtain n1 info where
    v: "Component_Validate cmp = None" and
    p: "Pull c (co_Image cmp) n = (Inr (), n1)" and
    i: "InspectImage c (co_Image cmp) n1 = (Inr info, n')" and
    m: "\<exists>rd \<in> set (ii_RepoDigests info). suffix (co_ExpectedDigest cmp) rd"
    by (auto simp: Install_Inr docker_ImageClient_def)
  have "ValidateDigest (co_ExpectedDigest cmp) = None"
    using v by (auto simp: Component_Validate_def split: if_splits)
  then show ?thesis using Pull_ok [OF p] InspectImage_ok [OF i] i m by auto
qed

definition sample_digest :: string where
  "sample_digest = ''sha256:'' @ replicate 64 CHR ''a''"

definition sample_component :: Component where
  "sample_component = \<lparr>co_Name = ''telemt'', co_Version = ''v1'', co_Image = ''ghcr.io/telemt:v1'',
     co_ExpectedDigest = sample_digest\<rparr>"

definition sample_registry :: "unit server" where
  "sample_registry req d =
     (Inr \<lparr>StatusCode = 200,
       Body = (if hr_method req = ''GET''
               then ''{'' @ Quote ''RepoDigests'' @ '':['' @ Quote (''ghcr.io/telemt@'' @ sample_digest) @ '']}''
               else []),
       BodyErr = None\<rparr>, d)"

theorem Install_verifies_digest_witness:
  "\<exists>n'. Install (docker_ImageClient (docker_NewClient (\<lambda>_. None) sample_registry)) sample_component
      \<lparr>sent = [], peer = ()\<rparr> = (Inr (), n') \<and> length (sent n') = 2"
proof -
  let ?r = "Install (docker_ImageClient (docker_NewClient (\<lambda>_. None) sample_registry)) sample_component \<lparr>sent = [], peer = ()\<rparr>"
  have "fst ?r = Inr ()" by code_simp
  then have "?r = (Inr (), snd ?r)" by (metis prod.collapse)
  from Install_verifies_digest [OF this] this show ?thesis
    by (intro exI [of _ "snd ?r"]) auto
qed

end
