(* ===== verification/Service.thy ===== *)
theory Service
  imports Docker
begin

text \<open>
  Package \<open>service\<close> (\<open>internal/service/spec.go\<close>, \<open>manager.go\<close>): the desired state of a
  service container, its translation to a container specification, and the manager that
  replaces the container of a service, reads its status and its logs.

  The manager works on the interface \<open>ContainerClient\<close>, here a record of operations over
  any state. The locale \<open>container_client\<close> states what the manager relies on; the client
  of package \<open>docker\<close> is its interpretation.
\<close>

section \<open>Specification of a service\<close>

record Port =
  po_HostPort :: string
  po_ContainerPort :: string
  po_Protocol :: string

record Volume =
  vo_Source :: string
  vo_Target :: string
  vo_Mode :: string

record Spec =
  sp_Image :: string
  sp_Command :: "string list"
  sp_Ports :: "Port list"
  sp_Volumes :: "Volume list"
  sp_Env :: "(string \<times> string) list"
  sp_Restart :: string

definition zero_Spec :: Spec where
  "zero_Spec = \<lparr>sp_Image = [], sp_Command = [], sp_Ports = [], sp_Volumes = [], sp_Env = [],
     sp_Restart = []\<rparr>"

definition store_Port :: "Port store" where
  "store_Port = store_struct ''service.Port''
     [(''host_port'', in_field po_HostPort po_HostPort_update store_string),
      (''container_port'', in_field po_ContainerPort po_ContainerPort_update store_string),
      (''protocol'', in_field po_Protocol po_Protocol_update store_string)]"

definition store_Volume :: "Volume store" where
  "store_Volume = store_struct ''service.Volume''
     [(''source'', in_field vo_Source vo_Source_update store_string),
      (''target'', in_field vo_Target vo_Target_update store_string),
      (''mode'', in_field vo_Mode vo_Mode_update store_string)]"

definition store_Spec :: "Spec store" where
  "store_Spec = store_struct ''service.Spec''
     [(''image'', in_field sp_Image sp_Image_update store_string),
      (''command'', in_field sp_Command sp_Command_update (store_slice [] store_string)),
      (''ports'', in_field sp_Ports sp_Ports_update
         (store_slice \<lparr>po_HostPort = [], po_ContainerPort = [], po_Protocol = []\<rparr> store_Port)),
      (''volumes'', in_field sp_Volumes sp_Volumes_update
         (store_slice \<lparr>vo_Source = [], vo_Target = [], vo_Mode = []\<rparr> store_Volume)),
      (''env'', in_field sp_Env sp_Env_update (store_alist [] store_string)),
      (''restart'', in_field sp_Restart sp_Restart_update store_string)]"

fun check_ports :: "nat \<Rightarrow> Port list \<Rightarrow> goerror option" where
  "check_ports i [] = None"
| "check_ports i (p # ps) =
     (if TrimSpace (po_HostPort p) = [] \<or> TrimSpace (po_ContainerPort p) = [] then
        Some (ErrNew (''port '' @ itoa (int i) @ '': host_port and container_port are required''))
      else check_ports (Suc i) ps)"

fun check_volumes :: "nat \<Rightarrow> Volume list \<Rightarrow> goerror option" where
  "check_volumes i [] = None"
| "check_volumes i (v # vs) =
     (if TrimSpace (vo_Source v) = [] \<or> TrimSpace (vo_Target v) = [] then
        Some (ErrNew (''volume '' @ itoa (int i) @ '': source and target are required''))
      else check_volumes (Suc i) vs)"

text \<open>The default protocol is assigned to a copy of the port there, which has no effect.\<close>

definition Spec_Validate :: "Spec \<Rightarrow> goerror option" where
  "Spec_Validate s =
     (if TrimSpace (sp_Image s) = [] then Some (ErrNew ''image is required'')
      else case check_ports 0 (sp_Ports s) of
        Some e \<Rightarrow> Some e
      | None \<Rightarrow> check_volumes 0 (sp_Volumes s))"

definition ContainerName :: "string \<Rightarrow> string" where
  "ContainerName serviceID = ''routestack-'' @ serviceID"

definition port_mapping :: "Port \<Rightarrow> PortMapping" where
  "port_mapping p = \<lparr>pm_HostPort = po_HostPort p, pm_ContainerPort = po_ContainerPort p,
     pm_Protocol = (if po_Protocol p = [] then ''tcp'' else po_Protocol p)\<rparr>"

definition volume_mount :: "Volume \<Rightarrow> VolumeMount" where
  "volume_mount v = \<lparr>vm_Source = vo_Source v, vm_Target = vo_Target v,
     vm_Mode = (if vo_Mode v = [] then ''rw'' else vo_Mode v)\<rparr>"

text \<open>
  Go iterates over a map in an order of the runtime's choice: the parameter \<open>range_map\<close>
  lists the entries in that order.
\<close>

type_synonym map_order = "(string \<times> string) list \<Rightarrow> (string \<times> string) list"

definition ToContainerSpec :: "map_order \<Rightarrow> Spec \<Rightarrow> string \<Rightarrow> ContainerSpec" where
  "ToContainerSpec range_map s serviceID =
     \<lparr>cs_Name = ContainerName serviceID, cs_Image = sp_Image s,
      cs_Ports = map port_mapping (sp_Ports s),
      cs_Volumes = map volume_mount (sp_Volumes s),
      cs_Env = map (\<lambda>(k, v). k @ ''='' @ v) (range_map (sp_Env s)),
      cs_Restart = sp_Restart s, cs_Cmd = sp_Command s\<rparr>"

section \<open>Manager\<close>

record 's ContainerClient =
  cl_Inspect :: "string \<Rightarrow> ('s, ContainerState) io"
  cl_Create :: "ContainerSpec \<Rightarrow> ('s, string) io"
  cl_Start :: "string \<Rightarrow> ('s, unit) io"
  cl_Stop :: "string \<Rightarrow> int \<Rightarrow> ('s, unit) io"
  cl_Remove :: "string \<Rightarrow> bool \<Rightarrow> ('s, unit) io"
  cl_Logs :: "string \<Rightarrow> int \<Rightarrow> ('s, string) io"

record ServiceStatus =
  ss_ServiceID :: string
  ss_ContainerName :: string
  ss_ContainerID :: string
  ss_Running :: bool
  ss_Status :: string
  ss_ExitCode :: int
  ss_Health :: string
  ss_Image :: string
  ss_ManagedByAgent :: bool

definition remove_existing :: "'s ContainerClient \<Rightarrow> string \<Rightarrow> ('s, unit) io" where
  "remove_existing m containerName =
     io_bind (io_try (cl_Inspect m containerName)) (\<lambda>r.
       case r of
         Inl _ \<Rightarrow> io_return ()
       | Inr existing \<Rightarrow>
           io_bind (io_try (cl_Stop m (st_ID existing) 10)) (\<lambda>_.
             io_wrap (''remove existing container '' @ containerName @ '': '')
               (cl_Remove m (st_ID existing) True)))"

definition service_ApplyRevision ::
  "'s ContainerClient \<Rightarrow> map_order \<Rightarrow> string \<Rightarrow> int \<Rightarrow> Spec \<Rightarrow> ('s, unit) io" where
  "service_ApplyRevision m range_map serviceID revision spec =
     io_bind (io_wrap ''invalid spec: '' (io_check (Spec_Validate spec))) (\<lambda>_.
     io_bind (remove_existing m (ContainerName serviceID)) (\<lambda>_.
     let containerName = ContainerName serviceID;
         cspec0 = ToContainerSpec range_map spec serviceID;
         cspec = (if cs_Name cspec0 = [] then cspec0\<lparr>cs_Name := containerName\<rparr> else cspec0)
     in io_bind (io_wrap (''create container '' @ containerName @ '': '') (cl_Create m cspec)) (\<lambda>i.
        io_wrap (''start container '' @ containerName @ '': '') (cl_Start m i))))"

definition status_of :: "string \<Rightarrow> ContainerState \<Rightarrow> ServiceStatus" where
  "status_of serviceID state =
     \<lparr>ss_ServiceID = serviceID, ss_ContainerName = ContainerName serviceID,
      ss_ContainerID = st_ID state, ss_Running = rs_Running (st_State state),
      ss_Status = rs_Status (st_State state), ss_ExitCode = rs_ExitCode (st_State state),
      ss_Health = (case rs_Health (st_State state) of None \<Rightarrow> [] | Some h \<Rightarrow> hs_Status h),
      ss_Image = cc_Image (st_Config state),
      ss_ManagedByAgent =
        (case cc_Labels (st_Config state) of
           None \<Rightarrow> False
         | Some ls \<Rightarrow> ls ''managed-by'' = Some ''routestack'')\<rparr>"

definition CollectStatus :: "'s ContainerClient \<Rightarrow> string \<Rightarrow> ('s, ServiceStatus) io" where
  "CollectStatus m serviceID =
     io_bind (io_wrap (''inspect '' @ ContainerName serviceID @ '': '')
                (cl_Inspect m (ContainerName serviceID)))
       (\<lambda>state. io_return (status_of serviceID state))"

definition CollectLogs :: "'s ContainerClient \<Rightarrow> string \<Rightarrow> int \<Rightarrow> ('s, string) io" where
  "CollectLogs m serviceID tail =
     cl_Logs m (ContainerName serviceID) (if tail \<le> 0 then 100 else tail)"

text \<open>The JSON of a status, as \<open>json.Marshal\<close> writes it.\<close>

definition ServiceStatus_json :: "ServiceStatus \<Rightarrow> json" where
  "ServiceStatus_json s = JObj (
     [(''service_id'', JStr (ss_ServiceID s)), (''container_name'', JStr (ss_ContainerName s)),
      (''container_id'', JStr (ss_ContainerID s)), (''running'', JBool (ss_Running s)),
      (''status'', JStr (ss_Status s)), (''exit_code'', JNum (itoa (ss_ExitCode s)))] @
     (if ss_Health s = [] then [] else [(''health'', JStr (ss_Health s))]) @
     [(''image'', JStr (ss_Image s)), (''managed_by_agent'', JBool (ss_ManagedByAgent s))])"

section \<open>What the manager relies on\<close>

text \<open>
  The containers one run of \<open>ApplyRevision\<close> may touch: the one named after the service, an
  ID the client reported for that name, an ID the client gave to a container it created
  under that name.
\<close>

definition own_container :: "'s ContainerClient \<Rightarrow> string \<Rightarrow> string \<Rightarrow> bool" where
  "own_container cl name x \<longleftrightarrow> x = name
     \<or> (\<exists>s st s'. cl_Inspect cl name s = (Inr st, s') \<and> x = st_ID st)
     \<or> (\<exists>s spec s'. cs_Name spec = name \<and> cl_Create cl spec s = (Inr x, s'))"

text \<open>
  \<open>about x e\<close>: the log entry \<open>e\<close> addresses the container \<open>x\<close>, by name or by ID; \<open>reads e\<close>:
  it changes nothing.
\<close>

locale container_client =
  fixes cl :: "'s ContainerClient"
    and log :: "'s \<Rightarrow> 'e list"
    and about :: "string \<Rightarrow> 'e \<Rightarrow> bool"
    and reads :: "'e \<Rightarrow> bool"
  assumes Inspect_law: "emits log (\<lambda>e. about x e \<and> reads e) (cl_Inspect cl x)"
    and Logs_law: "emits log (\<lambda>e. about x e \<and> reads e) (cl_Logs cl x t)"
    and Create_law: "emits log (about (cs_Name spec)) (cl_Create cl spec)"
    and Start_law: "emits log (about x) (cl_Start cl x)"
    and Stop_law: "emits log (about x) (cl_Stop cl x t)"
    and Remove_law: "emits log (about x) (cl_Remove cl x force)"
begin

lemma CollectStatus_reads:
  "emits log (\<lambda>e. about (ContainerName sid) e \<and> reads e) (CollectStatus cl sid)"
  unfolding CollectStatus_def by (intro client_laws Inspect_law)

lemma CollectLogs_reads:
  "emits log (\<lambda>e. about (ContainerName sid) e \<and> reads e) (CollectLogs cl sid t)"
  unfolding CollectLogs_def by (rule Logs_law)

lemma remove_existing_own:
  "emits log (\<lambda>e. \<exists>x. own_container cl name x \<and> about x e) (remove_existing cl name)"
proof (rule emitsI)
  fix s
  let ?P = "\<lambda>e. \<exists>x. own_container cl name x \<and> about x e"
  obtain r s1 where r: "cl_Inspect cl name s = (r, s1)" by (cases "cl_Inspect cl name s")
  have "emits log ?P (cl_Inspect cl name)"
    by (rule emits_mono [OF Inspect_law]) (auto simp: own_container_def)
  then obtain es where es: "log s1 = log s @ es" "list_all ?P es" using r by (rule emitsE)
  show "\<exists>es. log (snd (remove_existing cl name s)) = log s @ es \<and> list_all ?P es"
  proof (cases r)
    case (Inl e)
    then show ?thesis using r es by (simp add: remove_existing_def io_bind_def io_try_def)
  next
    case (Inr st)
    let ?rest = "io_bind (io_try (cl_Stop cl (st_ID st) 10)) (\<lambda>_.
        io_wrap (''remove existing container '' @ name @ '': '') (cl_Remove cl (st_ID st) True))"
    have own: "own_container cl name (st_ID st)" using r Inr unfolding own_container_def by blast
    have "emits log ?P ?rest"
      by (intro client_laws emits_mono [OF Stop_law] emits_mono [OF Remove_law]) (use own in blast)+
    then obtain es' where "log (snd (?rest s1)) = log s1 @ es'" "list_all ?P es'"
      unfolding emits_def by blast
    moreover have "remove_existing cl name s = ?rest s1"
      using r Inr by (simp add: remove_existing_def io_bind_def io_try_def)
    ultimately show ?thesis using es by (intro exI [of _ "es @ es'"]) simp
  qed
qed

lemma create_start_own:
  assumes name: "cs_Name spec = name"
  shows "emits log (\<lambda>e. \<exists>x. own_container cl name x \<and> about x e)
    (io_bind (io_wrap m1 (cl_Create cl spec)) (\<lambda>i. io_wrap m2 (cl_Start cl i)))"
proof (rule emitsI)
  fix s
  let ?P = "\<lambda>e. \<exists>x. own_container cl name x \<and> about x e"
  let ?m = "io_bind (io_wrap m1 (cl_Create cl spec)) (\<lambda>i. io_wrap m2 (cl_Start cl i))"
  obtain r s1 where r: "cl_Create cl spec s = (r, s1)" by (cases "cl_Create cl spec s")
  have "emits log ?P (cl_Create cl spec)"
    by (rule emits_mono [OF Create_law]) (use name in \<open>auto simp: own_container_def\<close>)
  then obtain es where es: "log s1 = log s @ es" "list_all ?P es" using r by (rule emitsE)
  show "\<exists>es. log (snd (?m s)) = log s @ es \<and> list_all ?P es"
  proof (cases r)
    case (Inl e)
    then show ?thesis using r es by (simp add: io_bind_def io_wrap_def)
  next
    case (Inr i)
    have own: "own_container cl name i" using r Inr name unfolding own_container_def by blast
    have "emits log ?P (io_wrap m2 (cl_Start cl i))"
      by (intro client_laws emits_mono [OF Start_law]) (use own in blast)
    then obtain es' where "log (snd (io_wrap m2 (cl_Start cl i) s1)) = log s1 @ es'" "list_all ?P es'"
      unfolding emits_def by blast
    moreover have "?m s = io_wrap m2 (cl_Start cl i) s1"
      using r Inr by (simp add: io_bind_def io_wrap_def)
    ultimately show ?thesis using es by (intro exI [of _ "es @ es'"]) simp
  qed
qed

lemma ApplyRevision_own:
  "emits log (\<lambda>e. \<exists>x. own_container cl (ContainerName sid) x \<and> about x e)
     (service_ApplyRevision cl ord sid revision spec)"
  unfolding service_ApplyRevision_def Let_def
  by (intro client_laws remove_existing_own create_start_own)
     (simp add: ToContainerSpec_def)

lemma ApplyRevision_invalid:
  "Spec_Validate spec = Some e \<Longrightarrow>
     service_ApplyRevision cl ord sid revision spec s = (Inl (ErrWrap ''invalid spec: '' e []), s)"
  by (simp add: service_ApplyRevision_def io_bind_def io_wrap_def)

end

section \<open>The Docker client keeps this contract\<close>

definition docker_ContainerClient :: "'d docker_client \<Rightarrow> 'd net ContainerClient" where
  "docker_ContainerClient c =
     \<lparr>cl_Inspect = Inspect c, cl_Create = Create c, cl_Start = Start c, cl_Stop = Stop c,
      cl_Remove = Remove c, cl_Logs = Logs c\<rparr>"

definition about_url :: "string \<Rightarrow> string \<Rightarrow> string \<Rightarrow> bool" where
  "about_url base x u \<longleftrightarrow>
     u = base @ ''create?name='' @ x \<or>
     (HasPrefix u (base @ x) \<and>
      (case drop (length (base @ x)) u of [] \<Rightarrow> True | ch # _ \<Rightarrow> ch = CHR ''/'' \<or> ch = CHR ''?''))"

definition containers_url :: "'d docker_client \<Rightarrow> string" where
  "containers_url c = ''http://unix/'' @ dc_apiVersion c @ ''/containers/''"

definition about_container :: "'d docker_client \<Rightarrow> string \<Rightarrow> http_request \<Rightarrow> bool" where
  "about_container c x r = about_url (containers_url c) x (hr_url r)"

lemma about_url_simps:
  "about_url base x (base @ ''create?name='' @ x)"
  "about_url base x (base @ x)"
  "about_url base x (base @ x @ CHR ''/'' # p)"
  "about_url base x (base @ x @ CHR ''?'' # p)"
  by (simp_all add: about_url_def HasPrefix_def)

lemma docker_req_url: "hr_url (docker_req c m (''/containers/'' @ p) b) = containers_url c @ p"
  by (simp add: docker_req_def containers_url_def)

lemma about_container_req:
  "about_container c x (docker_req c m (''/containers/'' @ ''create?name='' @ x) b)"
  "about_container c x (docker_req c m (''/containers/'' @ x) b)"
  "about_container c x (docker_req c m (''/containers/'' @ x @ CHR ''/'' # p) b)"
  "about_container c x (docker_req c m (''/containers/'' @ x @ CHR ''?'' # p) b)"
  unfolding about_container_def docker_req_url by (rule about_url_simps)+

lemmas about_container_simps [simp] = about_container_req [simplified]

lemma docker_ContainerClient_simps [simp]:
  "cl_Inspect (docker_ContainerClient c) = Inspect c"
  "cl_Create (docker_ContainerClient c) = Create c"
  "cl_Start (docker_ContainerClient c) = Start c"
  "cl_Stop (docker_ContainerClient c) = Stop c"
  "cl_Remove (docker_ContainerClient c) = Remove c"
  "cl_Logs (docker_ContainerClient c) = Logs c"
  by (simp_all add: docker_ContainerClient_def)

interpretation docker_containers: container_client "docker_ContainerClient c" sent "about_container c" is_read
  for c :: "'d docker_client"
proof
  fix x t spec force
  show "emits sent (\<lambda>e. about_container c x e \<and> is_read e) (cl_Inspect (docker_ContainerClient c) x)"
    by (simp, rule Inspect_emits) simp
  show "emits sent (\<lambda>e. about_container c x e \<and> is_read e) (cl_Logs (docker_ContainerClient c) x t)"
    by (simp, rule Logs_emits) simp
  show "emits sent (about_container c (cs_Name spec)) (cl_Create (docker_ContainerClient c) spec)"
    by (simp, rule Create_emits) simp
  show "emits sent (about_container c x) (cl_Start (docker_ContainerClient c) x)"
    by (simp, rule Start_emits) simp
  show "emits sent (about_container c x) (cl_Stop (docker_ContainerClient c) x t)"
    by (simp, rule Stop_emits) (simp add: stop_req_def)
  show "emits sent (about_container c x) (cl_Remove (docker_ContainerClient c) x force)"
    by (simp, rule Remove_emits) (simp add: remove_req_def)
qed

text \<open>A revision that was applied ended by creating and starting the container.\<close>

lemma ApplyRevision_ok_trace:
  assumes "service_ApplyRevision (docker_ContainerClient c) ord sid revision spec n = (Inr u, n')"
  obtains pre i n1 n2 where
    "Spec_Validate spec = None"
    "Create c (ToContainerSpec ord spec sid) n1 = (Inr i, n2)"
    "sent n' = sent n @ pre @
       [docker_req c ''POST'' (''/containers/create?name='' @ ContainerName sid)
          (Some (JObj (buildCreateRequest (ToContainerSpec ord spec sid)))),
        docker_req c ''POST'' (''/containers/'' @ i @ ''/start'') None]"
proof -
  have name: "cs_Name (ToContainerSpec ord spec sid) = ContainerName sid"
    "ContainerName sid \<noteq> []"
    by (simp_all add: ToContainerSpec_def ContainerName_def)
  from assms obtain n1 i n2 where
    valid: "Spec_Validate spec = None" and
    rem: "remove_existing (docker_ContainerClient c) (ContainerName sid) n = (Inr (), n1)" and
    cr: "Create c (ToContainerSpec ord spec sid) n1 = (Inr i, n2)" and
    st: "Start c i n2 = (Inr u, n')"
    by (auto simp: service_ApplyRevision_def Let_def io_success name)
  obtain pre where "sent n1 = sent n @ pre"
    using docker_containers.remove_existing_own rem by (rule emitsE)
  then show thesis using that valid cr Create_ok [OF cr] Start_ok [OF st] name by auto
qed

section \<open>Properties\<close>

text \<open>
  Property C20. Applying a revision touches only the service's own container: every request
  addresses the container named after the service, the ID the daemon reports for that name,
  or the ID of a container created under that name.
\<close>

theorem ApplyRevision_own_container:
  "emits sent (\<lambda>r. \<exists>x. own_container (docker_ContainerClient c) (ContainerName sid) x \<and> about_container c x r)
     (service_ApplyRevision (docker_ContainerClient c) ord sid revision spec)"
  by (rule docker_containers.ApplyRevision_own)


definition sample_daemon :: "unit server" where
  "sample_daemon req d =
     (Inr (if HasSuffix (hr_url req) ''/json'' then \<lparr>StatusCode = 404, Body = [], BodyErr = None\<rparr>
           else \<lparr>StatusCode = 201, Body = ''{'' @ Quote ''Id'' @ '':'' @ Quote ''c1'' @ ''}'', BodyErr = None\<rparr>), d)"


text \<open>
  Reading the status of a service or its logs sends only requests that read, all
  about the service's container.
\<close>

theorem status_and_logs_read_only:
  "emits sent (\<lambda>r. about_container c (ContainerName sid) r \<and> is_read r)
     (CollectStatus (docker_ContainerClient c) sid) \<and>
   emits sent (\<lambda>r. about_container c (ContainerName sid) r \<and> is_read r)
     (CollectLogs (docker_ContainerClient c) sid t)"
  by (intro conjI docker_containers.CollectStatus_reads docker_containers.CollectLogs_reads)

lemma check_ports_None:
  "check_ports i ps = None \<longleftrightarrow>
     list_all (\<lambda>p. TrimSpace (po_HostPort p) \<noteq> [] \<and> TrimSpace (po_ContainerPort p) \<noteq> []) ps"
  by (induction ps arbitrary: i) auto

lemma check_volumes_None:
  "check_volumes i vs = None \<longleftrightarrow>
     list_all (\<lambda>v. TrimSpace (vo_Source v) \<noteq> [] \<and> TrimSpace (vo_Target v) \<noteq> []) vs"
  by (induction vs arbitrary: i) auto

lemma Spec_Validate_iff:
  "Spec_Validate s = None \<longleftrightarrow>
     TrimSpace (sp_Image s) \<noteq> [] \<and>
     list_all (\<lambda>p. TrimSpace (po_HostPort p) \<noteq> [] \<and> TrimSpace (po_ContainerPort p) \<noteq> []) (sp_Ports s) \<and>
     list_all (\<lambda>v. TrimSpace (vo_Source v) \<noteq> [] \<and> TrimSpace (vo_Target v) \<noteq> []) (sp_Volumes s)"
proof (cases "check_ports 0 (sp_Ports s)")
  case None
  then have "list_all (\<lambda>p. TrimSpace (po_HostPort p) \<noteq> [] \<and> TrimSpace (po_ContainerPort p) \<noteq> []) (sp_Ports s)"
    by (simp add: check_ports_None)
  then show ?thesis using None by (simp add: Spec_Validate_def check_volumes_None)
next
  case (Some e)
  then have "\<not> list_all (\<lambda>p. TrimSpace (po_HostPort p) \<noteq> [] \<and> TrimSpace (po_ContainerPort p) \<noteq> []) (sp_Ports s)"
    by (metis check_ports_None option.distinct(1))
  then show ?thesis using Some by (simp add: Spec_Validate_def)
qed

end
