(* ===== verification/Tunnel.thy ===== *)
theory Tunnel
  imports Service
begin

text \<open>
  Package \<open>tunnel\<close> (\<open>internal/tunnel/tunnel.go\<close>): client tunnels inside a service
  container, created and removed by a helper script that runs in the container.
\<close>

definition ProviderAmneziaWG :: string where
  "ProviderAmneziaWG = ''amneziawg''"

definition ProviderXray :: string where
  "ProviderXray = ''xray''"

record TunnelRequest =
  tr_ServiceID :: string
  tr_TunnelID :: string
  tr_Provider :: string
  tr_PeerConfig :: raw_json

definition zero_TunnelRequest :: TunnelRequest where
  "zero_TunnelRequest = \<lparr>tr_ServiceID = [], tr_TunnelID = [], tr_Provider = [], tr_PeerConfig = None\<rparr>"

definition store_TunnelRequest :: "TunnelRequest store" where
  "store_TunnelRequest = store_struct ''tunnel.Request''
     [(''service_id'', in_field tr_ServiceID tr_ServiceID_update store_string),
      (''tunnel_id'', in_field tr_TunnelID tr_TunnelID_update store_string),
      (''provider'', in_field tr_Provider tr_Provider_update store_string),
      (''peer_config'', in_field tr_PeerConfig tr_PeerConfig_update store_raw)]"

definition TunnelRequest_Validate :: "TunnelRequest \<Rightarrow> goerror option" where
  "TunnelRequest_Validate r =
     (if TrimSpace (tr_ServiceID r) = [] then Some (ErrNew ''service_id is required'')
      else if TrimSpace (tr_TunnelID r) = [] then Some (ErrNew ''tunnel_id is required'')
      else if tr_Provider r = ProviderAmneziaWG \<or> tr_Provider r = ProviderXray then None
      else Some (ErrNew (''unsupported provider: '' @ tr_Provider r)))"

record 's ContainerExec =
  xe_Inspect :: "string \<Rightarrow> ('s, ContainerState) io"
  xe_Exec :: "string \<Rightarrow> string list \<Rightarrow> ('s, ExecResult) io"

definition peer_failed :: "string \<Rightarrow> string \<Rightarrow> ExecResult \<Rightarrow> goerror" where
  "peer_failed what containerName res =
     ErrNew (what @ '' failed in '' @ containerName @ '' (exit '' @ itoa (ex_ExitCode res) @ ''): '' @
       ex_Stdout res @ ex_Stderr res)"

definition tunnel_Create :: "'s ContainerExec \<Rightarrow> TunnelRequest \<Rightarrow> ('s, unit) io" where
  "tunnel_Create m req =
     io_bind (io_check (TunnelRequest_Validate req)) (\<lambda>_.
     let containerName = ContainerName (tr_ServiceID req) in
     io_bind (io_wrap (''service container '' @ containerName @ '' not found: '')
                (xe_Inspect m containerName)) (\<lambda>_.
     let cmd = [''/usr/local/bin/routestack-add-peer'', tr_Provider req, tr_TunnelID req] in
     io_bind (io_wrap (''exec add-peer in '' @ containerName @ '': '') (xe_Exec m containerName cmd)) (\<lambda>res.
     if ex_ExitCode res \<noteq> 0 then io_fail (peer_failed ''add-peer'' containerName res)
     else io_return ())))"

definition tunnel_Remove :: "'s ContainerExec \<Rightarrow> TunnelRequest \<Rightarrow> ('s, unit) io" where
  "tunnel_Remove m req =
     io_bind (io_check (TunnelRequest_Validate req)) (\<lambda>_.
     let containerName = ContainerName (tr_ServiceID req) in
     io_bind (io_wrap (''service container '' @ containerName @ '' not found: '')
                (xe_Inspect m containerName)) (\<lambda>_.
     let cmd = [''/usr/local/bin/routestack-remove-peer'', tr_Provider req, tr_TunnelID req] in
     io_bind (io_wrap (''exec remove-peer in '' @ containerName @ '': '') (xe_Exec m containerName cmd)) (\<lambda>res.
     if ex_ExitCode res \<noteq> 0 then io_fail (peer_failed ''remove-peer'' containerName res)
     else io_return ())))"

definition docker_ContainerExec :: "'d docker_client \<Rightarrow> 'd net ContainerExec" where
  "docker_ContainerExec c = \<lparr>xe_Inspect = Inspect c, xe_Exec = Exec c\<rparr>"

section \<open>Properties\<close>

text \<open>A tunnel operation succeeds exactly when the script was run in the service's container and left with 0.\<close>

lemma tunnel_Create_Inr:
  "tunnel_Create m req s = (Inr u, s') \<longleftrightarrow>
     TunnelRequest_Validate req = None \<and>
     (\<exists>st s1 res. xe_Inspect m (ContainerName (tr_ServiceID req)) s = (Inr st, s1) \<and>
        xe_Exec m (ContainerName (tr_ServiceID req))
          [''/usr/local/bin/routestack-add-peer'', tr_Provider req, tr_TunnelID req] s1 = (Inr res, s') \<and>
        ex_ExitCode res = 0)"
  by (fastforce simp: tunnel_Create_def Let_def io_success split: if_splits)

lemma tunnel_Remove_Inr:
  "tunnel_Remove m req s = (Inr u, s') \<longleftrightarrow>
     TunnelRequest_Validate req = None \<and>
     (\<exists>st s1 res. xe_Inspect m (ContainerName (tr_ServiceID req)) s = (Inr st, s1) \<and>
        xe_Exec m (ContainerName (tr_ServiceID req))
          [''/usr/local/bin/routestack-remove-peer'', tr_Provider req, tr_TunnelID req] s1 = (Inr res, s') \<and>
        ex_ExitCode res = 0)"
  by (fastforce simp: tunnel_Remove_def Let_def io_success split: if_splits)

text \<open>The peer configuration of a request has no influence on what \<open>Create\<close> does.\<close>

lemma tunnel_Create_PeerConfig: "tunnel_Create m (req\<lparr>tr_PeerConfig := p\<rparr>) = tunnel_Create m req"
  by (simp add: tunnel_Create_def TunnelRequest_Validate_def)

end
