(* ===== verification/Firewall.thy ===== *)
theory Firewall
  imports GoHost GoJson
begin

text \<open>
  Package \<open>firewall\<close> (\<open>internal/firewall/manager.go\<close>): the chain \<open>ROUTESTACK-FWD\<close> of the
  host's packet filter is flushed and filled with the rules of a revision.
\<close>

record Rule =
  ru_Args :: "string list"

record Ruleset =
  rl_Revision :: int
  rl_Rules :: "Rule list"

definition zero_Ruleset :: Ruleset where
  "zero_Ruleset = \<lparr>rl_Revision = 0, rl_Rules = []\<rparr>"

definition store_Rule :: "Rule store" where
  "store_Rule = store_struct ''firewall.Rule''
     [(''args'', in_field ru_Args ru_Args_update (store_slice [] store_string))]"

definition store_Ruleset :: "Ruleset store" where
  "store_Ruleset = store_struct ''firewall.Ruleset''
     [(''revision'', in_field rl_Revision rl_Revision_update store_int),
      (''rules'', in_field rl_Rules rl_Rules_update (store_slice \<lparr>ru_Args = []\<rparr> store_Rule))]"

record 's CommandRunner =
  cr_Run :: "string \<Rightarrow> string list \<Rightarrow> ('s, unit) io"
  cr_Output :: "string \<Rightarrow> string list \<Rightarrow> ('s, string) io"

text \<open>\<open>execRunner\<close>. \<open>ensureChain\<close> ignores the output of a command that failed.\<close>

definition execRunner :: "'h os_exec \<Rightarrow> 'h host CommandRunner" where
  "execRunner os =
     \<lparr>cr_Run = (\<lambda>name args h. case run_command os name args h of (o1, h') \<Rightarrow>
        (case eo_Err o1 of None \<Rightarrow> Inr () | Some e \<Rightarrow> Inl e, h')),
      cr_Output = (\<lambda>name args h. case run_command os name args h of (o1, h') \<Rightarrow>
        (case eo_Err o1 of None \<Rightarrow> Inr (eo_Stdout o1) | Some e \<Rightarrow> Inl e, h'))\<rparr>"

definition chainName :: string where
  "chainName = ''ROUTESTACK-FWD''"

definition ensureChain :: "'s CommandRunner \<Rightarrow> ('s, unit) io" where
  "ensureChain m =
     io_bind (io_try (cr_Run m ''iptables'' [''-N'', chainName])) (\<lambda>_.
     io_bind (io_try (cr_Output m ''iptables'' [''-L'', ''DOCKER-USER'', ''--line-numbers'', ''-n''])) (\<lambda>r.
     let link = cr_Run m ''iptables'' [''-I'', ''DOCKER-USER'', ''1'', ''-j'', chainName] in
     case r of
       Inl _ \<Rightarrow> io_bind (io_try (cr_Run m ''iptables'' [''-N'', ''DOCKER-USER''])) (\<lambda>_. link)
     | Inr out \<Rightarrow> if Contains out chainName then io_return () else link))"

fun apply_rules :: "'s CommandRunner \<Rightarrow> nat \<Rightarrow> Rule list \<Rightarrow> ('s, unit) io" where
  "apply_rules m i [] = io_return ()"
| "apply_rules m i (rule # rules) =
     (if ru_Args rule = [] then apply_rules m (Suc i) rules
      else
        io_bind (io_wrap (''apply rule '' @ itoa (int i) @ '' ('' @ fmt_strings (ru_Args rule) @ ''): '')
                   (cr_Run m ''iptables'' ([''-A'', chainName] @ ru_Args rule)))
          (\<lambda>_. apply_rules m (Suc i) rules))"

definition firewall_ApplyRevision :: "'s CommandRunner \<Rightarrow> Ruleset \<Rightarrow> ('s, unit) io" where
  "firewall_ApplyRevision m rs =
     (if rl_Revision rs < 0 then io_fail (ErrNew ''revision must be non-negative'')
      else
        io_bind (ensureChain m) (\<lambda>_.
        io_bind (io_wrap (''flush '' @ chainName @ '': '') (cr_Run m ''iptables'' [''-F'', chainName])) (\<lambda>_.
        apply_rules m 0 (rl_Rules rs))))"

definition RevisionFromString :: "string \<Rightarrow> num_error + int" where
  "RevisionFromString s = (case ParseInt64 s of (i, None) \<Rightarrow> Inr i | (_, Some e) \<Rightarrow> Inl e)"

section \<open>The content of the chain\<close>

text \<open>
  What the commands that succeeded leave in the chain, by the manual of \<open>iptables\<close>:
  \<open>-F\<close> empties it and \<open>-A\<close> appends the rule that follows the chain's name.
\<close>

definition chain_step :: "string list list \<Rightarrow> command \<Rightarrow> string list list" where
  "chain_step rules c =
     (if \<not> cmd_ok c \<or> cmd_name c \<noteq> ''iptables'' then rules
      else case cmd_args c of
        a # b # args \<Rightarrow>
          if b \<noteq> chainName then rules
          else if a = ''-F'' then []
          else if a = ''-A'' then rules @ [args]
          else rules
      | _ \<Rightarrow> rules)"

definition chain_of :: "command list \<Rightarrow> string list list" where
  "chain_of cs = foldl chain_step [] cs"

definition wanted_rules :: "Rule list \<Rightarrow> string list list" where
  "wanted_rules rules = filter (\<lambda>a. a \<noteq> []) (map ru_Args rules)"

definition is_iptables :: "command \<Rightarrow> bool" where
  "is_iptables c \<longleftrightarrow> cmd_name c = ''iptables''"

lemma chain_of_snoc: "chain_of (cs @ [c]) = chain_step (chain_of cs) c"
  by (simp add: chain_of_def)

lemma Run_result:
  "cr_Run (execRunner os) name args h = (r, h') \<Longrightarrow>
     ran h' = ran h @ [\<lparr>cmd_name = name, cmd_args = args, cmd_ok = is_ok r\<rparr>]"
  by (auto simp: execRunner_def run_command_def split: prod.splits option.splits)

lemma Output_result:
  "cr_Output (execRunner os) name args h = (r, h') \<Longrightarrow>
     ran h' = ran h @ [\<lparr>cmd_name = name, cmd_args = args, cmd_ok = is_ok r\<rparr>]"
  by (auto simp: execRunner_def run_command_def split: prod.splits option.splits)

lemma Run_emits [client_laws]:
  assumes "\<And>ok. P \<lparr>cmd_name = name, cmd_args = args, cmd_ok = ok\<rparr>"
  shows "emits ran P (cr_Run (execRunner os) name args)"
proof (rule emitsI)
  fix h
  obtain r h' where "cr_Run (execRunner os) name args h = (r, h')"
    by (cases "cr_Run (execRunner os) name args h")
  then show "\<exists>es. ran (snd (cr_Run (execRunner os) name args h)) = ran h @ es \<and> list_all P es"
    using assms Run_result by fastforce
qed

lemma Output_emits [client_laws]:
  assumes "\<And>ok. P \<lparr>cmd_name = name, cmd_args = args, cmd_ok = ok\<rparr>"
  shows "emits ran P (cr_Output (execRunner os) name args)"
proof (rule emitsI)
  fix h
  obtain r h' where "cr_Output (execRunner os) name args h = (r, h')"
    by (cases "cr_Output (execRunner os) name args h")
  then show "\<exists>es. ran (snd (cr_Output (execRunner os) name args h)) = ran h @ es \<and> list_all P es"
    using assms Output_result by fastforce
qed

text \<open>
  Adding rules one by one: the chain grows by the rules that were added, all of them when
  it succeeds and those before the failing one otherwise.
\<close>

lemma apply_rules_chain:
  assumes "apply_rules (execRunner os) i rules h = (r, h')"
  shows "\<exists>k. k \<le> length (wanted_rules rules) \<and>
     chain_of (ran h') = chain_of (ran h) @ take k (wanted_rules rules) \<and>
     (is_ok r \<longleftrightarrow> k = length (wanted_rules rules))"
  using assms
proof (induction rules arbitrary: i h)
  case Nil
  then show ?case by (auto simp: wanted_rules_def)
next
  case (Cons rule rules)
  show ?case
  proof (cases "ru_Args rule = []")
    case True
    then show ?thesis using Cons by (auto simp: wanted_rules_def)
  next
    case False
    let ?args = "[''-A'', chainName] @ ru_Args rule"
    obtain r1 h1 where run: "cr_Run (execRunner os) ''iptables'' ?args h = (r1, h1)"
      by (cases "cr_Run (execRunner os) ''iptables'' ?args h")
    have w: "wanted_rules (rule # rules) = ru_Args rule # wanted_rules rules"
      using False by (simp add: wanted_rules_def)
    have c1: "chain_of (ran h1) = (if is_ok r1 then chain_of (ran h) @ [ru_Args rule] else chain_of (ran h))"
      using Run_result [OF run] by (simp add: chain_of_snoc chain_step_def)
    show ?thesis
    proof (cases r1)
      case (Inl e)
      then have "r = Inl (ErrWrap (''apply rule '' @ itoa (int i) @ '' ('' @ fmt_strings (ru_Args rule) @ ''): '') e [])"
        "h' = h1"
        using Cons.prems run False by (auto simp: io_bind_def io_wrap_def)
      then show ?thesis using c1 Inl w by (intro exI [of _ 0]) simp
    next
      case (Inr x)
      then have "apply_rules (execRunner os) (Suc i) rules h1 = (r, h')"
        using Cons.prems run False by (auto simp: io_bind_def io_wrap_def)
      then obtain k where "k \<le> length (wanted_rules rules)"
        "chain_of (ran h') = chain_of (ran h1) @ take k (wanted_rules rules)"
        "is_ok r \<longleftrightarrow> k = length (wanted_rules rules)"
        using Cons.IH by blast
      then show ?thesis using c1 Inr w by (intro exI [of _ "Suc k"]) simp
    qed
  qed
qed

lemma flush_chain:
  "cr_Run (execRunner os) ''iptables'' [''-F'', chainName] h = (Inr u, h') \<Longrightarrow> chain_of (ran h') = []"
  using Run_result by (fastforce simp: chain_of_snoc chain_step_def)

lemma ensureChain_emits [client_laws]: "emits ran is_iptables (ensureChain (execRunner os))"
  unfolding ensureChain_def Let_def by (intro client_laws) (simp_all add: is_iptables_def)

lemma apply_rules_emits [client_laws]: "emits ran is_iptables (apply_rules (execRunner os) i rules)"
  by (induction rules arbitrary: i) (auto intro!: client_laws simp: is_iptables_def)

lemma ensureChain_chain:
  assumes "ensureChain (execRunner os) h = (r, h')"
  shows "chain_of (ran h') = chain_of (ran h)"
proof -
  let ?P = "\<lambda>c. \<forall>rules. chain_step rules c = rules"
  have "emits ran ?P (ensureChain (execRunner os))"
    unfolding ensureChain_def Let_def
    by (intro client_laws) (simp_all add: chain_step_def chainName_def)
  then obtain es where es: "ran h' = ran h @ es" "list_all ?P es" using assms by (rule emitsE)
  have "foldl chain_step rules es = rules" for rules
    using es(2) by (induction es) simp_all
  then show ?thesis using es(1) by (simp add: chain_of_def)
qed

text \<open>
  What a revision leaves in the chain: on success its rules, on an error either what was
  there before or the first few of its rules, never a mixture.
\<close>

lemma ApplyRevision_chain:
  assumes "firewall_ApplyRevision (execRunner os) rs h = (r, h')"
  shows "if is_ok r then chain_of (ran h') = wanted_rules (rl_Rules rs)
         else chain_of (ran h') = chain_of (ran h) \<or>
              (\<exists>k < length (wanted_rules (rl_Rules rs)).
                 chain_of (ran h') = take k (wanted_rules (rl_Rules rs)))"
proof (cases "rl_Revision rs < 0")
  case True
  then show ?thesis using assms by (auto simp: firewall_ApplyRevision_def)
next
  case False
  let ?m = "execRunner os"
  obtain r1 h1 where e: "ensureChain ?m h = (r1, h1)" by (cases "ensureChain ?m h")
  obtain r2 h2 where f: "cr_Run ?m ''iptables'' [''-F'', chainName] h1 = (r2, h2)"
    by (cases "cr_Run ?m ''iptables'' [''-F'', chainName] h1")
  have kept: "chain_of (ran h1) = chain_of (ran h)" using e by (rule ensureChain_chain)
  show ?thesis
  proof (cases r1)
    case (Inl x)
    then show ?thesis using assms False e kept by (auto simp: firewall_ApplyRevision_def io_bind_def)
  next
    case r1: (Inr u)
    show ?thesis
    proof (cases r2)
      case (Inl x)
      then have "chain_of (ran h2) = chain_of (ran h1)"
        using Run_result [OF f] by (simp add: chain_of_snoc chain_step_def)
      then show ?thesis using assms False e f r1 Inl kept
        by (auto simp: firewall_ApplyRevision_def io_bind_def io_wrap_def)
    next
      case (Inr v)
      then have "apply_rules ?m 0 (rl_Rules rs) h2 = (r, h')"
        using assms False e f r1 by (auto simp: firewall_ApplyRevision_def io_bind_def io_wrap_def)
      from apply_rules_chain [OF this] flush_chain [of os h1 v h2] show ?thesis
        using f Inr by (auto simp: le_less)
    qed
  qed
qed

text \<open>The manager moves the host's state only as the commands do.\<close>

context state_order
begin

lemma apply_rules_along:
  "(\<And>name args. along R (cr_Run m name args)) \<Longrightarrow> along R (apply_rules m i rules)"
  by (induction rules arbitrary: i) (auto intro!: along_laws)

lemma firewall_ApplyRevision_along:
  assumes "\<And>name args. along R (cr_Run m name args)" and "\<And>name args. along R (cr_Output m name args)"
  shows "along R (firewall_ApplyRevision m rs)"
  unfolding firewall_ApplyRevision_def ensureChain_def Let_def
  by (intro along_laws apply_rules_along assms)

end

section \<open>Properties\<close>

text \<open>
  Property C15. When \<open>ApplyRevision\<close> returns no error, the chain holds exactly the rules of
  the revision, in their order and without the empty ones, whatever it held before.
\<close>

theorem firewall_ApplyRevision_installs:
  assumes "firewall_ApplyRevision (execRunner os) rs h = (Inr u, h')"
  shows "chain_of (ran h') = wanted_rules (rl_Rules rs)"
  using ApplyRevision_chain [OF assms] by simp

definition quiet_os :: "string \<Rightarrow> unit os_exec" where
  "quiet_os bad name args h =
     (\<lparr>eo_Stdout = [], eo_Combined = [],
       eo_Err = (if bad \<in> set args then Some (ErrNew ''exit status 2'') else None)\<rparr>, h)"

theorem firewall_ApplyRevision_installs_witness:
  "chain_of (ran (snd (firewall_ApplyRevision (execRunner (quiet_os ''bad''))
     \<lparr>rl_Revision = 7, rl_Rules = [\<lparr>ru_Args = [''-p'', ''tcp'', ''-j'', ''ACCEPT'']\<rparr>, \<lparr>ru_Args = []\<rparr>]\<rparr>
     \<lparr>ran = [], machine = ()\<rparr>))) = [[''-p'', ''tcp'', ''-j'', ''ACCEPT'']]"
proof -
  let ?rs = "\<lparr>rl_Revision = 7, rl_Rules = [\<lparr>ru_Args = [''-p'', ''tcp'', ''-j'', ''ACCEPT'']\<rparr>, \<lparr>ru_Args = []\<rparr>]\<rparr>"
  let ?r = "firewall_ApplyRevision (execRunner (quiet_os ''bad'')) ?rs \<lparr>ran = [], machine = ()\<rparr>"
  have "fst ?r = Inr ()" by code_simp
  then have "?r = (Inr (), snd ?r)" by (metis prod.collapse)
  from firewall_ApplyRevision_installs [OF this] show ?thesis by (simp add: wanted_rules_def)
qed

text \<open>
  Property C16. When \<open>ApplyRevision\<close> returns an error, the chain holds what it held before or
  a proper initial part of the revision's rules.
\<close>

theorem firewall_ApplyRevision_error:
  assumes "firewall_ApplyRevision (execRunner os) rs h = (Inl e, h')"
  shows "chain_of (ran h') = chain_of (ran h) \<or>
    (\<exists>k < length (wanted_rules (rl_Rules rs)). chain_of (ran h') = take k (wanted_rules (rl_Rules rs)))"
  using ApplyRevision_chain [OF assms] by simp

theorem firewall_ApplyRevision_error_witness:
  "(let h' = snd (firewall_ApplyRevision (execRunner (quiet_os ''bad''))
      \<lparr>rl_Revision = 7, rl_Rules = [\<lparr>ru_Args = [''bad'']\<rparr>]\<rparr> \<lparr>ran = [], machine = ()\<rparr>)
    in chain_of (ran h') = [] \<or>
       (\<exists>k < length (wanted_rules [\<lparr>ru_Args = [''bad'']\<rparr>]).
          chain_of (ran h') = take k (wanted_rules [\<lparr>ru_Args = [''bad'']\<rparr>])))"
proof -
  let ?rs = "\<lparr>rl_Revision = 7, rl_Rules = [\<lparr>ru_Args = [''bad'']\<rparr>]\<rparr>"
  let ?r = "firewall_ApplyRevision (execRunner (quiet_os ''bad'')) ?rs \<lparr>ran = [], machine = ()\<rparr>"
  have "\<not> is_ok (fst ?r)" by code_simp
  then obtain e where "fst ?r = Inl e" by (cases "fst ?r") simp_all
  then have "?r = (Inl e, snd ?r)" by (metis prod.collapse)
  from firewall_ApplyRevision_error [OF this] show ?thesis by (simp add: Let_def chain_of_def)
qed

text \<open>
  A host on which every command succeeds except adding one of certain rules, which \<open>iptables\<close>
  rejects.
\<close>

definition rejects :: "string list set \<Rightarrow> 'h os_exec \<Rightarrow> bool" where
  "rejects bad os \<longleftrightarrow>
     (\<forall>name args m. eo_Err (fst (os name args m)) = None \<longleftrightarrow>
        (\<forall>rule \<in> bad. args \<noteq> [''-A'', chainName] @ rule))"

lemma rejects_Run:
  assumes "rejects bad os"
  shows "is_ok (fst (cr_Run (execRunner os) name args h)) \<longleftrightarrow> (\<forall>rule \<in> bad. args \<noteq> [''-A'', chainName] @ rule)"
proof -
  obtain o1 m where o1: "os name args (machine h) = (o1, m)" by (cases "os name args (machine h)")
  then have "eo_Err o1 = None \<longleftrightarrow> (\<forall>rule \<in> bad. args \<noteq> [''-A'', chainName] @ rule)"
    using assms unfolding rejects_def by (metis fst_conv)
  then show ?thesis using o1 by (auto simp: execRunner_def run_command_def split: option.splits)
qed

lemma rejects_Run_ok:
  assumes "rejects bad os" and "hd args \<noteq> ''-A''"
  shows "cr_Run (execRunner os) name args h = (Inr (), snd (cr_Run (execRunner os) name args h))"
proof -
  have "is_ok (fst (cr_Run (execRunner os) name args h))"
    unfolding rejects_Run [OF assms(1)] using assms(2) by (metis append_Cons list.sel(1))
  then show ?thesis
    by (cases "cr_Run (execRunner os) name args h"; cases "fst (cr_Run (execRunner os) name args h)") simp_all
qed

lemma rejects_ensureChain:
  assumes "rejects bad os"
  shows "\<exists>h'. ensureChain (execRunner os) h = (Inr (), h')"
proof -
  let ?m = "execRunner os" and ?link = "[''-I'', ''DOCKER-USER'', ''1'', ''-j'', chainName]"
  have link: "\<exists>h'. cr_Run ?m ''iptables'' ?link g = (Inr (), h')" for g
    by (rule exI, rule rejects_Run_ok [OF assms]) simp
  have tried: "\<exists>r h'. io_try m' g = (Inr r, h')" for m' :: "('a host, 'b) io" and g
    by (simp add: io_try_def split: prod.split)
  obtain r1 h1 where 1: "io_try (cr_Run ?m ''iptables'' [''-N'', chainName]) h = (Inr r1, h1)"
    using tried by blast
  obtain r2 h2 where 2: "io_try (cr_Output ?m ''iptables'' [''-L'', ''DOCKER-USER'', ''--line-numbers'', ''-n'']) h1 = (Inr r2, h2)"
    using tried by blast
  obtain r3 h3 where 3: "io_try (cr_Run ?m ''iptables'' [''-N'', ''DOCKER-USER'']) h2 = (Inr r3, h3)"
    using tried by blast
  show ?thesis
    using link [of h2] link [of h3] 1 2 3
    by (cases r2) (simp_all add: ensureChain_def io_bind_def Let_def)
qed

lemma rejects_apply_rules:
  assumes "rejects bad os" and "apply_rules (execRunner os) i rules h = (r, h')"
  shows "chain_of (ran h') = chain_of (ran h) @ takeWhile (\<lambda>a. a \<notin> bad) (wanted_rules rules) \<and>
     (is_ok r \<longleftrightarrow> (\<forall>a \<in> set (wanted_rules rules). a \<notin> bad))"
  using assms(2)
proof (induction rules arbitrary: i h)
  case Nil
  then show ?case by (auto simp: wanted_rules_def)
next
  case (Cons rule rules)
  show ?case
  proof (cases "ru_Args rule = []")
    case True
    then show ?thesis using Cons by (auto simp: wanted_rules_def)
  next
    case False
    let ?args = "[''-A'', chainName] @ ru_Args rule"
    have w: "wanted_rules (rule # rules) = ru_Args rule # wanted_rules rules"
      using False by (simp add: wanted_rules_def)
    obtain r1 h1 where r1: "cr_Run (execRunner os) ''iptables'' ?args h = (r1, h1)"
      by (cases "cr_Run (execRunner os) ''iptables'' ?args h")
    moreover have "is_ok r1 \<longleftrightarrow> ru_Args rule \<notin> bad"
      using rejects_Run [OF assms(1), of "''iptables''" ?args h] r1 by auto
    ultimately have run: "cr_Run (execRunner os) ''iptables'' ?args h = (r1, h1)"
        "is_ok r1 \<longleftrightarrow> ru_Args rule \<notin> bad" by blast+
    have c1: "chain_of (ran h1) = (if is_ok r1 then chain_of (ran h) @ [ru_Args rule] else chain_of (ran h))"
      using Run_result [OF run(1)] by (simp add: chain_of_snoc chain_step_def)
    show ?thesis
    proof (cases r1)
      case (Inl e)
      then show ?thesis using Cons.prems run False c1 w by (auto simp: io_bind_def io_wrap_def)
    next
      case (Inr x)
      then have "apply_rules (execRunner os) (Suc i) rules h1 = (r, h')"
        using Cons.prems run False by (auto simp: io_bind_def io_wrap_def)
      then show ?thesis using Cons.IH c1 Inr run(2) w by simp
    qed
  qed
qed

text \<open>
  Property C17. \<open>ApplyRevision\<close> is not atomic: when \<open>iptables\<close> accepts every command but some of
  the new rules, the call ends in an error and the chain, whatever it held before, holds the new
  rules before the first rejected one and nothing else. All old rules are gone.
\<close>

theorem firewall_ApplyRevision_not_atomic:
  assumes "0 \<le> rl_Revision rs" and "rejects bad os"
    and "rule \<in> set (wanted_rules (rl_Rules rs))" and "rule \<in> bad"
  shows "\<exists>e h'. firewall_ApplyRevision (execRunner os) rs h = (Inl e, h') \<and>
     chain_of (ran h') = takeWhile (\<lambda>a. a \<notin> bad) (wanted_rules (rl_Rules rs))"
proof -
  let ?m = "execRunner os"
  obtain h1 where e: "ensureChain ?m h = (Inr (), h1)" using rejects_ensureChain [OF assms(2)] by blast
  obtain h2 where f: "cr_Run ?m ''iptables'' [''-F'', chainName] h1 = (Inr (), h2)"
    by (rule that, rule rejects_Run_ok [OF assms(2)]) simp
  obtain r h' where a: "apply_rules ?m 0 (rl_Rules rs) h2 = (r, h')"
    by (cases "apply_rules ?m 0 (rl_Rules rs) h2")
  have "chain_of (ran h') = takeWhile (\<lambda>a. a \<notin> bad) (wanted_rules (rl_Rules rs))" "\<not> is_ok r"
    using rejects_apply_rules [OF assms(2) a] flush_chain [OF f] assms(3,4) by auto
  moreover have "firewall_ApplyRevision ?m rs h = (r, h')"
    using assms(1) e f a by (simp add: firewall_ApplyRevision_def io_bind_def io_wrap_def)
  ultimately show ?thesis by (cases r) auto
qed

definition picky_os :: "unit os_exec" where
  "picky_os name args m =
     (\<lparr>eo_Stdout = [], eo_Combined = [],
       eo_Err = (if args = [''-A'', chainName, ''bad''] then Some (ErrNew ''exit status 2'') else None)\<rparr>, m)"

theorem firewall_ApplyRevision_not_atomic_witness:
  "chain_of (ran (snd (firewall_ApplyRevision (execRunner picky_os)
     \<lparr>rl_Revision = 7, rl_Rules = [\<lparr>ru_Args = [''-j'', ''ACCEPT'']\<rparr>, \<lparr>ru_Args = [''bad'']\<rparr>]\<rparr>
     \<lparr>ran = [\<lparr>cmd_name = ''iptables'', cmd_args = [''-A'', chainName, ''-j'', ''DROP''], cmd_ok = True\<rparr>], machine = ()\<rparr>))) =
   [[''-j'', ''ACCEPT'']]"
proof -
  let ?rs = "\<lparr>rl_Revision = 7, rl_Rules = [\<lparr>ru_Args = [''-j'', ''ACCEPT'']\<rparr>, \<lparr>ru_Args = [''bad'']\<rparr>]\<rparr>"
  let ?h = "\<lparr>ran = [\<lparr>cmd_name = ''iptables'', cmd_args = [''-A'', chainName, ''-j'', ''DROP''], cmd_ok = True\<rparr>], machine = ()\<rparr>"
  have "rejects {[''bad'']} picky_os" by (auto simp: rejects_def picky_os_def)
  then obtain e h' where "firewall_ApplyRevision (execRunner picky_os) ?rs ?h = (Inl e, h')"
      "chain_of (ran h') = takeWhile (\<lambda>a. a \<notin> {[''bad'']}) (wanted_rules (rl_Rules ?rs))"
    using firewall_ApplyRevision_not_atomic [of ?rs "{[''bad'']}" picky_os "[''bad'']" ?h]
    by (auto simp: wanted_rules_def)
  then show ?thesis by (simp add: wanted_rules_def)
qed

text \<open>
  The manager runs \<open>iptables\<close> and no other program, on every path.
\<close>

theorem firewall_only_iptables:
  "emits ran is_iptables (firewall_ApplyRevision (execRunner os) rs)"
  unfolding firewall_ApplyRevision_def by (intro client_laws) (simp add: is_iptables_def)

end
