(* ===== verification/Health.thy ===== *)
theory Health
  imports Service GoHost
begin

text \<open>
  Package \<open>health\<close> (\<open>internal/health/manager.go\<close>): the state of a service container and the
  reachability of host ports, summarised in a report.

  The clock and the dialer are parameters: \<open>dial addr timeout s\<close> tells whether a TCP
  connection to \<open>addr\<close> could be opened, \<open>now s\<close> the text of \<open>time.Now().UTC()\<close> in JSON.
\<close>

record PortHit =
  ph_HostPort :: string
  ph_Open :: bool

record HealthReport =
  hp_ServiceID :: string
  hp_ContainerName :: string
  hp_ContainerID :: string
  hp_Healthy :: bool
  hp_Running :: bool
  hp_Status :: string
  hp_Health :: string
  hp_ExitCode :: int
  hp_PortChecks :: "PortHit list"
  hp_CheckedAt :: string

record CheckOptions =
  op_ProbePorts :: "string list"
  op_TimeoutMs :: int

definition store_CheckOptions :: "CheckOptions store" where
  "store_CheckOptions = store_struct ''health.CheckOptions''
     [(''probe_ports'', in_field op_ProbePorts op_ProbePorts_update (store_slice [] store_string)),
      (''timeout_ms'', in_field op_TimeoutMs op_TimeoutMs_update store_int)]"

record 's HealthManager =
  hm_Inspect :: "string \<Rightarrow> ('s, ContainerState) io"
  hm_dial :: "string \<Rightarrow> int \<Rightarrow> 's \<Rightarrow> bool \<times> 's"
  hm_now :: "'s \<Rightarrow> string"

definition probe_address :: "string \<Rightarrow> string" where
  "probe_address port = (if \<not> Contains port '':'' then ''127.0.0.1:'' @ port else port)"

definition probePort :: "'s HealthManager \<Rightarrow> string \<Rightarrow> int \<Rightarrow> 's \<Rightarrow> bool \<times> 's" where
  "probePort m port timeout s = hm_dial m (probe_address port) timeout s"

fun probe_all :: "'s HealthManager \<Rightarrow> int \<Rightarrow> string list \<Rightarrow> HealthReport \<Rightarrow> 's \<Rightarrow> HealthReport \<times> 's" where
  "probe_all m timeout [] report s = (report, s)"
| "probe_all m timeout (port # ports) report s =
     (case probePort m port timeout s of
        (opened, s') \<Rightarrow>
          (let report1 = report\<lparr>hp_PortChecks := hp_PortChecks report @ [\<lparr>ph_HostPort = port, ph_Open = opened\<rparr>]\<rparr>;
               report2 = (if \<not> opened then report1\<lparr>hp_Healthy := False\<rparr> else report1)
           in probe_all m timeout ports report2 s'))"

definition probe_timeout :: "CheckOptions \<Rightarrow> int" where
  "probe_timeout opts =
     (if op_TimeoutMs opts > 0 then wrap64 (op_TimeoutMs opts * Millisecond) else 2 * Second)"

definition base_health :: "string \<Rightarrow> ContainerState \<Rightarrow> string \<Rightarrow> HealthReport" where
  "base_health serviceID state at =
     \<lparr>hp_ServiceID = serviceID, hp_ContainerName = ContainerName serviceID, hp_ContainerID = st_ID state,
      hp_Healthy = (case rs_Health (st_State state) of
                      None \<Rightarrow> rs_Running (st_State state)
                    | Some h \<Rightarrow> rs_Running (st_State state) \<and> hs_Status h = ''healthy''),
      hp_Running = rs_Running (st_State state), hp_Status = rs_Status (st_State state),
      hp_Health = (case rs_Health (st_State state) of None \<Rightarrow> [] | Some h \<Rightarrow> hs_Status h),
      hp_ExitCode = rs_ExitCode (st_State state), hp_PortChecks = [], hp_CheckedAt = at\<rparr>"

definition Check :: "'s HealthManager \<Rightarrow> string \<Rightarrow> CheckOptions \<Rightarrow> ('s, HealthReport) io" where
  "Check m serviceID opts =
     io_bind (io_wrap (''inspect '' @ ContainerName serviceID @ '': '') (hm_Inspect m (ContainerName serviceID)))
       (\<lambda>state s. case probe_all m (probe_timeout opts) (op_ProbePorts opts)
                         (base_health serviceID state (hm_now m s)) s of
                    (report, s') \<Rightarrow> (Inr report, s'))"

text \<open>\<open>raw = None\<close> also stands for an empty byte slice: both leave the options as they are.\<close>

definition CheckFromJSON :: "'s HealthManager \<Rightarrow> string \<Rightarrow> raw_json \<Rightarrow> ('s, HealthReport) io" where
  "CheckFromJSON m serviceID raw =
     Check m serviceID (fst (Unmarshal store_CheckOptions raw \<lparr>op_ProbePorts = [], op_TimeoutMs = 0\<rparr>))"

definition PortHit_json :: "PortHit \<Rightarrow> json" where
  "PortHit_json p = JObj [(''host_port'', JStr (ph_HostPort p)), (''open'', JBool (ph_Open p))]"

definition HealthReport_json :: "HealthReport \<Rightarrow> json" where
  "HealthReport_json r = JObj (
     [(''service_id'', JStr (hp_ServiceID r)), (''container_name'', JStr (hp_ContainerName r)),
      (''container_id'', JStr (hp_ContainerID r)), (''healthy'', JBool (hp_Healthy r)),
      (''running'', JBool (hp_Running r)), (''status'', JStr (hp_Status r))] @
     (if hp_Health r = [] then [] else [(''health'', JStr (hp_Health r))]) @
     [(''exit_code'', JNum (itoa (hp_ExitCode r)))] @
     (if hp_PortChecks r = [] then [] else [(''port_checks'', JArr (map PortHit_json (hp_PortChecks r)))]) @
     [(''checked_at'', JStr (hp_CheckedAt r))])"

text \<open>\<open>net.SplitHostPort\<close>, the port only; \<open>None\<close> is its error.\<close>

definition last_index :: "char \<Rightarrow> string \<Rightarrow> nat option" where
  "last_index c s = (if c \<in> set s then Some (length s - 1 - length (takeWhile (\<lambda>x. x \<noteq> c) (rev s))) else None)"

definition SplitHostPort :: "string \<Rightarrow> string option" where
  "SplitHostPort hp =
     (case last_index CHR '':'' hp of
        None \<Rightarrow> None
      | Some i \<Rightarrow>
          (if hd hp = CHR ''['' then
             (if CHR '']'' \<notin> set hp then None
              else
                let e = length (takeWhile (\<lambda>x. x \<noteq> CHR '']'') hp)
                in if e + 1 \<noteq> i then None
                   else if CHR ''['' \<in> set (drop 1 hp) \<or> CHR '']'' \<in> set (drop (e + 1) hp) then None
                   else Some (drop (i + 1) hp))
           else if CHR '':'' \<in> set (take i hp) then None
           else if CHR ''['' \<in> set hp \<or> CHR '']'' \<in> set hp then None
           else Some (drop (i + 1) hp)))"

definition ParsePort :: "string \<Rightarrow> num_error + int" where
  "ParsePort s =
     (case ParseInt64 (case SplitHostPort s of None \<Rightarrow> s | Some p \<Rightarrow> p) of
        (i, None) \<Rightarrow> Inr i | (_, Some e) \<Rightarrow> Inl e)"

definition docker_HealthManager ::
  "'d docker_client \<Rightarrow> (string \<Rightarrow> int \<Rightarrow> 'd net \<Rightarrow> bool \<times> 'd net) \<Rightarrow> ('d net \<Rightarrow> string) \<Rightarrow> 'd net HealthManager" where
  "docker_HealthManager c dial now = \<lparr>hm_Inspect = Inspect c, hm_dial = dial, hm_now = now\<rparr>"

section \<open>Properties\<close>

context state_order
begin

lemma probe_all_along:
  assumes "\<And>a t s. R s (snd (hm_dial m a t s))"
  shows "R s (snd (probe_all m t ports report s))"
proof (induction ports arbitrary: report s)
  case (Cons p ports)
  obtain b s1 where "hm_dial m (probe_address p) t s = (b, s1)" by (cases "hm_dial m (probe_address p) t s")
  moreover from this have "R s s1" using assms [of s "probe_address p" t] by simp
  ultimately show ?case using R_trans [OF _ Cons.IH] by (simp add: probePort_def Let_def)
qed (simp add: R_refl)

lemma Check_along:
  assumes "\<And>i. along R (hm_Inspect m i)" and "\<And>a t s. R s (snd (hm_dial m a t s))"
  shows "along R (Check m sid opts)"
proof -
  have "along R (\<lambda>s. case probe_all m t ports (f s) s of (report, s') \<Rightarrow> (Inr report, s'))" for t ports f
    using probe_all_along [OF assms(2)] by (simp add: along_def case_prod_beta)
  then show ?thesis unfolding Check_def by (intro along_laws assms(1))
qed

end

text \<open>The ports and whether they answered, in the order they are probed.\<close>

fun answers :: "'s HealthManager \<Rightarrow> int \<Rightarrow> string list \<Rightarrow> 's \<Rightarrow> bool list \<times> 's" where
  "answers m timeout [] s = ([], s)"
| "answers m timeout (p # ps) s =
     (case probePort m p timeout s of
        (b, s1) \<Rightarrow> (case answers m timeout ps s1 of (bs, s2) \<Rightarrow> (b # bs, s2)))"

lemma probe_all_answers:
  assumes "answers m t ports s = (bs, s')"
  shows "probe_all m t ports report s =
    (report\<lparr>hp_PortChecks := hp_PortChecks report @ map2 (\<lambda>p b. \<lparr>ph_HostPort = p, ph_Open = b\<rparr>) ports bs,
            hp_Healthy := hp_Healthy report \<and> list_all id bs\<rparr>, s')"
  using assms
proof (induction ports arbitrary: report s bs)
  case Nil
  then show ?case by simp
next
  case (Cons p ports)
  obtain b s1 where b: "probePort m p t s = (b, s1)" by (cases "probePort m p t s")
  obtain bs' where bs': "answers m t ports s1 = (bs', s')" "bs = b # bs'"
    using Cons.prems b by (auto split: prod.splits)
  show ?case using Cons.IH [OF bs'(1)] b bs'(2) by (simp add: Let_def)
qed

lemma answers_length: "length (fst (answers m t ports s)) = length ports"
  by (induction ports arbitrary: s) (auto split: prod.splits, metis fst_conv)

text \<open>
  Property C33. A container is reported healthy exactly when it is running, its health check
  (if it has one) says \<open>healthy\<close>, and every probed port answered; the report lists the
  ports with their answers in order.
\<close>

theorem Check_report:
  assumes "hm_Inspect m (ContainerName sid) s = (Inr st, s1)"
    and "answers m (probe_timeout opts) (op_ProbePorts opts) s1 = (bs, s2)"
  shows "\<exists>rep. Check m sid opts s = (Inr rep, s2) \<and>
    (hp_Healthy rep \<longleftrightarrow> rs_Running (st_State st) \<and>
       (\<forall>h. rs_Health (st_State st) = Some h \<longrightarrow> hs_Status h = ''healthy'') \<and> list_all id bs) \<and>
    map ph_HostPort (hp_PortChecks rep) = op_ProbePorts opts \<and> map ph_Open (hp_PortChecks rep) = bs"
proof -
  have "length bs = length (op_ProbePorts opts)"
    using answers_length [of m "probe_timeout opts" "op_ProbePorts opts" s1] assms(2) by simp
  then show ?thesis using assms probe_all_answers [OF assms(2)]
    by (auto simp: Check_def io_bind_def io_wrap_def base_health_def comp_def split_def
        split: option.splits)
qed

definition sample_HealthManager :: "unit HealthManager" where
  "sample_HealthManager =
     \<lparr>hm_Inspect = (\<lambda>_. io_return (zero_ContainerState\<lparr>st_State := zero_RunState\<lparr>rs_Running := True\<rparr>\<rparr>)),
      hm_dial = (\<lambda>a t s. (a = ''127.0.0.1:443'' \<and> t = 2 * Second, s)), hm_now = (\<lambda>_. ''2024-01-01T00:00:00Z'')\<rparr>"

theorem Check_report_witness:
  "\<exists>rep. Check sample_HealthManager ''s1'' \<lparr>op_ProbePorts = [''443''], op_TimeoutMs = 0\<rparr> () = (Inr rep, ()) \<and>
     hp_Healthy rep"
proof -
  let ?st = "zero_ContainerState\<lparr>st_State := zero_RunState\<lparr>rs_Running := True\<rparr>\<rparr>"
  let ?o = "\<lparr>op_ProbePorts = [''443''], op_TimeoutMs = 0\<rparr>"
  have "hm_Inspect sample_HealthManager (ContainerName ''s1'') () = (Inr ?st, ())"
    by (simp add: sample_HealthManager_def)
  moreover have "answers sample_HealthManager (probe_timeout ?o) (op_ProbePorts ?o) () = ([True], ())"
    by (simp add: sample_HealthManager_def probePort_def probe_address_def probe_timeout_def HasPrefix_def)
  ultimately show ?thesis using Check_report by (fastforce simp: zero_RunState_def)
qed

text \<open>The probe timeout can wrap around: this many milliseconds give a negative duration.\<close>

lemma probe_timeout_wraps: "probe_timeout \<lparr>op_ProbePorts = [], op_TimeoutMs = 9223372036855\<rparr> < 0"
  by code_simp

end
