(* ===== verification/Certs.thy ===== *)
theory Certs
  imports GoHost GoJson GoPath
begin

text \<open>
  Package \<open>certs\<close> (\<open>internal/certs/manager.go\<close>): a certificate request is validated and
  turned into the argument vector of one Certbot run.
\<close>

section \<open>Requests and reports\<close>

definition ActionIssue :: string where
  "ActionIssue = ''issue''"

definition ActionRenew :: string where
  "ActionRenew = ''renew''"

definition ActionRevoke :: string where
  "ActionRevoke = ''revoke''"

definition MethodStandalone :: string where
  "MethodStandalone = ''standalone''"

definition MethodWebroot :: string where
  "MethodWebroot = ''webroot''"

definition defaultCertbotPath :: string where
  "defaultCertbotPath = ''certbot''"

definition letsencryptLiveDir :: string where
  "letsencryptLiveDir = ''/etc/letsencrypt/live''"

record CertRequest =
  ce_Domain :: string
  ce_Domains :: "string list"
  ce_Action :: string
  ce_Method :: string
  ce_Email :: string
  ce_WebrootPath :: string
  ce_Staging :: bool
  ce_ForceRenewal :: bool
  ce_RevokeReason :: string

record CertReport =
  cx_Action :: string
  cx_Domain :: string
  cx_Domains :: "string list"
  cx_Method :: string
  cx_Staging :: bool
  cx_CertificateDir :: string
  cx_FullchainPath :: string
  cx_PrivateKeyPath :: string
  cx_Output :: string

definition zero_CertRequest :: CertRequest where
  "zero_CertRequest = \<lparr>ce_Domain = [], ce_Domains = [], ce_Action = [], ce_Method = [], ce_Email = [],
     ce_WebrootPath = [], ce_Staging = False, ce_ForceRenewal = False, ce_RevokeReason = []\<rparr>"

definition store_CertRequest :: "CertRequest store" where
  "store_CertRequest = store_struct ''certs.Request''
     [(''domain'', in_field ce_Domain ce_Domain_update store_string),
      (''domains'', in_field ce_Domains ce_Domains_update (store_slice [] store_string)),
      (''action'', in_field ce_Action ce_Action_update store_string),
      (''method'', in_field ce_Method ce_Method_update store_string),
      (''email'', in_field ce_Email ce_Email_update store_string),
      (''webroot_path'', in_field ce_WebrootPath ce_WebrootPath_update store_string),
      (''staging'', in_field ce_Staging ce_Staging_update store_bool),
      (''force_renewal'', in_field ce_ForceRenewal ce_ForceRenewal_update store_bool),
      (''revoke_reason'', in_field ce_RevokeReason ce_RevokeReason_update store_string)]"

text \<open>Members with \<open>omitempty\<close> are left out when they are empty.\<close>

definition opt_str :: "string \<Rightarrow> string \<Rightarrow> (string \<times> json) list" where
  "opt_str k s = (if s = [] then [] else [(k, JStr s)])"

definition CertReport_json :: "CertReport \<Rightarrow> json" where
  "CertReport_json r = JObj (
     [(''action'', JStr (cx_Action r)), (''domain'', JStr (cx_Domain r))] @
     (if cx_Domains r = [] then [] else [(''domains'', JArr (map JStr (cx_Domains r)))]) @
     opt_str ''method'' (cx_Method r) @
     (if cx_Staging r then [(''staging'', JBool True)] else []) @
     opt_str ''certificate_dir'' (cx_CertificateDir r) @
     opt_str ''fullchain_path'' (cx_FullchainPath r) @
     opt_str ''private_key_path'' (cx_PrivateKeyPath r) @
     opt_str ''output'' (cx_Output r))"

section \<open>Validation of domain names\<close>

definition ldh :: "char \<Rightarrow> bool" where
  "ldh c \<longleftrightarrow> (97 \<le> code c \<and> code c \<le> 122) \<or> (48 \<le> code c \<and> code c \<le> 57) \<or> c = CHR ''-''"

fun check_chars :: "string \<Rightarrow> string \<Rightarrow> goerror option" where
  "check_chars label [] = None"
| "check_chars label (c # cs) =
     (if ldh c then check_chars label cs
      else Some (ErrNew (''label '' @ Quote label @ '' contains invalid character '' @ quote_rune c)))"

fun check_labels :: "string list \<Rightarrow> goerror option" where
  "check_labels [] = None"
| "check_labels (label # labels) =
     (if label = [] then Some (ErrNew ''contains an empty label'')
      else if length label > 63 then Some (ErrNew (''label '' @ Quote label @ '' is too long''))
      else if hd label = CHR ''-'' \<or> last label = CHR ''-'' then
        Some (ErrNew (''label '' @ Quote label @ '' starts or ends with hyphen''))
      else case check_chars label label of
        Some e \<Rightarrow> Some e
      | None \<Rightarrow> check_labels labels)"

definition normalizeDomain :: "string \<Rightarrow> goerror + string" where
  "normalizeDomain raw =
     (let domain = ToLower (TrimSuffix (TrimSpace raw) ''.'')
      in if domain = [] then Inl (ErrNew ''is required'')
         else if length domain > 253 then Inl (ErrNew ''is too long'')
         else
           let labels = Split CHR ''.'' domain
           in if length labels < 2 then Inl (ErrNew ''must be a fully qualified domain name'')
              else case check_labels labels of
                Some e \<Rightarrow> Inl e
              | None \<Rightarrow> Inr domain)"

fun add_domains :: "string list \<Rightarrow> string list \<Rightarrow> goerror + string list" where
  "add_domains domains [] = Inr domains"
| "add_domains domains (raw # extra) =
     (case normalizeDomain raw of
        Inl e \<Rightarrow> Inl (ErrWrap ''domains: '' e [])
      | Inr domain \<Rightarrow>
          (let seen = list_ex (\<lambda>existing. existing = domain) domains
           in add_domains (if \<not> seen then domains @ [domain] else domains) extra))"

definition normalizeDomains :: "string \<Rightarrow> string list \<Rightarrow> goerror + string list" where
  "normalizeDomains primary extra = add_domains [primary] extra"

section \<open>Arguments of Certbot\<close>

definition validRevokeReason :: "string \<Rightarrow> bool" where
  "validRevokeReason reason \<longleftrightarrow>
     reason = ''keycompromise'' \<or> reason = ''affiliationchanged'' \<or> reason = ''superseded'' \<or>
     reason = ''cessationofoperation''"

definition challengeArgs :: "string \<Rightarrow> string \<Rightarrow> goerror + string list \<times> string" where
  "challengeArgs method0 webrootPath =
     (let method = (if method0 = [] then MethodStandalone else method0)
      in if method = MethodStandalone then
           (if webrootPath \<noteq> [] then Inl (ErrNew (''webroot_path requires method '' @ Quote MethodWebroot))
            else Inr ([''--standalone''], method))
         else if method = MethodWebroot then
           (if webrootPath = [] then Inl (ErrNew ''webroot_path is required for webroot challenge'')
            else if \<not> filepath_IsAbs webrootPath then Inl (ErrNew ''webroot_path must be absolute'')
            else Inr ([''--webroot'', ''--webroot-path'', webrootPath], method))
         else Inl (ErrNew (''unsupported certificate method '' @ Quote method)))"

definition issueArgs :: "CertRequest \<Rightarrow> string \<Rightarrow> string list \<Rightarrow> goerror + string list \<times> string" where
  "issueArgs req domain domains =
     (if TrimSpace (ce_Email req) = [] then Inl (ErrNew ''email is required for certificate issuance'')
      else
        result_bind (challengeArgs (ce_Method req) (ce_WebrootPath req)) (\<lambda>(methodArgs, method).
          Inr ([''certonly'', ''--non-interactive'', ''--agree-tos'', ''--cert-name'', domain, ''--email'',
                TrimSpace (ce_Email req)] @ methodArgs @
               (if ce_Staging req then [''--test-cert''] else []) @
               (if ce_ForceRenewal req then [''--force-renewal''] else []) @
               concat (map (\<lambda>d. [''-d'', d]) domains), method)))"

definition renewArgs :: "CertRequest \<Rightarrow> string \<Rightarrow> goerror + string list" where
  "renewArgs req domain =
     (if ce_WebrootPath req \<noteq> [] \<and> \<not> filepath_IsAbs (ce_WebrootPath req)
      then Inl (ErrNew ''webroot_path must be absolute'')
      else Inr ([''renew'', ''--non-interactive'', ''--cert-name'', domain] @
                (if ce_WebrootPath req \<noteq> [] then [''--webroot-path'', ce_WebrootPath req] else []) @
                (if ce_Staging req then [''--test-cert''] else []) @
                (if ce_ForceRenewal req then [''--force-renewal''] else [])))"

definition revokeArgs :: "CertRequest \<Rightarrow> string \<Rightarrow> goerror + string list" where
  "revokeArgs req domain =
     (let args = [''revoke'', ''--non-interactive'', ''--cert-name'', domain, ''--delete-after-revoke'']
      in if ce_RevokeReason req \<noteq> [] then
           (if \<not> validRevokeReason (ce_RevokeReason req)
            then Inl (ErrNew (''unsupported revoke_reason '' @ Quote (ce_RevokeReason req)))
            else Inr (args @ [''--reason'', ce_RevokeReason req]))
         else Inr args)"

definition base_report :: "CertRequest \<Rightarrow> string \<Rightarrow> string list \<Rightarrow> CertReport" where
  "base_report req domain domains =
     \<lparr>cx_Action = ce_Action req, cx_Domain = domain, cx_Domains = domains, cx_Method = [],
      cx_Staging = ce_Staging req,
      cx_CertificateDir = filepath_Join [letsencryptLiveDir, domain],
      cx_FullchainPath = filepath_Join [letsencryptLiveDir, domain, ''fullchain.pem''],
      cx_PrivateKeyPath = filepath_Join [letsencryptLiveDir, domain, ''privkey.pem''],
      cx_Output = []\<rparr>"

definition buildCertbotCommand :: "CertRequest \<Rightarrow> goerror + string list \<times> CertReport" where
  "buildCertbotCommand req =
     result_bind (map_error (\<lambda>e. ErrWrap ''domain: '' e []) (normalizeDomain (ce_Domain req))) (\<lambda>domain.
     result_bind (normalizeDomains domain (ce_Domains req)) (\<lambda>domains.
     let report = base_report req domain domains in
     if ce_Action req = ActionIssue then
       result_bind (issueArgs req domain domains) (\<lambda>(args, method). Inr (args, report\<lparr>cx_Method := method\<rparr>))
     else if ce_Action req = ActionRenew then
       result_bind (renewArgs req domain) (\<lambda>args. Inr (args, report))
     else if ce_Action req = ActionRevoke then
       result_bind (revokeArgs req domain) (\<lambda>args. Inr (args, report))
     else Inl (ErrNew (''unsupported certificate action '' @ Quote (ce_Action req)))))"

section \<open>Manager\<close>

type_synonym 's cert_runner = "string \<Rightarrow> string list \<Rightarrow> 's \<Rightarrow> (string \<times> goerror option) \<times> 's"

definition certs_execRunner :: "'h os_exec \<Rightarrow> 'h host cert_runner" where
  "certs_execRunner os name args h =
     (case run_command os name args h of (o1, h') \<Rightarrow> ((TrimSpace (eo_Combined o1), eo_Err o1), h'))"

record 's CertManager =
  cm_certbotPath :: string
  cm_runner :: "'s cert_runner"

definition certs_NewManager :: "'h os_exec \<Rightarrow> 'h host CertManager" where
  "certs_NewManager os = \<lparr>cm_certbotPath = defaultCertbotPath, cm_runner = certs_execRunner os\<rparr>"

definition NewManagerWithBinary :: "'h os_exec \<Rightarrow> string \<Rightarrow> 'h host CertManager" where
  "NewManagerWithBinary os path =
     \<lparr>cm_certbotPath = (if path = [] then defaultCertbotPath else path), cm_runner = certs_execRunner os\<rparr>"

text \<open>\<open>Manage\<close> returns both a report and an error when Certbot fails.\<close>

definition Manage :: "'s CertManager \<Rightarrow> CertRequest \<Rightarrow> 's \<Rightarrow> (CertReport option \<times> goerror option) \<times> 's" where
  "Manage m req s =
     (case buildCertbotCommand req of
        Inl e \<Rightarrow> ((None, Some e), s)
      | Inr (args, report) \<Rightarrow>
          (case cm_runner m (cm_certbotPath m) args s of
             ((out, err), s') \<Rightarrow>
               ((Some (report\<lparr>cx_Output := out\<rparr>),
                 map_option (\<lambda>e. ErrWrap (''certbot '' @ ce_Action req @ '' failed: '') e
                   (if out \<noteq> [] then '': '' @ out else [])) err), s')))"

section \<open>Domain names\<close>

text \<open>The names the manager accepts: dotted labels of lower-case letters, digits and inner hyphens.\<close>

definition valid_label :: "string \<Rightarrow> bool" where
  "valid_label l \<longleftrightarrow> l \<noteq> [] \<and> length l \<le> 63 \<and> hd l \<noteq> CHR ''-'' \<and> last l \<noteq> CHR ''-'' \<and> list_all ldh l"

definition valid_domain :: "string \<Rightarrow> bool" where
  "valid_domain d \<longleftrightarrow>
     length d \<le> 253 \<and> 2 \<le> length (Split CHR ''.'' d) \<and> list_all valid_label (Split CHR ''.'' d)"

lemma check_chars_None: "check_chars label cs = None \<longleftrightarrow> list_all ldh cs"
  by (induction cs) simp_all

lemma check_labels_None: "check_labels ls = None \<longleftrightarrow> list_all valid_label ls"
proof (induction ls)
  case Nil
  then show ?case by simp
next
  case (Cons l ls)
  then show ?case
    using check_chars_None [of l l] by (auto simp: valid_label_def split: option.splits)
qed

lemma normalizeDomain_Inr:
  "normalizeDomain raw = Inr d \<longleftrightarrow> d = ToLower (TrimSuffix (TrimSpace raw) ''.'') \<and> valid_domain d"
  by (auto simp: normalizeDomain_def valid_domain_def Let_def check_labels_None [symmetric]
      split: option.splits if_splits)

lemma normalizeDomain_valid: "normalizeDomain raw = Inr d \<Longrightarrow> valid_domain d"
  by (metis normalizeDomain_Inr)

lemma last_join_with:
  assumes "ws \<noteq> []" and "last ws \<noteq> []"
  shows "last (join_with sep ws) = last (last ws)"
proof -
  have "join_with sep ws \<noteq> [] \<and> last (join_with sep ws) = last (last ws)" using assms
  proof (induction ws)
    case (Cons w ws)
    then show ?case by (cases "ws = []") (simp_all add: join_with_Cons)
  qed simp
  then show ?thesis ..
qed

lemma valid_domain_ends:
  assumes "valid_domain d"
  shows "d \<noteq> []" and "hd d \<noteq> CHR ''-''" and "hd d \<noteq> CHR ''.''" and "last d \<noteq> CHR ''.''"
proof -
  let ?ls = "Split CHR ''.'' d"
  have ne: "?ls \<noteq> []" by simp
  obtain l ls where ls: "?ls = l # ls" using ne by (cases ?ls) auto
  have l: "valid_label l" using assms ls by (simp add: valid_domain_def)
  have d: "d = join_with CHR ''.'' ?ls" by (simp add: join_Split)
  show "d \<noteq> []" using assms by (auto simp: valid_domain_def)
  have hd: "hd d = hd l" using d ls l by (cases ls) (auto simp: valid_label_def join_with_Cons)
  then show "hd d \<noteq> CHR ''-''" using l by (simp add: valid_label_def)
  have "CHR ''.'' \<notin> set l" using Split_no_sep [of l "CHR ''.''" d] ls by simp
  then show "hd d \<noteq> CHR ''.''" using hd l by (metis hd_in_set valid_label_def)
  have lastl: "last ?ls \<noteq> []" "CHR ''.'' \<notin> set (last ?ls)"
    using assms ne Split_no_sep [of "last ?ls" "CHR ''.''" d] by (auto simp: valid_domain_def list_all_iff valid_label_def)
  have "last d = last (last ?ls)" using last_join_with [OF ne lastl(1), of "CHR ''.''"] d by simp
  then show "last d \<noteq> CHR ''.''" using lastl last_in_set by metis
qed

lemma valid_domain_bytes:
  assumes "valid_domain d" and "c \<in> set d"
  shows "ldh c \<or> c = CHR ''.''"
proof -
  have "set (join_with sep ws) \<subseteq> insert sep (\<Union> (set ` set ws))" for sep ws
    by (induction sep ws rule: join_with.induct) auto
  from this [of "CHR ''.''" "Split CHR ''.'' d"] show ?thesis
    using assms by (auto simp: join_Split valid_domain_def list_all_iff valid_label_def)
qed

lemma ldh_code: "ldh c \<or> c = CHR ''.'' \<Longrightarrow> 45 \<le> code c \<and> code c < 128 \<and> \<not> is_upper c \<and> c \<noteq> CHR ''/''"
  by (auto simp: ldh_def is_upper_def)

lemma trim_left_stop:
  assumes "\<And>r. r \<in> set rs \<Longrightarrow> r \<noteq> [] \<and> (s = [] \<or> hd r \<noteq> hd s)"
  shows "trim_left rs n s = s"
proof (cases n)
  case (Suc k)
  have "find (HasPrefix s) rs = None"
    unfolding find_None_iff
  proof
    assume "\<exists>r. r \<in> set rs \<and> HasPrefix s r"
    then obtain r t where r: "r \<in> set rs" "s = r @ t" by (auto simp: HasPrefix_iff_prefix prefix_def)
    then show False using assms [of r] by auto
  qed
  then show ?thesis using Suc by simp
qed simp

lemma TrimSpace_stop:
  assumes "s \<noteq> []" and "33 \<le> code (hd s)" "code (hd s) < 128" "33 \<le> code (last s)" "code (last s) < 128"
  shows "TrimSpace s = s"
proof -
  have runes: "list_all (\<lambda>r. r \<noteq> [] \<and> (code (hd r) < 33 \<or> 128 \<le> code (hd r)) \<and>
      (code (last r) < 33 \<or> 128 \<le> code (last r))) space_runes" by code_simp
  have a: "\<And>r. r \<in> set space_runes \<Longrightarrow> r \<noteq> [] \<and> hd r \<noteq> hd s"
    using assms runes by (fastforce simp: list_all_iff)
  have b: "\<And>r. r \<in> set (map rev space_runes) \<Longrightarrow> r \<noteq> [] \<and> hd r \<noteq> hd (rev s)"
    using assms runes by (fastforce simp: list_all_iff hd_rev)
  have "trim_left space_runes (length s) s = s" by (rule trim_left_stop) (use a in blast)
  moreover have "trim_left (map rev space_runes) (length s) (rev s) = rev s"
    by (rule trim_left_stop) (use b in blast)
  ultimately show ?thesis by (simp add: TrimSpace_def)
qed

lemma ToLower_stop:
  assumes "\<forall>c \<in> set s. code c < 128 \<and> \<not> is_upper c"
  shows "ToLower s = s"
  using assms by (induction s rule: ToLower.induct) (auto simp: lower_byte_def)

lemma valid_domain_fixed: "valid_domain d \<Longrightarrow> normalizeDomain d = Inr d"
proof -
  assume v: "valid_domain d"
  note ends = valid_domain_ends [OF v]
  have codes: "45 \<le> code c \<and> code c < 128 \<and> \<not> is_upper c" if "c \<in> set d" for c
    using ldh_code valid_domain_bytes [OF v that] by blast
  have "TrimSpace d = d"
    using ends(1) codes [of "hd d"] codes [of "last d"] by (intro TrimSpace_stop) auto
  moreover have "\<not> HasSuffix d ''.''"
    using ends(1,4) by (auto simp: HasSuffix_iff_suffix suffix_def)
  moreover have "ToLower d = d" using codes by (intro ToLower_stop) blast
  ultimately show ?thesis using v by (simp add: normalizeDomain_Inr TrimSuffix_def)
qed

section \<open>The command line\<close>

definition certbot_flags :: "string list" where
  "certbot_flags = [''--non-interactive'', ''--agree-tos'', ''--cert-name'', ''--email'', ''--standalone'',
     ''--webroot'', ''--webroot-path'', ''--test-cert'', ''--force-renewal'', ''-d'',
     ''--delete-after-revoke'', ''--reason'']"

definition is_option :: "string \<Rightarrow> bool" where
  "is_option a = HasPrefix a ''-''"

lemma is_option_Cons [simp]: "is_option (c # cs) \<longleftrightarrow> c = CHR ''-''" "\<not> is_option []"
  by (simp_all add: is_option_def HasPrefix_def)

lemma valid_domain_not_option: "valid_domain d \<Longrightarrow> \<not> is_option d"
  using valid_domain_ends(1,2) [of d] by (cases d) auto

lemma IsAbs_not_option: "filepath_IsAbs p \<Longrightarrow> \<not> is_option p"
  by (cases p) (auto simp: filepath_IsAbs_def HasPrefix_def)

lemma add_domains_Inr:
  assumes "add_domains ds ex = Inr ds'" and "distinct ds" and "ds \<noteq> []"
  shows "distinct ds' \<and> hd ds' = hd ds \<and> ds' \<noteq> [] \<and>
    set ds' = set ds \<union> {d. \<exists>raw \<in> set ex. normalizeDomain raw = Inr d}"
  using assms
proof (induction ds ex rule: add_domains.induct)
  case (1 ds)
  then show ?case by simp
next
  case (2 ds raw ex)
  then obtain d where d: "normalizeDomain raw = Inr d" by (cases "normalizeDomain raw") auto
  let ?ds = "if d \<in> set ds then ds else ds @ [d]"
  have "add_domains ?ds ex = Inr ds'" "distinct ?ds" "?ds \<noteq> []"
    using "2.prems" d by (auto simp: list_ex_iff Let_def split: if_splits)
  then have "distinct ds' \<and> hd ds' = hd ?ds \<and> ds' \<noteq> [] \<and>
      set ds' = set ?ds \<union> {d. \<exists>raw \<in> set ex. normalizeDomain raw = Inr d}"
    using "2.IH" [OF d refl] by (cases "d \<in> set ds") (simp_all add: list_ex_iff)
  then show ?case using d "2.prems"(3) by auto
qed

lemma normalizeDomains_Inr:
  assumes "normalizeDomains p ex = Inr ds"
  shows "distinct ds" and "hd ds = p" and "ds \<noteq> []"
    and "set ds = insert p {d. \<exists>raw \<in> set ex. normalizeDomain raw = Inr d}"
  using add_domains_Inr [of "[p]" ex ds] assms by (simp_all add: normalizeDomains_def)

text \<open>What a command that was built looks like, one case per action.\<close>

lemma buildCertbotCommand_Inr:
  assumes "buildCertbotCommand req = Inr (args, rep)"
  obtains domain domains where
    "normalizeDomain (ce_Domain req) = Inr domain"
    "normalizeDomains domain (ce_Domains req) = Inr domains"
    "cx_Domain rep = domain" "cx_Domains rep = domains"
    "cx_CertificateDir rep = filepath_Join [letsencryptLiveDir, domain]"
    "cx_FullchainPath rep = filepath_Join [letsencryptLiveDir, domain, ''fullchain.pem'']"
    "cx_PrivateKeyPath rep = filepath_Join [letsencryptLiveDir, domain, ''privkey.pem'']"
    "(ce_Action req = ActionIssue \<and> issueArgs req domain domains = Inr (args, cx_Method rep)) \<or>
     (ce_Action req = ActionRenew \<and> renewArgs req domain = Inr args) \<or>
     (ce_Action req = ActionRevoke \<and> revokeArgs req domain = Inr args)"
proof -
  from assms obtain domain domains where
    n: "normalizeDomain (ce_Domain req) = Inr domain"
      "normalizeDomains domain (ce_Domains req) = Inr domains"
    by (auto simp: buildCertbotCommand_def result_bind_eq_Inr map_error_eq_Inr)
  show thesis
    by (rule that [OF n])
       (use assms n in \<open>auto simp: buildCertbotCommand_def Let_def base_report_def result_bind_eq_Inr
          split: if_splits\<close>)
qed

text \<open>An argument that is no option or one of the fixed options.\<close>

definition fixed_arg :: "string \<Rightarrow> bool" where
  "fixed_arg a \<longleftrightarrow> \<not> is_option a \<or> List.member certbot_flags a"

lemma fixed_arg_literals [simp]:
  "fixed_arg ''certonly''" "fixed_arg ''renew''" "fixed_arg ''revoke''" "fixed_arg ''--non-interactive''"
  "fixed_arg ''--agree-tos''" "fixed_arg ''--cert-name''" "fixed_arg ''--email''"
  "fixed_arg ''--standalone''" "fixed_arg ''--webroot''" "fixed_arg ''--webroot-path''"
  "fixed_arg ''--test-cert''" "fixed_arg ''--force-renewal''" "fixed_arg ''-d''"
  "fixed_arg ''--delete-after-revoke''" "fixed_arg ''--reason''"
  by code_simp+

lemma fixed_arg_plain [simp]: "\<not> is_option a \<Longrightarrow> fixed_arg a"
  by (simp add: fixed_arg_def)

lemma challengeArgs_fixed: "challengeArgs m w = Inr (args, m') \<Longrightarrow> list_all fixed_arg args"
  by (auto simp: challengeArgs_def Let_def IsAbs_not_option split: if_splits)

lemma issueArgs_fixed:
  assumes "issueArgs req domain domains = Inr (args, m)"
    and "\<not> is_option domain" and "\<forall>d \<in> set domains. \<not> is_option d"
  shows "list_all (\<lambda>a. fixed_arg a \<or> a = TrimSpace (ce_Email req)) args"
proof -
  obtain margs where m: "challengeArgs (ce_Method req) (ce_WebrootPath req) = Inr (margs, m)"
    and args: "args = [''certonly'', ''--non-interactive'', ''--agree-tos'', ''--cert-name'', domain, ''--email'',
        TrimSpace (ce_Email req)] @ margs @
        (if ce_Staging req then [''--test-cert''] else []) @
        (if ce_ForceRenewal req then [''--force-renewal''] else []) @
        concat (map (\<lambda>d. [''-d'', d]) domains)"
    using assms(1) by (auto simp: issueArgs_def result_bind_eq_Inr simp del: append.simps split: if_splits)
  have "list_all fixed_arg (concat (map (\<lambda>d. [''-d'', d]) domains))"
    using assms(3) by (induction domains) simp_all
  moreover have "list_all (\<lambda>a. fixed_arg a \<or> a = TrimSpace (ce_Email req)) xs" if "list_all fixed_arg xs" for xs
    using that by (simp add: list_all_iff)
  ultimately show ?thesis using challengeArgs_fixed [OF m] assms(2) unfolding args by simp
qed

lemma renewArgs_fixed: "renewArgs req domain = Inr args \<Longrightarrow> \<not> is_option domain \<Longrightarrow> list_all fixed_arg args"
  by (auto simp: renewArgs_def IsAbs_not_option split: if_splits)

lemma validRevokeReason_plain: "validRevokeReason r \<Longrightarrow> \<not> is_option r"
  by (auto simp: validRevokeReason_def)

lemma revokeArgs_fixed: "revokeArgs req domain = Inr args \<Longrightarrow> \<not> is_option domain \<Longrightarrow> list_all fixed_arg args"
  by (auto simp: revokeArgs_def Let_def validRevokeReason_plain split: if_splits)

lemma valid_domain_no_slash: "valid_domain d \<Longrightarrow> CHR ''/'' \<notin> set d"
proof
  assume "valid_domain d" and "CHR ''/'' \<in> set d"
  from valid_domain_bytes [OF this] show False by (simp add: ldh_def)
qed

lemma valid_domain_single: "valid_domain d \<Longrightarrow> Split CHR ''/'' d = [d]"
proof -
  assume "valid_domain d"
  then have "CHR ''/'' \<notin> set d" by (rule valid_domain_no_slash)
  then show ?thesis
  proof (induction d)
    case (Cons c d)
    then show ?case by auto
  qed simp
qed

lemma valid_domain_no_dots: "valid_domain d \<Longrightarrow> d \<noteq> [] \<and> d \<noteq> ''.'' \<and> d \<noteq> ''..''"
  using valid_domain_ends(1,3) [of d] by auto

lemma Split_append_sep: "sep \<notin> set w \<Longrightarrow> Split sep (w @ sep # s) = w # Split sep s"
  by (induction w) auto

lemma Split_live:
  "Split CHR ''/'' (letsencryptLiveDir @ CHR ''/'' # w) =
     [[], ''etc'', ''letsencrypt'', ''live''] @ Split CHR ''/'' w"
proof -
  have "letsencryptLiveDir @ CHR ''/'' # w =
      [] @ CHR ''/'' # (''etc'' @ CHR ''/'' # (''letsencrypt'' @ CHR ''/'' # (''live'' @ CHR ''/'' # w)))"
    by (simp add: letsencryptLiveDir_def)
  then show ?thesis by (simp only:, (subst Split_append_sep, simp)+) simp
qed

lemma Clean_live:
  "filepath_Clean (letsencryptLiveDir @ CHR ''/'' # w) =
     ''/'' @ join_with CHR ''/'' (clean_parts True [''live'', ''letsencrypt'', ''etc''] (Split CHR ''/'' w))"
proof -
  have abs: "filepath_IsAbs (letsencryptLiveDir @ CHR ''/'' # w)"
    by (simp add: filepath_IsAbs_def letsencryptLiveDir_def HasPrefix_def)
  show ?thesis unfolding filepath_Clean_def Split_live using abs by simp
qed

lemma Join_live:
  assumes "valid_domain d"
  shows "filepath_Join [letsencryptLiveDir, d] = letsencryptLiveDir @ ''/'' @ d"
    and "f \<noteq> [] \<Longrightarrow> f \<noteq> ''.'' \<Longrightarrow> f \<noteq> ''..'' \<Longrightarrow> Split CHR ''/'' f = [f] \<Longrightarrow>
      filepath_Join [letsencryptLiveDir, d, f] = letsencryptLiveDir @ ''/'' @ d @ ''/'' @ f"
proof -
  note d = valid_domain_no_dots [OF assms]
  have live: "letsencryptLiveDir \<noteq> []"
    "letsencryptLiveDir = ''/'' @ join_with CHR ''/'' [''etc'', ''letsencrypt'', ''live'']"
    by (simp_all add: letsencryptLiveDir_def)
  show "filepath_Join [letsencryptLiveDir, d] = letsencryptLiveDir @ ''/'' @ d"
    using d live(1) by (simp add: filepath_Join_def Clean_live valid_domain_single [OF assms])
      (simp add: letsencryptLiveDir_def)
  assume f: "f \<noteq> []" "f \<noteq> ''.''" "f \<noteq> ''..''" "Split CHR ''/'' f = [f]"
  have "CHR ''/'' \<notin> set d" using assms by (rule valid_domain_no_slash)
  then have "Split CHR ''/'' (d @ CHR ''/'' # f) = [d, f]" using f by (simp add: Split_append_sep)
  then show "filepath_Join [letsencryptLiveDir, d, f] = letsencryptLiveDir @ ''/'' @ d @ ''/'' @ f"
    using d live(1) f by (simp add: filepath_Join_def Clean_live) (simp add: letsencryptLiveDir_def)
qed

section \<open>Properties\<close>

context state_order
begin

lemma Manage_along:
  assumes "\<And>name args s. R s (snd (cm_runner m name args s))"
  shows "R s (snd (Manage m req s))"
  using assms [of s "cm_certbotPath m"]
  by (auto simp: Manage_def R_refl split: sum.splits prod.splits) (metis snd_conv)

end

text \<open>
  Property C21. A domain the manager accepts is a well-formed host name: at most 253 bytes,
  at least two labels of 1 to 63 lower-case letters, digits and inner hyphens.
\<close>

theorem normalizeDomain_sound:
  assumes "normalizeDomain raw = Inr d"
  shows "valid_domain d \<and> normalizeDomain d = Inr d"
  using normalizeDomain_valid [OF assms] valid_domain_fixed by blast

theorem normalizeDomain_sound_witness:
  "valid_domain ''vpn-1.example.com'' \<and> normalizeDomain ''vpn-1.example.com'' = Inr ''vpn-1.example.com''"
proof (rule normalizeDomain_sound)
  show "normalizeDomain '' VPN-1.Example.com. '' = Inr ''vpn-1.example.com''" by code_simp
qed

text \<open>
  Property C22. Every well-formed host name is accepted and not changed.
\<close>

theorem normalizeDomain_complete:
  assumes "valid_domain d"
  shows "normalizeDomain d = Inr d"
  using assms by (rule valid_domain_fixed)

theorem normalizeDomain_complete_witness: "normalizeDomain ''a-1.b.example'' = Inr ''a-1.b.example''"
  by (rule normalizeDomain_complete) code_simp



text \<open>
  Property C24. No argument injection: every argument of the Certbot run that starts with a
  hyphen is one of the twelve options the manager knows, or the e-mail address of an issue
  request; domains, paths and reasons never are options.
\<close>

theorem buildCertbotCommand_options:
  assumes "buildCertbotCommand req = Inr (args, rep)"
  shows "list_all (\<lambda>a. is_option a \<longrightarrow> List.member certbot_flags a \<or>
           (ce_Action req = ActionIssue \<and> a = TrimSpace (ce_Email req))) args"
proof -
  from assms obtain domain domains where
    d: "normalizeDomain (ce_Domain req) = Inr domain"
    and ds: "normalizeDomains domain (ce_Domains req) = Inr domains"
    and c: "(ce_Action req = ActionIssue \<and> issueArgs req domain domains = Inr (args, cx_Method rep)) \<or>
     (ce_Action req = ActionRenew \<and> renewArgs req domain = Inr args) \<or>
     (ce_Action req = ActionRevoke \<and> revokeArgs req domain = Inr args)"
    by (rule buildCertbotCommand_Inr) blast
  have 1: "\<not> is_option domain" using valid_domain_not_option [OF normalizeDomain_valid [OF d]] .
  have 2: "\<forall>x \<in> set domains. \<not> is_option x"
  proof
    fix x assume "x \<in> set domains"
    then consider "x = domain" | raw where "normalizeDomain raw = Inr x"
      using normalizeDomains_Inr(4) [OF ds] by auto
    then show "\<not> is_option x" using 1 normalizeDomain_valid valid_domain_not_option by cases blast+
  qed
  have "(ce_Action req = ActionIssue \<and> list_all (\<lambda>a. fixed_arg a \<or> a = TrimSpace (ce_Email req)) args) \<or>
      list_all fixed_arg args"
    using c issueArgs_fixed [OF _ 1 2] renewArgs_fixed [OF _ 1] revokeArgs_fixed [OF _ 1] by blast
  then show ?thesis by (auto simp: fixed_arg_def list_all_iff)
qed

definition sample_issue :: CertRequest where
  "sample_issue = zero_CertRequest\<lparr>ce_Domain := ''Example.com'', ce_Domains := [''www.example.com''],
     ce_Action := ''issue'', ce_Email := ''ops@example.com'', ce_Method := ''webroot'',
     ce_WebrootPath := ''/var/www'', ce_Staging := True\<rparr>"

theorem buildCertbotCommand_options_witness:
  "is_ok (buildCertbotCommand sample_issue) \<and>
   list_all (\<lambda>a. is_option a \<longrightarrow> List.member certbot_flags a \<or>
     (ce_Action sample_issue = ActionIssue \<and> a = TrimSpace (ce_Email sample_issue)))
     (fst (projr (buildCertbotCommand sample_issue)))"
proof -
  have ok: "is_ok (buildCertbotCommand sample_issue)" by code_simp
  then obtain args rep where r: "buildCertbotCommand sample_issue = Inr (args, rep)"
    by (auto simp: is_ok_iff)
  from buildCertbotCommand_options [OF r] ok r show ?thesis by simp
qed

text \<open>
  Property C25. The files a report names lie in the directory of the certificate below
  \<open>/etc/letsencrypt/live\<close>: a domain cannot lead out of it.
\<close>

theorem buildCertbotCommand_paths:
  assumes "buildCertbotCommand req = Inr (args, rep)"
  shows "valid_domain (cx_Domain rep) \<and>
    cx_CertificateDir rep = letsencryptLiveDir @ ''/'' @ cx_Domain rep \<and>
    cx_FullchainPath rep = cx_CertificateDir rep @ ''/fullchain.pem'' \<and>
    cx_PrivateKeyPath rep = cx_CertificateDir rep @ ''/privkey.pem''"
proof -
  from assms obtain domain where
    d: "normalizeDomain (ce_Domain req) = Inr domain" "cx_Domain rep = domain"
    and p: "cx_CertificateDir rep = filepath_Join [letsencryptLiveDir, domain]"
      "cx_FullchainPath rep = filepath_Join [letsencryptLiveDir, domain, ''fullchain.pem'']"
      "cx_PrivateKeyPath rep = filepath_Join [letsencryptLiveDir, domain, ''privkey.pem'']"
    by (rule buildCertbotCommand_Inr) blast
  have v: "valid_domain domain" using normalizeDomain_valid [OF d(1)] .
  show ?thesis using v d(2) p
    by (simp add: Join_live(1) Join_live(2) [of domain "''fullchain.pem''"] Join_live(2) [of domain "''privkey.pem''"])
qed

theorem buildCertbotCommand_paths_witness:
  "cx_PrivateKeyPath (snd (projr (buildCertbotCommand sample_issue))) =
     ''/etc/letsencrypt/live/example.com/privkey.pem''"
proof -
  have "is_ok (buildCertbotCommand sample_issue)" by code_simp
  then obtain args rep where r: "buildCertbotCommand sample_issue = Inr (args, rep)"
    by (auto simp: is_ok_iff)
  moreover have "cx_Domain (snd (projr (buildCertbotCommand sample_issue))) = ''example.com''" by code_simp
  ultimately show ?thesis using buildCertbotCommand_paths [OF r] by (simp add: letsencryptLiveDir_def)
qed

text \<open>
  Property C26. One request runs Certbot once with the arguments that were built, and a
  request that is refused runs nothing.
\<close>

theorem Manage_runs_once:
  "ran (snd (Manage (certs_NewManager os) req h)) =
     ran h @ (case buildCertbotCommand req of
        Inl _ \<Rightarrow> []
      | Inr (args, _) \<Rightarrow>
          [\<lparr>cmd_name = ''certbot'', cmd_args = args,
            cmd_ok = snd (fst (Manage (certs_NewManager os) req h)) = None\<rparr>])"
  by (auto simp: Manage_def certs_NewManager_def certs_execRunner_def run_command_def defaultCertbotPath_def
      split: sum.splits prod.splits)

end
