(* ===== verification/Handlers.thy ===== *)
theory Handlers
  imports Executor Installer Service Tunnel Firewall Health Certs
begin

text \<open>
  The operation handlers (\<open>internal/executor/handlers.go\<close>): each decodes its payload, calls a
  manager, and turns the outcome into a result. A manager is given by the interface it
  works on, so a handler acts on the state of that interface.
\<close>

definition decode_payload :: "string \<Rightarrow> 'r store \<Rightarrow> 'r \<Rightarrow> raw_json \<Rightarrow> goerror + 'r" where
  "decode_payload msg st zero data =
     (case Unmarshal st data zero of (x, None) \<Rightarrow> Inr x | (_, Some e) \<Rightarrow> Inl (ErrWrap msg e []))"

definition succeeded :: "string \<Rightarrow> raw_json \<Rightarrow> OpResult option" where
  "succeeded msg data = Some \<lparr>res_Status = ''success'', res_Message = msg, res_Data = data\<rparr>"

definition failed :: "string \<Rightarrow> OpResult option" where
  "failed msg = Some \<lparr>res_Status = ''failed'', res_Message = msg, res_Data = None\<rparr>"

text \<open>\<open>if err := m(...); err != nil { return failed(err) }\<close>, then the result.\<close>

definition report :: "('s, 'a) io \<Rightarrow> ('a \<Rightarrow> OpResult option) \<Rightarrow> ('s, OpResult option) io" where
  "report m f =
     io_bind (io_try m) (\<lambda>r. io_return (case r of Inl e \<Rightarrow> failed (Error e) | Inr x \<Rightarrow> f x))"

section \<open>Docker-backed handlers\<close>

definition extractContainerName :: "raw_json \<Rightarrow> goerror + string" where
  "extractContainerName data =
     (case decode_payload ''invalid payload: '' (store_one_string ''container_name'') [] data of
        Inl e \<Rightarrow> Inl e
      | Inr name \<Rightarrow> if name = [] then Inl (ErrNew ''container_name is required'') else Inr name)"

definition findAndAdopt :: "'d docker_client \<Rightarrow> string \<Rightarrow> ('d net, string) io" where
  "findAndAdopt client name =
     io_bind (io_wrap ''find container: '' (FindContainer client name)) (\<lambda>i.
       if i = [] then io_return []
       else io_bind (io_try (Adopt client i)) (\<lambda>_. io_return i))"

text \<open>The part the three handlers share: name, container, and what to do with it.\<close>

definition with_container ::
  "'d docker_client \<Rightarrow> Operation \<Rightarrow> (string \<Rightarrow> string \<Rightarrow> ('d net, OpResult option) io) \<Rightarrow>
    ('d net, OpResult option) io" where
  "with_container client op act =
     io_bind (io_lift (extractContainerName (opr_Data op))) (\<lambda>containerName.
     io_bind (findAndAdopt client containerName) (\<lambda>containerID.
       if containerID = [] then io_return (failed ''container not found'')
       else act containerName containerID))"

definition timeout_of :: "raw_json \<Rightarrow> int" where
  "timeout_of data = fst (Unmarshal (store_one_int ''timeout_sec'') data 0)"

definition NewDockerStartHandler :: "'d docker_client \<Rightarrow> 'd net Handler" where
  "NewDockerStartHandler client op =
     with_container client op (\<lambda>containerName containerID.
       report (Start client containerID) (\<lambda>_. succeeded (''started '' @ containerName) None))"

definition NewDockerStopHandler :: "'d docker_client \<Rightarrow> 'd net Handler" where
  "NewDockerStopHandler client op =
     with_container client op (\<lambda>containerName containerID.
       report (Stop client containerID (timeout_of (opr_Data op)))
         (\<lambda>_. succeeded (''stopped '' @ containerName) None))"

definition NewDockerRestartHandler :: "'d docker_client \<Rightarrow> 'd net Handler" where
  "NewDockerRestartHandler client op =
     with_container client op (\<lambda>containerName containerID.
       io_bind (io_try (Stop client containerID (timeout_of (opr_Data op)))) (\<lambda>r1.
         case r1 of
           Inl e \<Rightarrow> io_return (failed (''stop: '' @ Error e))
         | Inr _ \<Rightarrow>
             io_bind (io_try (Start client containerID)) (\<lambda>r2. io_return (
               case r2 of
                 Inl e \<Rightarrow> failed (''start: '' @ Error e)
               | Inr _ \<Rightarrow> succeeded (''restarted '' @ containerName) None))))"

definition NewStubHandler :: "string \<Rightarrow> 's Handler" where
  "NewStubHandler phase op = io_fail (RedirectError (opr_Type op) phase)"

section \<open>Handlers of the managers\<close>

text \<open>\<open>components.Component\<close> has no JSON tags: its members are named as the fields.\<close>

definition store_Component :: "Component store" where
  "store_Component = store_struct ''components.Component''
     [(''Name'', in_field co_Name co_Name_update store_string),
      (''Version'', in_field co_Version co_Version_update store_string),
      (''Image'', in_field co_Image co_Image_update store_string),
      (''ExpectedDigest'', in_field co_ExpectedDigest co_ExpectedDigest_update store_string)]"

definition zero_Component :: Component where
  "zero_Component = \<lparr>co_Name = [], co_Version = [], co_Image = [], co_ExpectedDigest = []\<rparr>"

definition NewInstallComponentHandler :: "'s ImageClient \<Rightarrow> 's Handler" where
  "NewInstallComponentHandler inst op =
     io_bind (io_lift (decode_payload ''invalid component payload: '' store_Component zero_Component (opr_Data op)))
       (\<lambda>c. report (Install inst c)
          (\<lambda>_. succeeded (''installed '' @ co_Name c @ '' ('' @ co_Version c @ '')'') None))"

record RevisionPayload =
  rp_ServiceID :: string
  rp_Revision :: int
  rp_Spec :: Spec

definition store_RevisionPayload :: "RevisionPayload store" where
  "store_RevisionPayload = store_struct ''struct''
     [(''service_id'', in_field rp_ServiceID rp_ServiceID_update store_string),
      (''revision'', in_field rp_Revision rp_Revision_update store_int),
      (''spec'', in_field rp_Spec rp_Spec_update store_Spec)]"

definition require_service :: "string \<Rightarrow> goerror + unit" where
  "require_service sid = (if sid = [] then Inl (ErrNew ''service_id is required'') else Inr ())"

definition NewApplyServiceRevisionHandler :: "'s ContainerClient \<Rightarrow> map_order \<Rightarrow> 's Handler" where
  "NewApplyServiceRevisionHandler mgr range_map op =
     io_bind (io_lift (decode_payload ''invalid service revision payload: '' store_RevisionPayload
                \<lparr>rp_ServiceID = [], rp_Revision = 0, rp_Spec = zero_Spec\<rparr> (opr_Data op))) (\<lambda>p.
     io_bind (io_lift (require_service (rp_ServiceID p))) (\<lambda>_.
     report (service_ApplyRevision mgr range_map (rp_ServiceID p) (rp_Revision p) (rp_Spec p))
       (\<lambda>_. succeeded (''applied revision '' @ itoa (rp_Revision p) @ '' to '' @ rp_ServiceID p) None)))"

definition NewCollectStatusHandler :: "'s ContainerClient \<Rightarrow> 's Handler" where
  "NewCollectStatusHandler mgr op =
     io_bind (io_lift (decode_payload ''invalid status payload: '' (store_one_string ''service_id'') []
                (opr_Data op))) (\<lambda>sid.
     io_bind (io_lift (require_service sid)) (\<lambda>_.
     report (CollectStatus mgr sid) (\<lambda>st. succeeded [] (Some (ServiceStatus_json st)))))"

record LogsPayload =
  lp_ServiceID :: string
  lp_Tail :: int

definition store_LogsPayload :: "LogsPayload store" where
  "store_LogsPayload = store_struct ''struct''
     [(''service_id'', in_field lp_ServiceID lp_ServiceID_update store_string),
      (''tail'', in_field lp_Tail lp_Tail_update store_int)]"

definition NewCollectLogsHandler :: "'s ContainerClient \<Rightarrow> 's Handler" where
  "NewCollectLogsHandler mgr op =
     io_bind (io_lift (decode_payload ''invalid logs payload: '' store_LogsPayload
                \<lparr>lp_ServiceID = [], lp_Tail = 0\<rparr> (opr_Data op))) (\<lambda>p.
     io_bind (io_lift (require_service (lp_ServiceID p))) (\<lambda>_.
     report (CollectLogs mgr (lp_ServiceID p) (lp_Tail p)) (\<lambda>logs. succeeded logs None)))"

definition NewCreateTunnelHandler :: "'s ContainerExec \<Rightarrow> 's Handler" where
  "NewCreateTunnelHandler mgr op =
     io_bind (io_lift (decode_payload ''invalid tunnel payload: '' store_TunnelRequest zero_TunnelRequest
                (opr_Data op))) (\<lambda>req.
     report (tunnel_Create mgr req)
       (\<lambda>_. succeeded (''created tunnel '' @ tr_TunnelID req @ '' in '' @ tr_ServiceID req) None))"

definition NewRemoveTunnelHandler :: "'s ContainerExec \<Rightarrow> 's Handler" where
  "NewRemoveTunnelHandler mgr op =
     io_bind (io_lift (decode_payload ''invalid tunnel payload: '' store_TunnelRequest zero_TunnelRequest
                (opr_Data op))) (\<lambda>req.
     report (tunnel_Remove mgr req)
       (\<lambda>_. succeeded (''removed tunnel '' @ tr_TunnelID req @ '' from '' @ tr_ServiceID req) None))"

definition NewApplyFirewallRevisionHandler :: "'s CommandRunner \<Rightarrow> 's Handler" where
  "NewApplyFirewallRevisionHandler mgr op =
     io_bind (io_lift (decode_payload ''invalid firewall payload: '' store_Ruleset zero_Ruleset (opr_Data op)))
       (\<lambda>rs. report (firewall_ApplyRevision mgr rs)
          (\<lambda>_. succeeded (''applied firewall revision '' @ itoa (rl_Revision rs)) None))"

record HealthPayload =
  hl_ServiceID :: string
  hl_ProbePorts :: "string list"
  hl_TimeoutMs :: int

definition store_HealthPayload :: "HealthPayload store" where
  "store_HealthPayload = store_struct ''struct''
     [(''service_id'', in_field hl_ServiceID hl_ServiceID_update store_string),
      (''probe_ports'', in_field hl_ProbePorts hl_ProbePorts_update (store_slice [] store_string)),
      (''timeout_ms'', in_field hl_TimeoutMs hl_TimeoutMs_update store_int)]"

definition NewRunHealthCheckHandler :: "'s HealthManager \<Rightarrow> 's Handler" where
  "NewRunHealthCheckHandler mgr op =
     io_bind (io_lift (decode_payload ''invalid health check payload: '' store_HealthPayload
                \<lparr>hl_ServiceID = [], hl_ProbePorts = [], hl_TimeoutMs = 0\<rparr> (opr_Data op))) (\<lambda>p.
     io_bind (io_lift (require_service (hl_ServiceID p))) (\<lambda>_.
     report (Check mgr (hl_ServiceID p) \<lparr>op_ProbePorts = hl_ProbePorts p, op_TimeoutMs = hl_TimeoutMs p\<rparr>)
       (\<lambda>rep. Some \<lparr>res_Status = (if hp_Healthy rep then ''success'' else ''degraded''),
                     res_Message = [], res_Data = Some (HealthReport_json rep)\<rparr>)))"

definition NewManageCertificateHandler :: "'s CertManager \<Rightarrow> 's Handler" where
  "NewManageCertificateHandler mgr op =
     io_bind (io_lift (decode_payload ''invalid certificate payload: '' store_CertRequest zero_CertRequest
                (opr_Data op))) (\<lambda>req s.
     case Manage mgr req s of
       ((_, Some e), s') \<Rightarrow> (Inr (failed (Error e)), s')
     | ((Some rep, None), s') \<Rightarrow>
         (Inr (succeeded (ce_Action req @ '' certificate '' @ cx_Domain rep) (Some (CertReport_json rep))), s')
     | ((None, None), s') \<Rightarrow> (Inr None, s'))"

section \<open>Every handler returns a result or an error\<close>

text \<open>An effect whose value, when there is one, is a result.\<close>

definition gives_result :: "('s, OpResult option) io \<Rightarrow> bool" where
  "gives_result m \<longleftrightarrow> (\<forall>s r. fst (m s) = Inr r \<longrightarrow> proper r)"

named_theorems result_laws \<open>effects that end in a result\<close>

lemma gives_result_return [result_laws]: "proper r \<Longrightarrow> gives_result (io_return r)"
  by (simp add: gives_result_def)

lemma gives_result_fail [result_laws]: "gives_result (io_fail e)"
  by (simp add: gives_result_def)

lemma gives_result_bind [result_laws]: "(\<And>x. gives_result (f x)) \<Longrightarrow> gives_result (io_bind m f)"
  by (simp add: gives_result_def io_bind_def split: prod.splits sum.splits)

lemma gives_result_if [result_laws]:
  "gives_result m \<Longrightarrow> gives_result m' \<Longrightarrow> gives_result (if b then m else m')"
  by simp

lemma gives_result_sum [result_laws]:
  "(\<And>x. gives_result (f x)) \<Longrightarrow> (\<And>x. gives_result (g x)) \<Longrightarrow>
     gives_result (case r of Inl x \<Rightarrow> f x | Inr x \<Rightarrow> g x)"
  by (cases r) simp_all

lemma succeeded_proper [simp]: "proper (succeeded msg d)" "proper (failed msg)"
  by (simp_all add: succeeded_def failed_def)

lemma gives_result_report [result_laws]: "(\<And>x. proper (f x)) \<Longrightarrow> gives_result (report m f)"
  unfolding report_def by (intro result_laws) (simp split: sum.splits)

lemma gives_result_container [result_laws]:
  "(\<And>n i. gives_result (act n i)) \<Longrightarrow> gives_result (with_container client op act)"
  unfolding with_container_def by (intro result_laws) simp_all

lemma returns_resultI: "(\<And>op. gives_result (h op)) \<Longrightarrow> returns_result h"
  by (simp add: returns_result_def gives_result_def)

lemma Manage_result: "fst (Manage m req s) \<noteq> (None, None)"
  by (auto simp: Manage_def split: sum.splits prod.splits)

lemma handlers_return_result:
  "returns_result (NewDockerStartHandler c)"
  "returns_result (NewDockerStopHandler c)"
  "returns_result (NewDockerRestartHandler c)"
  "returns_result (NewStubHandler phase)"
  "returns_result (NewInstallComponentHandler inst)"
  "returns_result (NewApplyServiceRevisionHandler cl ord)"
  "returns_result (NewCollectStatusHandler cl)"
  "returns_result (NewCollectLogsHandler cl)"
  "returns_result (NewCreateTunnelHandler xe)"
  "returns_result (NewRemoveTunnelHandler xe)"
  "returns_result (NewApplyFirewallRevisionHandler cr)"
  "returns_result (NewRunHealthCheckHandler hm)"
  unfolding NewDockerStartHandler_def NewDockerStopHandler_def NewDockerRestartHandler_def
    NewStubHandler_def NewInstallComponentHandler_def NewApplyServiceRevisionHandler_def
    NewCollectStatusHandler_def NewCollectLogsHandler_def NewCreateTunnelHandler_def
    NewRemoveTunnelHandler_def NewApplyFirewallRevisionHandler_def NewRunHealthCheckHandler_def
  by (intro returns_resultI result_laws; simp split: sum.splits)+

lemma certificate_handler_returns_result: "returns_result (NewManageCertificateHandler cm)"
proof -
  have "gives_result (\<lambda>s. case Manage cm req s of
       ((_, Some e), s') \<Rightarrow> (Inr (failed (Error e)), s')
     | ((Some rep, None), s') \<Rightarrow>
         (Inr (succeeded (ce_Action req @ '' certificate '' @ cx_Domain rep) (Some (CertReport_json rep))), s')
     | ((None, None), s') \<Rightarrow> (Inr None, s'))" for req
    unfolding gives_result_def using Manage_result [of cm req]
    by (auto split: prod.splits option.splits) (metis fst_conv)
  then show ?thesis unfolding NewManageCertificateHandler_def
    by (intro returns_resultI gives_result_bind) blast
qed

section \<open>Payloads of the contract\<close>

text \<open>The members that \<open>contracts/operations.json\<close> lists for \<open>INSTALL_COMPONENT\<close>, all strings.\<close>

definition install_members :: "(string \<times> json) list \<Rightarrow> bool" where
  "install_members ms \<longleftrightarrow>
     list_all (\<lambda>(k, v). k \<in> set [''component_name'', ''version'', ''image'', ''expected_digest''] \<and> (\<exists>t. v = JStr t)) ms"

lemma install_fields_name:
  assumes "install_members ms"
  shows "\<exists>c'. (case store_Component (JObj ms) c of (c', e) \<Rightarrow> (c', e)) = (c', None) \<and> co_Name c' = co_Name c"
proof -
  let ?fs = "[(''Name'', in_field co_Name co_Name_update store_string),
      (''Version'', in_field co_Version co_Version_update store_string),
      (''Image'', in_field co_Image co_Image_update store_string),
      (''ExpectedDigest'', in_field co_ExpectedDigest co_ExpectedDigest_update store_string)] :: Component fields"
  have fields: "find_field ?fs ''component_name'' = None" "find_field ?fs ''expected_digest'' = None"
      "find_field ?fs ''version'' = Some (in_field co_Version co_Version_update store_string)"
      "find_field ?fs ''image'' = Some (in_field co_Image co_Image_update store_string)"
    by (simp_all add: find_field_def, code_simp+)
  have "\<exists>c'. store_fields ?fs ms c = (c', None) \<and> co_Name c' = co_Name c"
    using assms
  proof (induction ms arbitrary: c)
    case (Cons m ms)
    obtain k t where m: "m = (k, JStr t)" "k \<in> set [''component_name'', ''version'', ''image'', ''expected_digest'']"
        and ms: "install_members ms"
      using Cons.prems by (cases m) (auto simp: install_members_def)
    obtain st where st: "store_fields ?fs (m # ms) c = store_fields ?fs ms st" "co_Name st = co_Name c"
      using m fields by (auto simp: in_field_def case_prod_beta prod_eq_iff)
    then show ?case using Cons.IH [OF ms, of st] by auto
  qed simp
  then show ?thesis by (auto simp: store_Component_def store_struct_def)
qed

text \<open>
  Property C38. An \<open>INSTALL_COMPONENT\<close> payload that follows the contract is never installed:
  \<open>component_name\<close> matches no field of \<open>components.Component\<close>, which has no JSON tags, so the
  component has no name; the handler reports a failure and neither pulls nor inspects an image.
\<close>

theorem install_contract_payload_fails:
  assumes "opr_Data op = Some (JObj ms)" and "install_members ms"
  shows "NewInstallComponentHandler inst op s =
     (Inr (failed ''invalid component: component name is required''), s)"
proof -
  obtain c' where c': "store_Component (JObj ms) zero_Component = (c', None)" "co_Name c' = []"
    using install_fields_name [OF assms(2), of zero_Component] by (auto simp: zero_Component_def)
  have "Component_Validate c' = Some (ErrNew ''component name is required'')"
    using c'(2) by (simp add: Component_Validate_def)
  from Install_invalid [OF this, of inst s] show ?thesis
    using c' assms(1)
    by (simp add: NewInstallComponentHandler_def decode_payload_def io_bind_def report_def io_try_def)
qed

definition sample_install :: "(string \<times> json) list" where
  "sample_install =
     [(''component_name'', JStr ''xray''), (''version'', JStr ''1''), (''image'', JStr (co_Image sample_component)),
      (''expected_digest'', JStr (co_ExpectedDigest sample_component))]"

theorem install_contract_payload_fails_witness:
  "NewInstallComponentHandler (docker_ImageClient (docker_NewClient (\<lambda>_. None) sample_registry))
     \<lparr>opr_ID = ''1'', opr_Type = OpInstallComponent, opr_Data = Some (JObj sample_install)\<rparr>
     \<lparr>sent = [], peer = ()\<rparr> = (Inr (failed ''invalid component: component name is required''), \<lparr>sent = [], peer = ()\<rparr>)"
proof -
  have "install_members sample_install" by (simp add: install_members_def sample_install_def)
  then show ?thesis by (intro install_contract_payload_fails) simp_all
qed

end
