(* ===== verification/GoFiles.thy ===== *)
theory GoFiles
  imports GoIO GoPath
begin

text \<open>
  The file system as the agent uses it through package \<open>os\<close>. A file system maps paths to
  files; \<open>fs_hist\<close> keeps its content after every call that could change it, which is what
  another process, or a restart after a crash, can find.

  Any call may fail: \<open>fs_faults\<close> lists, call by call, the failure that the operating system
  has in store, with the number of bytes a failing write still wrote; after its end no call
  fails. \<open>fs_rand\<close> are the random numbers \<open>os.CreateTemp\<close> tries in turn.
\<close>

record fileobj =
  fi_Data :: string
  fi_Perm :: nat

type_synonym files = "string \<rightharpoonup> fileobj"
type_synonym fault = "(goerror \<times> nat) option"

record fsys =
  fs_files :: files
  fs_faults :: "fault list"
  fs_rand :: "nat list"
  fs_hist :: "files list"

section \<open>Calls\<close>

definition next_fault :: "fsys \<Rightarrow> fault \<times> fsys" where
  "next_fault s = (case fs_faults s of [] \<Rightarrow> (None, s) | f # fs \<Rightarrow> (f, s\<lparr>fs_faults := fs\<rparr>))"

definition set_files :: "files \<Rightarrow> fsys \<Rightarrow> fsys" where
  "set_files f s = s\<lparr>fs_files := f, fs_hist := fs_hist s @ [f]\<rparr>"

text \<open>A call that changes the files: \<open>ok\<close> when it succeeds, \<open>part n\<close> when it fails after \<open>n\<close> bytes.\<close>

definition change_files :: "(files \<Rightarrow> files) \<Rightarrow> (nat \<Rightarrow> files \<Rightarrow> files) \<Rightarrow> (fsys, unit) io" where
  "change_files ok part s =
     (case next_fault s of
        (Some (e, n), s') \<Rightarrow> (Inl e, set_files (part n (fs_files s')) s')
      | (None, s') \<Rightarrow> (Inr (), set_files (ok (fs_files s')) s'))"

definition no_such_file :: "string \<Rightarrow> string \<Rightarrow> goerror" where
  "no_such_file call path = ErrNotExist (call @ '' '' @ path @ '': no such file or directory'')"

definition os_ReadFile :: "string \<Rightarrow> (fsys, string) io" where
  "os_ReadFile path s =
     (case next_fault s of
        (Some (e, _), s') \<Rightarrow> (Inl e, s')
      | (None, s') \<Rightarrow>
          (case fs_files s' path of
             None \<Rightarrow> (Inl (no_such_file ''open'' path), s')
           | Some f \<Rightarrow> (Inr (fi_Data f), s')))"

definition os_Stat :: "string \<Rightarrow> (fsys, unit) io" where
  "os_Stat path s =
     (case next_fault s of
        (Some (e, _), s') \<Rightarrow> (Inl e, s')
      | (None, s') \<Rightarrow>
          (case fs_files s' path of
             None \<Rightarrow> (Inl (no_such_file ''stat'' path), s')
           | Some f \<Rightarrow> (Inr (), s')))"

text \<open>The name of a temporary file: the directory, the pattern with a number for its star.\<close>

definition temp_name :: "string \<Rightarrow> string \<Rightarrow> string \<Rightarrow> nat \<Rightarrow> string" where
  "temp_name dir pre suf r =
     (if HasSuffix dir ''/'' then dir else dir @ ''/'') @ pre @ nat_to_string r @ suf"

definition os_CreateTemp :: "string \<Rightarrow> string \<Rightarrow> string \<Rightarrow> (fsys, string) io" where
  "os_CreateTemp dir pre suf s =
     (case next_fault s of
        (Some (e, _), s') \<Rightarrow> (Inl e, s')
      | (None, s') \<Rightarrow>
          (case find (\<lambda>r. fs_files s' (temp_name dir pre suf r) = None) (fs_rand s') of
             None \<Rightarrow> (Inl (ErrNew (''createtemp '' @ dir @ '': file exists'')), s')
           | Some r \<Rightarrow>
               (let p = temp_name dir pre suf r
                in (Inr p, set_files ((fs_files s')(p \<mapsto> \<lparr>fi_Data = [], fi_Perm = 384\<rparr>)) s'))))"

definition upd_file :: "string \<Rightarrow> (fileobj \<Rightarrow> fileobj) \<Rightarrow> files \<Rightarrow> files" where
  "upd_file p g f = (case f p of None \<Rightarrow> f | Some x \<Rightarrow> f(p \<mapsto> g x))"

definition file_Write :: "string \<Rightarrow> string \<Rightarrow> (fsys, unit) io" where
  "file_Write p data =
     change_files (upd_file p (\<lambda>x. x\<lparr>fi_Data := fi_Data x @ data\<rparr>))
       (\<lambda>n. upd_file p (\<lambda>x. x\<lparr>fi_Data := fi_Data x @ take n data\<rparr>))"

definition file_Chmod :: "string \<Rightarrow> nat \<Rightarrow> (fsys, unit) io" where
  "file_Chmod p perm = change_files (upd_file p (\<lambda>x. x\<lparr>fi_Perm := perm\<rparr>)) (\<lambda>_ f. f)"

definition file_Close :: "(fsys, unit) io" where
  "file_Close = change_files (\<lambda>f. f) (\<lambda>_ f. f)"

definition os_Remove :: "string \<Rightarrow> (fsys, unit) io" where
  "os_Remove p s =
     (case fs_files s p of
        None \<Rightarrow> (Inl (no_such_file ''remove'' p), snd (next_fault s))
      | Some _ \<Rightarrow> change_files (\<lambda>f. f(p := None)) (\<lambda>_ f. f) s)"

definition os_Rename :: "string \<Rightarrow> string \<Rightarrow> (fsys, unit) io" where
  "os_Rename a b s =
     (case fs_files s a of
        None \<Rightarrow> (Inl (no_such_file ''rename'' a), snd (next_fault s))
      | Some x \<Rightarrow> change_files (\<lambda>f. f(a := None, b \<mapsto> x)) (\<lambda>_ f. f) s)"

section \<open>What a call leaves of a path\<close>

text \<open>
  A run that keeps a path: the path has its content in every file system the run passes
  through.
\<close>

definition keeps :: "string \<Rightarrow> (fsys, 'a) io \<Rightarrow> bool" where
  "keeps path m \<longleftrightarrow>
     (\<forall>s. \<exists>h. fs_hist (snd (m s)) = fs_hist s @ h \<and> list_all (\<lambda>f. f path = fs_files s path) h \<and>
        fs_files (snd (m s)) path = fs_files s path)"

named_theorems fs_laws \<open>calls that leave a path alone\<close>

lemma next_fault_files:
  "next_fault s = (f, s') \<Longrightarrow> fs_files s' = fs_files s \<and> fs_hist s' = fs_hist s \<and> fs_rand s' = fs_rand s"
  by (auto simp: next_fault_def split: list.splits)

lemma keepsE:
  assumes "keeps path m" and "m s = (r, s')"
  obtains h where "fs_hist s' = fs_hist s @ h" and "list_all (\<lambda>f. f path = fs_files s path) h"
    and "fs_files s' path = fs_files s path"
  using assms unfolding keeps_def by (metis snd_conv)

lemma keeps_return [fs_laws]: "keeps path (io_return x)"
  by (simp add: keeps_def)

lemma keeps_fail [fs_laws]: "keeps path (io_fail e)"
  by (simp add: keeps_def)

lemma keeps_bind_dep:
  assumes "keeps path m" and "\<And>s x s'. m s = (Inr x, s') \<Longrightarrow> keeps path (f x)"
  shows "keeps path (io_bind m f)"
  unfolding keeps_def
proof
  fix s
  obtain r s1 where m: "m s = (r, s1)" by (cases "m s")
  obtain h where h: "fs_hist s1 = fs_hist s @ h" "list_all (\<lambda>f. f path = fs_files s path) h"
    "fs_files s1 path = fs_files s path" using assms(1) m by (rule keepsE)
  show "\<exists>h. fs_hist (snd (io_bind m f s)) = fs_hist s @ h \<and> list_all (\<lambda>f. f path = fs_files s path) h \<and>
        fs_files (snd (io_bind m f s)) path = fs_files s path"
  proof (cases r)
    case (Inl e)
    then show ?thesis using m h by (simp add: io_bind_def)
  next
    case (Inr x)
    obtain r2 s2 where f: "f x s1 = (r2, s2)" by (cases "f x s1")
    obtain h2 where "fs_hist s2 = fs_hist s1 @ h2" "list_all (\<lambda>f. f path = fs_files s1 path) h2"
      "fs_files s2 path = fs_files s1 path" using assms(2) [OF m [unfolded Inr]] f by (rule keepsE)
    then show ?thesis using m f h Inr by (intro exI [of _ "h @ h2"]) (simp add: io_bind_def)
  qed
qed

lemma keeps_bind [fs_laws]: "keeps path m \<Longrightarrow> (\<And>x. keeps path (f x)) \<Longrightarrow> keeps path (io_bind m f)"
  by (rule keeps_bind_dep)

lemma keeps_wrap [fs_laws]: "keeps path m \<Longrightarrow> keeps path (io_wrap msg m)"
  by (simp add: keeps_def io_wrap_def split: prod.splits) (metis snd_conv)

lemma keeps_try [fs_laws]: "keeps path m \<Longrightarrow> keeps path (io_try m)"
  by (simp add: keeps_def io_try_def split: prod.splits) (metis snd_conv)

lemma keeps_ignore [fs_laws]: "keeps path m \<Longrightarrow> keeps path (io_ignore m)"
  by (simp add: keeps_def io_ignore_def)

lemma change_files_Inr:
  assumes "change_files ok part s = (Inr u, s')"
  shows "fs_files s' = ok (fs_files s)" and "fs_hist s' = fs_hist s @ [ok (fs_files s)]"
  using assms
  by (auto simp: change_files_def next_fault_def set_files_def split: prod.splits option.splits list.splits)

lemma change_files_Inl:
  assumes "change_files ok part s = (Inl e, s')"
  obtains n where "fs_files s' = part n (fs_files s)" "fs_hist s' = fs_hist s @ [part n (fs_files s)]"
  using assms
  by (auto simp: change_files_def next_fault_def set_files_def split: prod.splits option.splits list.splits)

lemma keeps_change [fs_laws]:
  assumes "\<And>f. ok f path = f path" and "\<And>n f. part n f path = f path"
  shows "keeps path (change_files ok part)"
  unfolding keeps_def
proof
  fix s
  obtain r s' where c: "change_files ok part s = (r, s')" by (cases "change_files ok part s")
  have "\<exists>f. fs_files s' = f \<and> fs_hist s' = fs_hist s @ [f] \<and> f path = fs_files s path"
  proof (cases r)
    case (Inl e)
    obtain n where "fs_files s' = part n (fs_files s)" "fs_hist s' = fs_hist s @ [part n (fs_files s)]"
      using c unfolding Inl by (rule change_files_Inl)
    then show ?thesis using assms(2) by simp
  next
    case (Inr u)
    then show ?thesis using change_files_Inr [of ok part s u s'] c assms(1) by simp
  qed
  then show "\<exists>h. fs_hist (snd (change_files ok part s)) = fs_hist s @ h \<and>
      list_all (\<lambda>f. f path = fs_files s path) h \<and> fs_files (snd (change_files ok part s)) path = fs_files s path"
    using c by auto
qed

lemma upd_file_other [simp]: "p \<noteq> path \<Longrightarrow> upd_file p g f path = f path"
  by (simp add: upd_file_def split: option.splits)

lemma keeps_calls [fs_laws]:
  "p \<noteq> path \<Longrightarrow> keeps path (file_Write p data)"
  "p \<noteq> path \<Longrightarrow> keeps path (file_Chmod p perm)"
  "keeps path file_Close"
  unfolding file_Write_def file_Chmod_def file_Close_def
  by (rule keeps_change; simp)+

lemma keeps_Remove [fs_laws]:
  assumes "p \<noteq> path"
  shows "keeps path (os_Remove p)"
  unfolding keeps_def
proof
  fix s
  have "keeps path (change_files (\<lambda>f. f(p := None)) (\<lambda>_ f. f))"
    by (rule keeps_change) (use assms in simp_all)
  then show "\<exists>h. fs_hist (snd (os_Remove p s)) = fs_hist s @ h \<and> list_all (\<lambda>f. f path = fs_files s path) h \<and>
      fs_files (snd (os_Remove p s)) path = fs_files s path"
    by (cases "fs_files s p") (auto simp: os_Remove_def keeps_def next_fault_def split: list.split)
qed

lemma keeps_Rename [fs_laws]:
  assumes "p \<noteq> path" and "q \<noteq> path"
  shows "keeps path (os_Rename p q)"
  unfolding keeps_def
proof
  fix s
  have "keeps path (change_files (\<lambda>f. f(p := None, q \<mapsto> x)) (\<lambda>_ f. f))" for x
    by (rule keeps_change) (use assms in simp_all)
  then show "\<exists>h. fs_hist (snd (os_Rename p q s)) = fs_hist s @ h \<and> list_all (\<lambda>f. f path = fs_files s path) h \<and>
      fs_files (snd (os_Rename p q s)) path = fs_files s path"
    by (cases "fs_files s p") (auto simp: os_Rename_def keeps_def next_fault_def split: list.split)
qed

text \<open>A temporary file is not the target when the target's name does not have its suf.\<close>

lemma temp_name_suffix: "HasSuffix (temp_name dir pre suf r) suf"
  by (simp add: temp_name_def HasSuffix_iff_suffix suffix_def)

lemma CreateTemp_Inr:
  assumes "os_CreateTemp dir pre suf s = (Inr p, s')"
  shows "HasSuffix p suf"
    and "fs_files s' = (fs_files s)(p \<mapsto> \<lparr>fi_Data = [], fi_Perm = 384\<rparr>)"
    and "fs_hist s' = fs_hist s @ [fs_files s']"
proof -
  obtain r where "p = temp_name dir pre suf r"
      "fs_files s' = (fs_files s)(p \<mapsto> \<lparr>fi_Data = [], fi_Perm = 384\<rparr>)" "fs_hist s' = fs_hist s @ [fs_files s']"
    using assms by (auto simp: os_CreateTemp_def set_files_def next_fault_def Let_def split: prod.splits option.splits list.splits)
  then show "HasSuffix p suf" "fs_files s' = (fs_files s)(p \<mapsto> \<lparr>fi_Data = [], fi_Perm = 384\<rparr>)"
      "fs_hist s' = fs_hist s @ [fs_files s']"
    by (simp_all add: temp_name_suffix)
qed

lemma CreateTemp_Inl:
  assumes "os_CreateTemp dir pre suf s = (Inl e, s')"
  shows "fs_files s' = fs_files s" and "fs_hist s' = fs_hist s"
  using assms by (auto simp: os_CreateTemp_def set_files_def next_fault_def Let_def split: prod.splits option.splits list.splits)

lemma ReadFile_frame:
  "fs_files (snd (os_ReadFile p s)) = fs_files s" "fs_hist (snd (os_ReadFile p s)) = fs_hist s"
  by (auto simp: os_ReadFile_def next_fault_def split: prod.splits option.splits list.splits)

section \<open>A file system that fails no call\<close>

named_theorems no_fault \<open>what the calls do when none fails\<close>

lemma set_files_sel [no_fault]:
  "fs_files (set_files f s) = f" "fs_faults (set_files f s) = fs_faults s"
  by (simp_all add: set_files_def)

lemma change_files_no_fault [no_fault]:
  "fs_faults s = [] \<Longrightarrow> change_files ok part s = (Inr (), set_files (ok (fs_files s)) s)"
  by (simp add: change_files_def next_fault_def)

lemma CreateTemp_no_fault:
  assumes "fs_faults s = []"
    and "find (\<lambda>r. fs_files s (temp_name dir pre suf r) = None) (fs_rand s) = Some r"
  shows "os_CreateTemp dir pre suf s =
    (Inr (temp_name dir pre suf r),
     set_files ((fs_files s)(temp_name dir pre suf r \<mapsto> \<lparr>fi_Data = [], fi_Perm = 384\<rparr>)) s)"
  using assms by (simp add: os_CreateTemp_def next_fault_def Let_def)

lemma ReadFile_no_fault [no_fault]:
  "fs_faults s = [] \<Longrightarrow> fs_files s path = Some f \<Longrightarrow> os_ReadFile path s = (Inr (fi_Data f), s)"
  by (simp add: os_ReadFile_def next_fault_def)

end
