(* ===== verification/ApiClient.thy ===== *)
theory ApiClient
  imports GoFiles GoHttp GoHost
begin

text \<open>
  The client of the control plane (\<open>internal/api/client.go\<close>): TLS set-up, the retry loop and
  the four requests.

  Certificates are parsed by \<open>crypto/tls\<close> and \<open>crypto/x509\<close>; what they parse to is opaque
  here and the two parsers are parameters. What happens outside the process is the
  environment \<open>api_env\<close> of a client: the exchange of one request, the context of the call (over
  or not yet), the wait between two
  attempts (the \<open>select\<close> on the context and the timer: \<open>Some e\<close> when the context ended first)
  and the checks of the URL that \<open>http.NewRequestWithContext\<close> makes. Requests and waits are
  logged.
\<close>

section \<open>Types\<close>

record ('cert, 'pool) tls_config =
  tc_Certificates :: "'cert list"
  tc_RootCAs :: 'pool
  tc_MinVersion :: nat

record ('cert, 'pool) Client =
  cl_TLS :: "('cert, 'pool) tls_config"
  cl_ConnectTimeout :: int
  cl_MaxIdleConns :: int
  cl_IdleConnTimeout :: int
  cl_RequestTimeout :: int
  cl_baseURL :: string

record RetryConfig =
  rc_MaxRetries :: int
  rc_BaseDelay :: int

definition DefaultRetryConfig :: RetryConfig where
  "DefaultRetryConfig = \<lparr>rc_MaxRetries = 5, rc_BaseDelay = 1 * Second\<rparr>"

record ('cert, 'pool) tls_lib =
  tl_X509KeyPair :: "string \<Rightarrow> string \<Rightarrow> goerror + 'cert"
  tl_AppendCertsFromPEM :: "string \<Rightarrow> 'pool option"

record ('c, 'd) api_env =
  ae_Do :: "'c \<Rightarrow> 'd server"
  ae_Over :: "'d context_of"
  ae_Wait :: "int \<Rightarrow> 'd \<Rightarrow> goerror option \<times> 'd"
  ae_CheckURL :: "string \<Rightarrow> goerror option"

record 'd api_world =
  aw_net :: "'d net"
  aw_waits :: "int list"

section \<open>Making a client\<close>

definition VersionTLS12 :: nat where
  "VersionTLS12 = 0x0303"

definition newClientWithTLS ::
  "string \<Rightarrow> ('cert, 'pool) tls_config \<Rightarrow> int \<Rightarrow> int \<Rightarrow> ('cert, 'pool) Client" where
  "newClientWithTLS baseURL tlsCfg connectTimeout requestTimeout =
     \<lparr>cl_TLS = tlsCfg, cl_ConnectTimeout = connectTimeout, cl_MaxIdleConns = 10,
      cl_IdleConnTimeout = 90 * Second, cl_RequestTimeout = requestTimeout, cl_baseURL = baseURL\<rparr>"

definition loadCAPool :: "('cert, 'pool) tls_lib \<Rightarrow> string \<Rightarrow> (fsys, 'pool) io" where
  "loadCAPool lib caCertPath =
     io_bind (os_ReadFile caCertPath) (\<lambda>pemData.
       case tl_AppendCertsFromPEM lib pemData of
         None \<Rightarrow> io_fail (ErrNew (''no valid CA certificates found in '' @ caCertPath))
       | Some pool \<Rightarrow> io_return pool)"

text \<open>\<open>tls.LoadX509KeyPair\<close> reads the two files and parses them.\<close>

definition LoadX509KeyPair :: "('cert, 'pool) tls_lib \<Rightarrow> string \<Rightarrow> string \<Rightarrow> (fsys, 'cert) io" where
  "LoadX509KeyPair lib certPath keyPath =
     io_bind (os_ReadFile certPath) (\<lambda>c.
     io_bind (os_ReadFile keyPath) (\<lambda>k. io_lift (tl_X509KeyPair lib c k)))"

definition NewClient ::
  "('cert, 'pool) tls_lib \<Rightarrow> string \<Rightarrow> string \<Rightarrow> string \<Rightarrow> string \<Rightarrow> int \<Rightarrow> int \<Rightarrow>
    (fsys, ('cert, 'pool) Client) io" where
  "NewClient lib baseURL certPath keyPath caCertPath connectTimeout requestTimeout =
     io_bind (io_wrap ''load client cert: '' (LoadX509KeyPair lib certPath keyPath)) (\<lambda>cert.
     io_bind (io_wrap ''load CA cert: '' (loadCAPool lib caCertPath)) (\<lambda>caPool.
     io_return (newClientWithTLS baseURL
       \<lparr>tc_Certificates = [cert], tc_RootCAs = caPool, tc_MinVersion = VersionTLS12\<rparr>
       connectTimeout requestTimeout)))"

definition NewClientWithCA ::
  "('cert, 'pool) tls_lib \<Rightarrow> string \<Rightarrow> string \<Rightarrow> int \<Rightarrow> int \<Rightarrow> (fsys, ('cert, 'pool) Client) io" where
  "NewClientWithCA lib baseURL caCertPath connectTimeout requestTimeout =
     io_bind (io_wrap ''load CA cert: '' (loadCAPool lib caCertPath)) (\<lambda>caPool.
     io_return (newClientWithTLS baseURL
       \<lparr>tc_Certificates = [], tc_RootCAs = caPool, tc_MinVersion = VersionTLS12\<rparr>
       connectTimeout requestTimeout))"

section \<open>The retry loop\<close>

definition isRetryableStatus :: "int \<Rightarrow> bool" where
  "isRetryableStatus status = (if 500 \<le> status then True else status = 408 \<or> status = 429)"

definition isRetryableError :: "goerror \<Rightarrow> bool" where
  "isRetryableError err =
     (if errors_Is is_canceled err \<or> errors_Is is_deadline err then False
      else (case errors_As_net err of Some timeout \<Rightarrow> timeout | None \<Rightarrow> True))"

text \<open>The delay before the attempt, \<open>cfg.BaseDelay * time.Duration(1<<(attempt-1))\<close>, in 64 bits.\<close>

definition retry_delay :: "RetryConfig \<Rightarrow> int \<Rightarrow> int" where
  "retry_delay cfg attempt = wrap64 (rc_BaseDelay cfg * wrap64 (2 ^ nat (attempt - 1)))"

definition wait_for :: "('c, 'd) api_env \<Rightarrow> int \<Rightarrow> ('d api_world, unit) io" where
  "wait_for env delay w =
     (case ae_Wait env delay (peer (aw_net w)) of
        (r, d) \<Rightarrow>
          (case r of None \<Rightarrow> Inr () | Some e \<Rightarrow> Inl e,
           w\<lparr>aw_net := (aw_net w)\<lparr>peer := d\<rparr>, aw_waits := aw_waits w @ [delay]\<rparr>))"

definition api_Do :: "('c, 'd) api_env \<Rightarrow> 'c \<Rightarrow> http_request \<Rightarrow> ('d api_world, http_response) io" where
  "api_Do env c req = io_on aw_net aw_net_update (http_Do (ae_Over env) (ae_Do env c) req)"

text \<open>What an attempt's outcome means: \<open>None\<close> to try again, otherwise what is returned.\<close>

definition verdict ::
  "RetryConfig \<Rightarrow> int \<Rightarrow> string \<Rightarrow> string \<Rightarrow> goerror + http_response \<Rightarrow> (goerror + string) option" where
  "verdict cfg attempt meth path r =
     (case r of
        Inl err \<Rightarrow>
          if isRetryableError err \<and> attempt < rc_MaxRetries cfg then None
          else Some (Inl (ErrWrap (''request '' @ meth @ '' '' @ path @ '': '') err []))
      | Inr resp \<Rightarrow>
          (case BodyErr resp of
             Some readErr \<Rightarrow>
               if attempt < rc_MaxRetries cfg then None
               else Some (Inl (ErrWrap ''read response body: '' readErr []))
           | None \<Rightarrow>
               if isRetryableStatus (StatusCode resp) \<and> attempt < rc_MaxRetries cfg then None
               else if 400 \<le> StatusCode resp then Some (Inl (HTTPError (StatusCode resp) (Body resp)))
               else Some (Inr (Body resp))))"

function attempt_loop ::
  "('c, 'd) api_env \<Rightarrow> 'c \<Rightarrow> RetryConfig \<Rightarrow> string \<Rightarrow> http_request \<Rightarrow> int \<Rightarrow> ('d api_world, string) io" where
  "attempt_loop env c cfg path req attempt =
     (if rc_MaxRetries cfg < attempt then
        io_fail (ErrNew (''request '' @ hr_method req @ '' '' @ path @ '': exhausted '' @
          itoa (rc_MaxRetries cfg) @ '' retries''))
      else
        io_bind (if 0 < attempt then wait_for env (retry_delay cfg attempt) else io_return ()) (\<lambda>_.
        io_bind (io_check (map_option (\<lambda>e. ErrWrap ''create request: '' e []) (ae_CheckURL env (hr_url req)))) (\<lambda>_.
        io_bind (io_try (api_Do env c req)) (\<lambda>r.
          case verdict cfg attempt (hr_method req) path r of
            None \<Rightarrow> attempt_loop env c cfg path req (attempt + 1)
          | Some x \<Rightarrow> io_lift x))))"
  by pat_completeness auto
termination
  by (relation "measure (\<lambda>(env, c, cfg, path, req, attempt). nat (rc_MaxRetries cfg + 1 - attempt))") auto

declare attempt_loop.simps [simp del]

definition doWithRetry ::
  "('c, 'd) api_env \<Rightarrow> 'c \<Rightarrow> string \<Rightarrow> string \<Rightarrow> string \<Rightarrow> goerror + json \<Rightarrow>
    (string \<Rightarrow> goerror + 'r) \<Rightarrow> RetryConfig \<Rightarrow> ('d api_world, 'r) io" where
  "doWithRetry env c baseURL meth path body result cfg =
     io_bind (io_wrap ''marshal request body: '' (io_lift body)) (\<lambda>data.
     io_bind (attempt_loop env c cfg path
                \<lparr>hr_method = meth, hr_url = baseURL @ path, hr_body = Some data\<rparr> 0) (\<lambda>respData.
     io_wrap ''unmarshal response: '' (io_lift (result respData))))"

definition unmarshal_to :: "'r store \<Rightarrow> 'r \<Rightarrow> string \<Rightarrow> goerror + 'r" where
  "unmarshal_to st zero data =
     (case Unmarshal st (json_parse data) zero of (x, None) \<Rightarrow> Inr x | (_, Some e) \<Rightarrow> Inl e)"

text \<open>\<open>result == nil\<close>: the response is not looked at.\<close>

definition no_result :: "string \<Rightarrow> goerror + unit" where
  "no_result data = Inr ()"

section \<open>Requests\<close>

text \<open>A member that is left out when it is empty (\<open>omitempty\<close>).\<close>

definition opt_member :: "string \<Rightarrow> string \<Rightarrow> (string \<times> json) list" where
  "opt_member k s = (if s = [] then [] else [(k, JStr s)])"

record EnrollRequest =
  eq_EnrollmentToken :: string
  eq_CSR :: string
  eq_NodeID :: string

definition EnrollRequest_json :: "EnrollRequest \<Rightarrow> json" where
  "EnrollRequest_json r =
     JObj ([(''enrollment_token'', JStr (eq_EnrollmentToken r)), (''csr'', JStr (eq_CSR r))] @
       opt_member ''node_id'' (eq_NodeID r))"

record EnrollResponse =
  er_NodeID :: string
  er_Certificate :: string
  er_CACert :: string

definition store_EnrollResponse :: "EnrollResponse store" where
  "store_EnrollResponse = store_struct ''api.EnrollResponse''
     [(''node_id'', in_field er_NodeID er_NodeID_update store_string),
      (''certificate'', in_field er_Certificate er_Certificate_update store_string),
      (''ca_cert'', in_field er_CACert er_CACert_update store_string)]"

definition zero_EnrollResponse :: EnrollResponse where
  "zero_EnrollResponse = \<lparr>er_NodeID = [], er_Certificate = [], er_CACert = []\<rparr>"

record HeartbeatResponse =
  hb_Accepted :: bool

definition store_HeartbeatResponse :: "HeartbeatResponse store" where
  "store_HeartbeatResponse = store_struct ''api.HeartbeatResponse''
     [(''accepted'', in_field hb_Accepted hb_Accepted_update store_bool)]"

record ClaimRequest =
  cq_NodeID :: string

definition ClaimRequest_json :: "ClaimRequest \<Rightarrow> json" where
  "ClaimRequest_json r = JObj [(''node_id'', JStr (cq_NodeID r))]"

record api_Operation =
  ao_ID :: string
  ao_Type :: string
  ao_Data :: raw_json

definition store_Operation :: "api_Operation store" where
  "store_Operation = store_struct ''api.Operation''
     [(''id'', in_field ao_ID ao_ID_update store_string),
      (''type'', in_field ao_Type ao_Type_update store_string),
      (''data'', in_field ao_Data ao_Data_update store_raw)]"

definition zero_Operation :: api_Operation where
  "zero_Operation = \<lparr>ao_ID = [], ao_Type = [], ao_Data = None\<rparr>"

record ClaimResponse =
  cr_Operation :: "api_Operation option"

definition store_ClaimResponse :: "ClaimResponse store" where
  "store_ClaimResponse = store_struct ''api.ClaimResponse''
     [(''operation'', in_field cr_Operation cr_Operation_update (store_ptr zero_Operation store_Operation))]"

record CompleteRequest =
  cm_ID :: string
  cm_Status :: string
  cm_Result :: string

definition CompleteRequest_json :: "CompleteRequest \<Rightarrow> json" where
  "CompleteRequest_json r =
     JObj ([(''id'', JStr (cm_ID r)), (''status'', JStr (cm_Status r))] @ opt_member ''result'' (cm_Result r))"

definition client_Enroll ::
  "('c, 'd) api_env \<Rightarrow> 'c \<Rightarrow> string \<Rightarrow> EnrollRequest \<Rightarrow> ('d api_world, EnrollResponse) io" where
  "client_Enroll env c baseURL req =
     doWithRetry env c baseURL ''POST'' ''/internal/agent/v1/enroll'' (Inr (EnrollRequest_json req))
       (unmarshal_to store_EnrollResponse zero_EnrollResponse) DefaultRetryConfig"

text \<open>The body of a heartbeat may not be encodable: it holds floating-point numbers.\<close>

definition client_Heartbeat ::
  "('c, 'd) api_env \<Rightarrow> 'c \<Rightarrow> string \<Rightarrow> goerror + json \<Rightarrow> ('d api_world, HeartbeatResponse) io" where
  "client_Heartbeat env c baseURL body =
     doWithRetry env c baseURL ''POST'' ''/internal/agent/v1/heartbeat'' body
       (unmarshal_to store_HeartbeatResponse \<lparr>hb_Accepted = False\<rparr>) DefaultRetryConfig"

definition client_ClaimOperation ::
  "('c, 'd) api_env \<Rightarrow> 'c \<Rightarrow> string \<Rightarrow> ClaimRequest \<Rightarrow> ('d api_world, ClaimResponse) io" where
  "client_ClaimOperation env c baseURL req =
     doWithRetry env c baseURL ''POST'' ''/internal/agent/v1/operations/claim'' (Inr (ClaimRequest_json req))
       (unmarshal_to store_ClaimResponse \<lparr>cr_Operation = None\<rparr>) DefaultRetryConfig"

definition client_CompleteOperation ::
  "('c, 'd) api_env \<Rightarrow> 'c \<Rightarrow> string \<Rightarrow> string \<Rightarrow> CompleteRequest \<Rightarrow> ('d api_world, unit) io" where
  "client_CompleteOperation env c baseURL opID req =
     doWithRetry env c baseURL ''POST'' (''/internal/agent/v1/operations/'' @ opID @ ''/complete'')
       (Inr (CompleteRequest_json req)) no_result DefaultRetryConfig"

section \<open>Bounds of the loop\<close>

definition sent_by :: "http_request list \<Rightarrow> int list \<Rightarrow> 'd api_world \<Rightarrow> 'd api_world \<Rightarrow> bool" where
  "sent_by rs ds w w' \<longleftrightarrow> sent (aw_net w') = sent (aw_net w) @ rs \<and> aw_waits w' = aw_waits w @ ds"

lemma sent_by_refl [simp]: "sent_by [] [] w w"
  by (simp add: sent_by_def)

lemma sent_by_trans: "sent_by rs ds w w1 \<Longrightarrow> sent_by rs' ds' w1 w2 \<Longrightarrow> sent_by (rs @ rs') (ds @ ds') w w2"
  by (simp add: sent_by_def)

lemma wait_for_logs: "wait_for env delay w = (r, w') \<Longrightarrow> sent_by [] [delay] w w'"
  by (auto simp: wait_for_def sent_by_def split: prod.splits)

lemma api_Do_logs: "api_Do env c req w = (r, w') \<Longrightarrow>
   sent_by (replicate (if ae_Over env (peer (aw_net w)) = None then 1 else 0) req) [] w w'"
  by (auto simp: api_Do_def io_on_def http_Do_def sent_by_def split: prod.splits)

text \<open>The delays before the attempts from \<open>attempt\<close> on, \<open>n\<close> of them; there is none before the first.\<close>

definition delays :: "RetryConfig \<Rightarrow> int \<Rightarrow> nat \<Rightarrow> int list" where
  "delays cfg attempt n = map (\<lambda>k. retry_delay cfg (attempt + int k)) [(if attempt = 0 then 1 else 0)..<n]"

lemma delays_Suc:
  "0 \<le> attempt \<Longrightarrow> delays cfg attempt (Suc n) =
     (if 0 < attempt then [retry_delay cfg attempt] else []) @ delays cfg (attempt + 1) n"
proof -
  assume a: "0 \<le> attempt"
  have "map (\<lambda>k. retry_delay cfg (attempt + int k)) [1..<Suc n] =
      map (\<lambda>k. retry_delay cfg (attempt + 1 + int k)) [0..<n]"
    by (rule nth_equalityI) (auto simp: ac_simps simp del: upt_Suc)
  then show ?thesis using a by (cases n) (auto simp: delays_def upt_conv_Cons ac_simps simp del: upt_Suc)
qed

lemma verdict_last: "\<not> attempt < rc_MaxRetries cfg \<Longrightarrow> verdict cfg attempt meth path r \<noteq> None"
  by (auto simp: verdict_def split: sum.splits option.splits)

text \<open>
  From an attempt on, the loop sends the request at most once for every attempt that is left,
  with the delays of those attempts in order.
\<close>

lemma attempt_loop_bounded:
  assumes "0 \<le> attempt" and "attempt \<le> rc_MaxRetries cfg"
    and "attempt_loop env c cfg path req attempt w = (x, w')"
  shows "\<exists>n m. sent_by (replicate n req) (delays cfg attempt m) w w' \<and> n \<le> m \<and>
           int m \<le> rc_MaxRetries cfg + 1 - attempt"
  using assms
proof (induction env c cfg path req attempt arbitrary: w rule: attempt_loop.induct)
  case (1 env c cfg path req attempt)
  let ?ds = "if 0 < attempt then [retry_delay cfg attempt] else []"
  have d1: "delays cfg attempt 1 = ?ds" using delays_Suc [OF "1.prems"(1), of cfg 0] by (simp add: delays_def)
  obtain a w1 where a: "(if 0 < attempt then wait_for env (retry_delay cfg attempt) else io_return ()) w = (a, w1)"
    by fastforce
  have s1: "sent_by [] ?ds w w1" using a wait_for_logs by (auto split: if_splits)
  note unf = "1.prems"(3) [unfolded attempt_loop.simps [of env c cfg path req attempt] io_bind_def]
  have le: "\<not> rc_MaxRetries cfg < attempt" using "1.prems"(2) by simp
  have stop: "?case" if "w' = w1"
    using s1 d1 that "1.prems"(2) by (intro exI [of _ 0] exI [of _ 1]) simp
  show ?case
  proof (cases a)
    case (Inl e)
    then show ?thesis using unf a le stop by simp
  next
    case (Inr u)
    show ?thesis
    proof (cases "ae_CheckURL env (hr_url req)")
      case (Some e)
      then show ?thesis using unf a le stop Inr by simp
    next
      case None
      obtain r w2 where r: "api_Do env c req w1 = (r, w2)" by (cases "api_Do env c req w1")
      obtain k where k: "k \<le> 1" and s2: "sent_by (replicate k req) ?ds w w2"
        using sent_by_trans [OF s1 api_Do_logs [OF r]] that [of 0] that [of 1]
        by (cases "ae_Over env (peer (aw_net w1)) = None") auto
      show ?thesis
      proof (cases "verdict cfg attempt (hr_method req) path r")
        case v: None
        then have more: "attempt < rc_MaxRetries cfg" using verdict_last by blast
        have "attempt_loop env c cfg path req (attempt + 1) w2 = (x, w')"
          using unf a le Inr None r v by (simp add: io_try_def)
        then obtain n m where nm: "sent_by (replicate n req) (delays cfg (attempt + 1) m) w2 w'" "n \<le> m"
            "int m \<le> rc_MaxRetries cfg - attempt"
          using "1.IH" [OF le v, of w2] more "1.prems"(1) by auto
        have "sent_by (replicate k req @ replicate n req) (?ds @ delays cfg (attempt + 1) m) w w'"
          by (rule sent_by_trans [OF s2 nm(1)])
        then show ?thesis using nm k delays_Suc [OF "1.prems"(1), of cfg m]
          by (intro exI [of _ "k + n"] exI [of _ "Suc m"]) (simp add: replicate_add)
      next
        case (Some y)
        then have "w' = w2" using unf a le Inr None r by (simp add: io_try_def)
        then show ?thesis using s2 k d1 "1.prems"(2) by (intro exI [of _ k] exI [of _ 1]) simp
      qed
    qed
  qed
qed

section \<open>The loop against its specification\<close>

text \<open>
  An outcome worth another attempt, what is returned for an outcome that is final, and the
  result of a list of outcomes: the first that is not transient, or the last.
\<close>

definition transient :: "goerror + http_response \<Rightarrow> bool" where
  "transient r =
     (case r of
        Inl err \<Rightarrow> isRetryableError err
      | Inr resp \<Rightarrow> BodyErr resp \<noteq> None \<or> 500 \<le> StatusCode resp \<or> StatusCode resp \<in> {408, 429})"

definition final_result :: "string \<Rightarrow> string \<Rightarrow> goerror + http_response \<Rightarrow> goerror + string" where
  "final_result meth path r =
     (case r of
        Inl err \<Rightarrow> Inl (ErrWrap (''request '' @ meth @ '' '' @ path @ '': '') err [])
      | Inr resp \<Rightarrow>
          (case BodyErr resp of
             Some e \<Rightarrow> Inl (ErrWrap ''read response body: '' e [])
           | None \<Rightarrow> if 400 \<le> StatusCode resp then Inl (HTTPError (StatusCode resp) (Body resp))
                     else Inr (Body resp)))"

fun retry_result :: "string \<Rightarrow> string \<Rightarrow> (goerror + http_response) list \<Rightarrow> goerror + string" where
  "retry_result meth path [r] = final_result meth path r"
| "retry_result meth path (r # r' # rs) =
     (if transient r then retry_result meth path (r' # rs) else final_result meth path r)"
| "retry_result meth path [] = Inl (ErrNew [])"

text \<open>What the peer would answer to the attempts, when the waits between them are not cut short.\<close>

fun answers :: "('c, 'd) api_env \<Rightarrow> 'c \<Rightarrow> RetryConfig \<Rightarrow> http_request \<Rightarrow> int \<Rightarrow> 'd \<Rightarrow> (goerror + http_response) list \<Rightarrow> bool" where
  "answers env c cfg req attempt d [] = True"
| "answers env c cfg req attempt d (r # rs) =
     (let (e, d1) = (if 0 < attempt then ae_Wait env (retry_delay cfg attempt) d else (None, d));
          (r', d2) = http_outcome (ae_Over env) (ae_Do env c) req d1
      in e = None \<and> r' = r \<and> answers env c cfg req (attempt + 1) d2 rs)"

lemma verdict_eq:
  "verdict cfg attempt meth path r =
     (if transient r \<and> attempt < rc_MaxRetries cfg then None else Some (final_result meth path r))"
  by (auto simp: verdict_def transient_def final_result_def isRetryableStatus_def split: sum.splits option.splits)

lemma attempt_loop_refines:
  assumes "ae_CheckURL env (hr_url req) = None" and "rs \<noteq> []"
    and "answers env c cfg req attempt (peer (aw_net w)) rs"
    and "int (length rs) = rc_MaxRetries cfg + 1 - attempt"
  shows "fst (attempt_loop env c cfg path req attempt w) = retry_result (hr_method req) path rs"
  using assms
proof (induction rs arbitrary: attempt w)
  case Nil
  then show ?case by simp
next
  case (Cons r rs)
  let ?wait = "if 0 < attempt then wait_for env (retry_delay cfg attempt) else io_return ()"
  obtain d1 where d1: "(if 0 < attempt then ae_Wait env (retry_delay cfg attempt) (peer (aw_net w)) else (None, peer (aw_net w))) = (None, d1)"
    using Cons.prems(3) by (auto split: prod.splits if_splits)
  obtain w1 where w1: "?wait w = (Inr (), w1)" "peer (aw_net w1) = d1"
    using d1 by (auto simp: wait_for_def split: if_splits prod.splits)
  obtain d2 where d2: "http_outcome (ae_Over env) (ae_Do env c) req d1 = (r, d2)" "answers env c cfg req (attempt + 1) d2 rs"
    using Cons.prems(3) d1 by (auto split: prod.splits)
  obtain w2 where w2: "api_Do env c req w1 = (r, w2)" "peer (aw_net w2) = d2"
    using d2(1) w1(2) by (simp add: api_Do_def io_on_def http_Do_def)
  have le: "\<not> rc_MaxRetries cfg < attempt" using Cons.prems(4) by simp
  have unf: "fst (attempt_loop env c cfg path req attempt w) =
      (case verdict cfg attempt (hr_method req) path r of
         None \<Rightarrow> fst (attempt_loop env c cfg path req (attempt + 1) w2) | Some x \<Rightarrow> x)"
    using le w1(1) w2(1) Cons.prems(1)
    by (subst attempt_loop.simps) (simp add: io_bind_def io_try_def split: option.splits)
  show ?case
  proof (cases rs)
    case Nil
    then show ?thesis using unf Cons.prems(4) by (simp add: verdict_eq)
  next
    case (Cons r' rs')
    then show ?thesis using unf Cons.IH [of "attempt + 1" w2] Cons.prems(1,4) d2(2) w2(2)
      by (simp add: verdict_eq)
  qed
qed

section \<open>Properties\<close>

lemma doWithRetry_logs:
  assumes "0 \<le> rc_MaxRetries cfg"
    and "doWithRetry env c baseURL meth path body result cfg w = (x, w')"
  shows "\<exists>n m req. sent_by (replicate n req) (delays cfg 0 m) w w' \<and> hr_method req = meth \<and>
           hr_url req = baseURL @ path \<and> (\<forall>data. body = Inr data \<longrightarrow> hr_body req = Some data) \<and>
           int n \<le> rc_MaxRetries cfg + 1 \<and> int m \<le> rc_MaxRetries cfg + 1"
proof (cases body)
  case (Inl e)
  then have "w' = w" using assms(2) by (simp add: doWithRetry_def io_bind_def io_wrap_def)
  then show ?thesis using assms(1) Inl
    by (intro exI [of _ 0] exI [of _ "\<lparr>hr_method = meth, hr_url = baseURL @ path, hr_body = None\<rparr>"])
       (auto simp: delays_def)
next
  case (Inr data)
  let ?req = "\<lparr>hr_method = meth, hr_url = baseURL @ path, hr_body = Some data\<rparr>"
  obtain y w1 where l: "attempt_loop env c cfg path ?req 0 w = (y, w1)"
    by (cases "attempt_loop env c cfg path ?req 0 w")
  have w1: "w' = w1" using assms(2) Inr l
    by (auto simp: doWithRetry_def io_bind_def io_wrap_def split: sum.splits)
  obtain n m where "sent_by (replicate n ?req) (delays cfg 0 m) w w1" "n \<le> m"
      "int m \<le> rc_MaxRetries cfg + 1"
    using attempt_loop_bounded [OF _ assms(1) l] by auto
  then show ?thesis using Inr w1 by (intro exI [of _ n] exI [of _ m] exI [of _ ?req]) simp
qed

text \<open>The error of a context that is over is final.\<close>

lemma over_error_final: "\<not> isRetryableError (over_error req e)"
  by (cases e) (simp_all add: isRetryableError_def over_error_def errors_Is_def)

lemma over_Do: "ae_Over env (peer (aw_net w)) = Some e \<Longrightarrow> api_Do env c req w = (Inl (over_error req e), w)"
  by (simp add: api_Do_def io_on_def http_Do_def http_outcome_def)

text \<open>
  A request is sent at least once when its URL is accepted and the context is not over, and not at
  all otherwise.
\<close>

lemma attempt_loop_sends:
  assumes "0 \<le> rc_MaxRetries cfg" and "attempt_loop env c cfg path req 0 w = (x, w')"
  shows "length (sent (aw_net w)) < length (sent (aw_net w')) \<longleftrightarrow>
     ae_CheckURL env (hr_url req) = None \<and> ae_Over env (peer (aw_net w)) = None"
proof (cases "ae_CheckURL env (hr_url req) = None \<and> ae_Over env (peer (aw_net w)) = None")
  case True
  note unf = assms(2) [unfolded attempt_loop.simps [of env c cfg path req 0] io_bind_def]
  obtain r w1 where r: "api_Do env c req w = (r, w1)" by (cases "api_Do env c req w")
  have s1: "sent (aw_net w1) = sent (aw_net w) @ [req]"
    using api_Do_logs [OF r] True by (simp add: sent_by_def)
  show ?thesis
  proof (cases "verdict cfg 0 (hr_method req) path r")
    case None
    have "0 < rc_MaxRetries cfg" using verdict_last [of 0 cfg] None by blast
    moreover have "attempt_loop env c cfg path req (0 + 1) w1 = (x, w')"
      using unf assms(1) True r None by (simp add: io_try_def)
    ultimately obtain n where "sent (aw_net w') = sent (aw_net w1) @ replicate n req"
      using attempt_loop_bounded [of "0 + 1" cfg env c path req w1 x w'] by (auto simp: sent_by_def)
    then show ?thesis using s1 True by simp
  next
    case (Some y)
    then have "w' = w1" using unf assms(1) True r by (simp add: io_try_def)
    then show ?thesis using s1 True by simp
  qed
next
  case False
  note unf = assms(2) [unfolded attempt_loop.simps [of env c cfg path req 0] io_bind_def]
  have "w' = w"
  proof (cases "ae_CheckURL env (hr_url req)")
    case (Some e)
    then show ?thesis using unf assms(1) by simp
  next
    case None
    then obtain e where "ae_Over env (peer (aw_net w)) = Some e" using False by auto
    then show ?thesis
      using unf assms(1) None
      by (simp add: over_Do io_try_def verdict_eq transient_def over_error_final)
  qed
  then show ?thesis using False by auto
qed

lemma doWithRetry_sends:
  assumes "0 \<le> rc_MaxRetries cfg"
    and "doWithRetry env c baseURL meth path (Inr data) result cfg w = (x, w')"
  shows "\<exists>n. int n \<le> rc_MaxRetries cfg + 1 \<and>
     (0 < n \<longleftrightarrow> ae_CheckURL env (baseURL @ path) = None \<and> ae_Over env (peer (aw_net w)) = None) \<and>
     sent (aw_net w') = sent (aw_net w) @ replicate n \<lparr>hr_method = meth, hr_url = baseURL @ path, hr_body = Some data\<rparr>"
proof -
  let ?req = "\<lparr>hr_method = meth, hr_url = baseURL @ path, hr_body = Some data\<rparr>"
  obtain n m req where l: "sent_by (replicate n req) (delays cfg 0 m) w w'" "hr_method req = meth"
      "hr_url req = baseURL @ path" "hr_body req = Some data" "int n \<le> rc_MaxRetries cfg + 1"
    using doWithRetry_logs [OF assms] by auto
  have req: "req = ?req" using l(2-4) by (simp add: http_request.equality)
  obtain y w1 where loop: "attempt_loop env c cfg path ?req 0 w = (y, w1)"
    by (cases "attempt_loop env c cfg path ?req 0 w")
  then have "w1 = w'" using assms(2) by (auto simp: doWithRetry_def io_bind_def io_wrap_def split: sum.splits)
  note sends = attempt_loop_sends [OF assms(1) loop [unfolded this]]
  have all: "sent (aw_net w') = sent (aw_net w) @ replicate n ?req" using l(1) req by (simp add: sent_by_def)
  then have "0 < n \<longleftrightarrow> ae_CheckURL env (baseURL @ path) = None \<and> ae_Over env (peer (aw_net w)) = None"
    using sends by simp
  then show ?thesis using all l(5) by blast
qed

text \<open>A call that succeeds had a URL and a context to send its request with.\<close>

lemma doWithRetry_Inr:
  assumes "0 \<le> rc_MaxRetries cfg"
    and "doWithRetry env c baseURL meth path (Inr data) result cfg w = (Inr x, w')"
  shows "ae_CheckURL env (baseURL @ path) = None" and "ae_Over env (peer (aw_net w)) = None"
proof -
  let ?req = "\<lparr>hr_method = meth, hr_url = baseURL @ path, hr_body = Some data\<rparr>"
  obtain d where d: "attempt_loop env c cfg path ?req 0 w = (Inr d, w')"
    using assms(2) by (auto simp: doWithRetry_def io_success)
  note unf = d [unfolded attempt_loop.simps [of env c cfg path ?req 0] io_bind_def]
  show url: "ae_CheckURL env (baseURL @ path) = None"
    using unf assms(1) by (cases "ae_CheckURL env (baseURL @ path)") simp_all
  show "ae_Over env (peer (aw_net w)) = None"
  proof (cases "ae_Over env (peer (aw_net w))")
    case (Some e)
    then show ?thesis using unf assms(1) url
      by (simp add: over_Do io_try_def verdict_eq transient_def final_result_def over_error_final)
  qed simp
qed

lemma default_delays:
  "m \<le> 6 \<Longrightarrow> delays DefaultRetryConfig 0 m = map (\<lambda>k. 2 ^ k * Second) [0..<m - 1]"
proof -
  assume "m \<le> 6"
  moreover have "list_all (\<lambda>m. delays DefaultRetryConfig 0 m = map (\<lambda>k. 2 ^ k * Second) [0..<m - 1]) [0..<7]"
    by code_simp
  ultimately show ?thesis by (simp add: list_all_iff)
qed

lemma default_delays_sum: "m \<le> 6 \<Longrightarrow> sum_list (map (\<lambda>k. 2 ^ k * Second) [0..<m - 1]) \<le> 31 * Second"
proof -
  assume "m \<le> 6"
  moreover have "list_all (\<lambda>m. sum_list (map (\<lambda>k. 2 ^ k * Second) [0..<m - 1]) \<le> 31 * Second) [0..<7]"
    by code_simp
  ultimately show ?thesis by (simp add: list_all_iff)
qed

text \<open>
  Property C10. One call of the control plane with the default configuration ends after at
  most six requests, all the same, whatever the peer answers and whenever the context ends.
  The waits in between are 1, 2, 4, 8 and 16 seconds, in this order, so a call never waits
  for more than 31 seconds.
\<close>

theorem doWithRetry_bounded:
  assumes "doWithRetry env c baseURL meth path body result DefaultRetryConfig w = (x, w')"
  shows "\<exists>n m req. n \<le> 6 \<and> m \<le> 5 \<and> hr_method req = meth \<and> hr_url req = baseURL @ path \<and>
     sent (aw_net w') = sent (aw_net w) @ replicate n req \<and>
     aw_waits w' = aw_waits w @ map (\<lambda>k. 2 ^ k * Second) [0..<m] \<and>
     sum_list (map (\<lambda>k. 2 ^ k * Second) [0..<m]) \<le> 31 * Second"
proof -
  obtain n m req where l: "sent_by (replicate n req) (delays DefaultRetryConfig 0 m) w w'"
      "hr_method req = meth" "hr_url req = baseURL @ path" "n \<le> 6" "m \<le> 6"
    using doWithRetry_logs [OF _ assms] by (auto simp: DefaultRetryConfig_def)
  then show ?thesis using default_delays [of m] default_delays_sum [of m]
    by (intro exI [of _ n] exI [of _ "m - 1"] exI [of _ req]) (auto simp: sent_by_def)
qed

text \<open>
  Property C9. The retry loop refines its specification: with the outcomes the peer has in
  store for the attempts, \<open>doWithRetry\<close> returns what the first outcome that is not transient
  gives, or the last outcome when all are transient. It always returns, and never with the
  message that the retries are exhausted.
\<close>

theorem doWithRetry_refines:
  assumes "ae_CheckURL env (baseURL @ path) = None" and "rs \<noteq> []"
    and "answers env c cfg \<lparr>hr_method = meth, hr_url = baseURL @ path, hr_body = Some data\<rparr> 0
           (peer (aw_net w)) rs"
    and "int (length rs) = rc_MaxRetries cfg + 1"
  shows "fst (doWithRetry env c baseURL meth path (Inr data) result cfg w) =
     result_bind (retry_result meth path rs)
       (\<lambda>d. map_error (\<lambda>e. ErrWrap ''unmarshal response: '' e []) (result d))"
proof -
  let ?req = "\<lparr>hr_method = meth, hr_url = baseURL @ path, hr_body = Some data\<rparr>"
  have "fst (attempt_loop env c cfg path ?req 0 w) = retry_result meth path rs"
    using attempt_loop_refines [of env ?req rs c cfg 0 w path] assms by simp
  then show ?thesis
    by (cases "attempt_loop env c cfg path ?req 0 w")
       (auto simp: doWithRetry_def io_bind_def io_wrap_def split: sum.splits)
qed

text \<open>
  Property C37. A transport error that is no timeout is not tried again. \<open>http.Client.Do\<close> wraps
  every error in a \<open>*url.Error\<close>, which is a \<open>net.Error\<close>: for a refused connection or a failed
  name lookup \<open>isRetryableError\<close> therefore asks \<open>Timeout()\<close> of the wrapper, gets false, and the
  call fails after one request (after none, when its context was over before).
\<close>

theorem refused_connection_not_retried:
  assumes "ae_CheckURL env (baseURL @ path) = None"
    and "\<And>req d. ae_Do env c req d = (Inl (ErrURL s cause False), d)" and "0 \<le> rc_MaxRetries cfg"
  shows "\<exists>e w'. doWithRetry env c baseURL meth path (Inr data) result cfg w = (Inl e, w') \<and>
           length (sent (aw_net w')) =
             length (sent (aw_net w)) + (if ae_Over env (peer (aw_net w)) = None then 1 else 0)"
proof -
  let ?req = "\<lparr>hr_method = meth, hr_url = baseURL @ path, hr_body = Some data\<rparr>"
  have "\<not> isRetryableError (ErrURL s cause False)"
    by (simp add: isRetryableError_def errors_As_net_def)
  then obtain e where e: "\<not> isRetryableError e" "http_outcome (ae_Over env) (ae_Do env c) ?req (peer (aw_net w)) = (Inl e, peer (aw_net w))"
    using assms(2) over_error_final [of ?req] by (cases "ae_Over env (peer (aw_net w))") (simp_all add: http_outcome_def, metis)
  then show ?thesis using assms(1,3)
    by (auto simp: doWithRetry_def io_wrap_def io_bind_def attempt_loop.simps [of env c cfg path ?req 0]
        io_try_def api_Do_def io_on_def http_Do_def verdict_eq transient_def final_result_def Let_def)
qed

section \<open>Witnesses\<close>

text \<open>A peer that answers what is in its list, waits that are never cut short.\<close>

definition script_env :: "(unit, (goerror + http_response) list) api_env" where
  "script_env = \<lparr>ae_Do = (\<lambda>_ _ d. (hd d, tl d)), ae_Over = (\<lambda>_. None), ae_Wait = (\<lambda>_ d. (None, d)), ae_CheckURL = (\<lambda>_. None)\<rparr>"

definition script_world :: "(goerror + http_response) list \<Rightarrow> (goerror + http_response) list api_world" where
  "script_world rs = \<lparr>aw_net = \<lparr>sent = [], peer = rs\<rparr>, aw_waits = []\<rparr>"

definition status_resp :: "int \<Rightarrow> string \<Rightarrow> goerror + http_response" where
  "status_resp n b = Inr \<lparr>StatusCode = n, Body = b, BodyErr = None\<rparr>"

abbreviation sample_answers :: "(goerror + http_response) list" where
  "sample_answers \<equiv> [status_resp 503 [], status_resp 429 [], status_resp 200 ''ok'', status_resp 200 [], status_resp 200 [], status_resp 200 []]"

theorem doWithRetry_bounded_witness:
  "\<exists>n req. n \<le> 6 \<and> sent (aw_net (snd (doWithRetry script_env () ''u'' ''POST'' ''/p'' (Inr JNull) no_result
     DefaultRetryConfig (script_world sample_answers)))) = replicate n req"
proof -
  let ?r = "doWithRetry script_env () ''u'' ''POST'' ''/p'' (Inr JNull) no_result DefaultRetryConfig
     (script_world sample_answers)"
  have "?r = (fst ?r, snd ?r)" by simp
  from doWithRetry_bounded [OF this] obtain n req where
    "n \<le> 6" "sent (aw_net (snd ?r)) = sent (aw_net (script_world sample_answers)) @ replicate n req" by blast
  then show ?thesis by (auto simp: script_world_def)
qed

theorem doWithRetry_refines_witness:
  "fst (doWithRetry script_env () ''u'' ''POST'' ''/p'' (Inr JNull) Inr DefaultRetryConfig
     (script_world sample_answers)) = Inr ''ok''"
proof -
  have "answers script_env () DefaultRetryConfig
      \<lparr>hr_method = ''POST'', hr_url = ''u'' @ ''/p'', hr_body = Some JNull\<rparr> 0
      (peer (aw_net (script_world sample_answers))) sample_answers"
    by (simp add: script_env_def script_world_def http_outcome_def)
  moreover have "ae_CheckURL script_env (''u'' @ ''/p'') = None" by (simp add: script_env_def)
  moreover have "int (length sample_answers) = rc_MaxRetries DefaultRetryConfig + 1"
    by (simp add: DefaultRetryConfig_def)
  ultimately have "fst (doWithRetry script_env () ''u'' ''POST'' ''/p'' (Inr JNull) Inr DefaultRetryConfig
      (script_world sample_answers)) =
      result_bind (retry_result ''POST'' ''/p'' sample_answers) (\<lambda>d. map_error (\<lambda>e. ErrWrap ''unmarshal response: '' e []) (Inr d))"
    by (intro doWithRetry_refines) simp_all
  then show ?thesis
    by (simp add: transient_def final_result_def isRetryableStatus_def status_resp_def)
qed

definition refusing_env :: "(unit, unit) api_env" where
  "refusing_env = \<lparr>ae_Do = (\<lambda>_ _ d. (Inl (ErrURL ''Post u'' (ErrNew ''connection refused'') False), d)),
     ae_Over = (\<lambda>_. None), ae_Wait = (\<lambda>_ d. (None, d)), ae_CheckURL = (\<lambda>_. None)\<rparr>"

theorem refused_connection_not_retried_witness:
  "\<exists>e w'. doWithRetry refusing_env () ''u'' ''POST'' ''/p'' (Inr JNull) no_result DefaultRetryConfig
       \<lparr>aw_net = \<lparr>sent = [], peer = ()\<rparr>, aw_waits = []\<rparr> = (Inl e, w') \<and> length (sent (aw_net w')) = 1"
proof -
  let ?w = "\<lparr>aw_net = \<lparr>sent = [], peer = ()\<rparr>, aw_waits = []\<rparr>"
  have "\<exists>e w'. doWithRetry refusing_env () ''u'' ''POST'' ''/p'' (Inr JNull) no_result DefaultRetryConfig ?w = (Inl e, w') \<and>
      length (sent (aw_net w')) = length (sent (aw_net ?w)) + (if ae_Over refusing_env (peer (aw_net ?w)) = None then 1 else 0)"
    by (rule refused_connection_not_retried) (simp_all add: refusing_env_def DefaultRetryConfig_def)
  then show ?thesis by (simp add: refusing_env_def)
qed

end
