(* ===== verification/Heartbeat.thy ===== *)
theory Heartbeat
  imports GoFiles GoJson GoHost Complex_Main
begin

text \<open>
  The data of a heartbeat (\<open>internal/api/heartbeat.go\<close>, \<open>heartbeat_linux.go\<close>,
  \<open>heartbeat_other.go\<close>): capabilities, system information and metrics.

  The files under \<open>/proc\<close>, \<open>/sys\<close> and \<open>/etc\<close> are files of the model's file system; a
  directory that is asked about is an entry of it. What the system calls \<open>uname\<close> and
  \<open>statfs\<close> return, \<open>$PATH\<close>, and what the host does to its files during the second that
  \<open>cpuPercent\<close> sleeps are the environment \<open>hb_env\<close>. A file is read as a whole: an error in
  the middle of it is not modelled.

  Counters are 64-bit words and wrap around. The operations on \<open>float64\<close> are a parameter
  (\<open>float_ops\<close>), so that what is proved holds for every rounding; \<open>exact_floats\<close> is the
  instance that does not round.
\<close>

section \<open>Strings and lines\<close>

function fields_from :: "string \<Rightarrow> string \<Rightarrow> string list" where
  "fields_from cur [] = (if cur = [] then [] else [cur])"
| "fields_from cur (c # s) =
     (case find (HasPrefix (c # s)) space_runes of
        Some r \<Rightarrow> (if cur = [] then [] else [cur]) @ fields_from [] (drop (length r - 1) s)
      | None \<Rightarrow> fields_from (cur @ [c]) s)"
  by pat_completeness auto
termination by (relation "measure (\<lambda>(cur, s). length s)") auto

definition Fields :: "string \<Rightarrow> string list" where
  "Fields s = fields_from [] s"

text \<open>\<open>strings.Trim\<close> with one character.\<close>

definition trim_char :: "char \<Rightarrow> string \<Rightarrow> string" where
  "trim_char c s = rev (dropWhile (\<lambda>x. x = c) (rev (dropWhile (\<lambda>x. x = c) s)))"

text \<open>
  The lines a \<open>bufio.Scanner\<close> gives: without the line end, a last empty line left out, and
  ended by a line that does not fit its buffer of 65536 bytes.
\<close>

definition drop_cr :: "string \<Rightarrow> string" where
  "drop_cr l = (if l \<noteq> [] \<and> last l = CHR 0x0D then butlast l else l)"

definition scan_lines :: "string \<Rightarrow> string list" where
  "scan_lines data =
     (let ls = Split CHR 0x0A data; ls' = (if last ls = [] then butlast ls else ls)
      in map drop_cr (takeWhile (\<lambda>l. length l < 65536) ls'))"

text \<open>\<open>strconv.ParseUint(s, 10, 64)\<close>: beside an error the value is 0, or the largest for a range error.\<close>

definition ParseUint64 :: "string \<Rightarrow> 64 word" where
  "ParseUint64 s =
     (if s = [] then 0
      else (case digits_value 0 s of
              None \<Rightarrow> 0
            | Some n \<Rightarrow> if 2 ^ 64 \<le> n then - 1 else of_nat n))"

section \<open>Environment\<close>

record 'f float_ops =
  fl_num :: "int \<Rightarrow> 'f"
  fl_of_uint64 :: "64 word \<Rightarrow> 'f"
  fl_sub :: "'f \<Rightarrow> 'f \<Rightarrow> 'f"
  fl_mul :: "'f \<Rightarrow> 'f \<Rightarrow> 'f"
  fl_div :: "'f \<Rightarrow> 'f \<Rightarrow> 'f"
  fl_Round :: "'f \<Rightarrow> 'f"
  fl_ParseFloat :: "string \<Rightarrow> 'f"
  fl_json :: "'f \<Rightarrow> goerror + string"

record Utsname =
  un_Machine :: "8 word list"
  un_Release :: "8 word list"

record 'f hb_env =
  he_floats :: "'f float_ops"
  he_Uname :: "Utsname option"
  he_Statfs :: "string \<Rightarrow> (64 word \<times> 64 word) option"
  he_PATH :: string
  he_second :: "fsys \<Rightarrow> fsys"

section \<open>Capabilities\<close>

text \<open>\<open>exec.LookPath\<close>: the first directory of \<open>$PATH\<close> with an executable file of the name.\<close>

definition is_executable :: "nat \<Rightarrow> bool" where
  "is_executable perm \<longleftrightarrow> odd (perm div 64) \<or> odd (perm div 8) \<or> odd perm"

definition find_executable :: "string \<Rightarrow> (fsys, bool) io" where
  "find_executable path s =
     (case next_fault s of
        (Some _, s') \<Rightarrow> (Inr False, s')
      | (None, s') \<Rightarrow>
          (Inr (case fs_files s' path of None \<Rightarrow> False | Some f \<Rightarrow> is_executable (fi_Perm f)), s'))"

fun look_dirs :: "string \<Rightarrow> string list \<Rightarrow> (fsys, string) io" where
  "look_dirs bin [] = io_fail (ErrNew (''exec: '' @ Quote bin @ '': executable file not found in $PATH''))"
| "look_dirs bin (d # ds) =
     (let path = filepath_Join [if d = [] then ''.'' else d, bin]
      in io_bind (find_executable path) (\<lambda>found.
           if \<not> found then look_dirs bin ds
           else if filepath_IsAbs path then io_return path
           else io_fail (ErrNew (''exec: '' @ Quote bin @ '': cannot run executable found relative to current directory''))))"

definition LookPath :: "string \<Rightarrow> string \<Rightarrow> (fsys, string) io" where
  "LookPath PATH bin = look_dirs bin (if PATH = [] then [] else Split CHR '':'' PATH)"

definition capability_binaries :: "string list" where
  "capability_binaries =
     [''xray'', ''amnezia-wg'', ''amnezia-wg-go'', ''haproxy'', ''3proxy'', ''telemt'', ''mtproto-proxy'', ''nft'']"

definition add_if_ok :: "(fsys, 'a) io \<Rightarrow> string \<Rightarrow> string list \<Rightarrow> (fsys, string list) io" where
  "add_if_ok probe name caps =
     io_bind (io_try probe) (\<lambda>r. io_return (if is_ok r then caps @ [name] else caps))"

fun probe_binaries :: "string \<Rightarrow> string list \<Rightarrow> string list \<Rightarrow> (fsys, string list) io" where
  "probe_binaries PATH [] caps = io_return caps"
| "probe_binaries PATH (b # bs) caps =
     io_bind (add_if_ok (LookPath PATH b) b caps) (\<lambda>caps'. probe_binaries PATH bs caps')"

definition DetectCapabilities :: "string \<Rightarrow> (fsys, string list) io" where
  "DetectCapabilities PATH =
     io_bind (probe_binaries PATH capability_binaries []) (\<lambda>caps.
     io_bind (add_if_ok (os_Stat ''/sys/module/amneziawg'') ''amneziawg-kernel'' caps) (\<lambda>caps'.
     add_if_ok (os_Stat ''/sys/module/nf_tables'') ''nftables-kernel'' caps'))"

section \<open>System information\<close>

text \<open>Bytes of a \<open>[]int8\<close> up to the first zero.\<close>

fun charsToString :: "8 word list \<Rightarrow> string" where
  "charsToString [] = []"
| "charsToString (c # ca) = (if c = 0 then [] else char_of (unat c) # charsToString ca)"

definition pretty_name :: "string list \<Rightarrow> string" where
  "pretty_name ls =
     (case find (\<lambda>l. HasPrefix l ''PRETTY_NAME='') ls of
        None \<Rightarrow> []
      | Some l \<Rightarrow> trim_char CHR 0x22 (TrimPrefix l ''PRETTY_NAME=''))"

text \<open>The lines of a file, none when it cannot be opened.\<close>

definition file_lines :: "string \<Rightarrow> (fsys, string list) io" where
  "file_lines path =
     io_bind (io_try (os_ReadFile path)) (\<lambda>r. io_return (case r of Inl _ \<Rightarrow> [] | Inr d \<Rightarrow> scan_lines d))"

definition readOSRelease :: "(fsys, string) io" where
  "readOSRelease = io_bind (file_lines ''/etc/os-release'') (\<lambda>ls. io_return (pretty_name ls))"

definition non_empty_or :: "string \<Rightarrow> string \<Rightarrow> string" where
  "non_empty_or d s = (if s = [] then d else s)"

definition CollectSystemInfo :: "Utsname option \<Rightarrow> (fsys, string \<times> string \<times> string) io" where
  "CollectSystemInfo uname =
     io_bind readOSRelease (\<lambda>osName.
       let arch = (case uname of None \<Rightarrow> [] | Some u \<Rightarrow> charsToString (un_Machine u));
           kernel = (case uname of None \<Rightarrow> [] | Some u \<Rightarrow> charsToString (un_Release u))
       in io_return (non_empty_or ''Linux'' osName, non_empty_or ''unknown'' arch, non_empty_or ''unknown'' kernel))"

section \<open>Metrics\<close>

record cpuStat =
  cpu_total :: "64 word"
  cpu_idle :: "64 word"

fun sum_fields :: "nat \<Rightarrow> string list \<Rightarrow> cpuStat \<Rightarrow> cpuStat" where
  "sum_fields i [] st = st"
| "sum_fields i (f # fs) st =
     (let val = ParseUint64 f; st1 = st\<lparr>cpu_total := cpu_total st + val\<rparr>
      in sum_fields (i + 1) fs (if i = 3 then st1\<lparr>cpu_idle := val\<rparr> else st1))"

definition parse_cpu_stat :: "string list \<Rightarrow> goerror + cpuStat" where
  "parse_cpu_stat ls =
     (case ls of
        [] \<Rightarrow> Inl (ErrNew ''empty /proc/stat'')
      | l # _ \<Rightarrow>
          (let fields = Fields l
           in if length fields < 5 \<or> fields ! 0 \<noteq> ''cpu'' then Inl (ErrNew ''unexpected /proc/stat format'')
              else Inr (sum_fields 0 (drop 1 fields) \<lparr>cpu_total = 0, cpu_idle = 0\<rparr>)))"

definition readCPUStat :: "(fsys, cpuStat) io" where
  "readCPUStat = io_bind (os_ReadFile ''/proc/stat'') (\<lambda>d. io_lift (parse_cpu_stat (scan_lines d)))"

definition cpu_usage :: "'f float_ops \<Rightarrow> cpuStat \<Rightarrow> cpuStat \<Rightarrow> 'f" where
  "cpu_usage fl stat1 stat2 =
     (let idle = cpu_idle stat2 - cpu_idle stat1;
          tot = cpu_total stat2 - cpu_total stat1
      in if tot = 0 then fl_num fl 0
         else
           (let usage = fl_mul fl (fl_sub fl (fl_num fl 1) (fl_div fl (fl_of_uint64 fl idle) (fl_of_uint64 fl tot)))
                          (fl_num fl 100)
            in fl_div fl (fl_Round fl (fl_mul fl usage (fl_num fl 10))) (fl_num fl 10)))"

definition cpuPercent :: "'f hb_env \<Rightarrow> (fsys, 'f) io" where
  "cpuPercent env =
     io_bind (io_try readCPUStat) (\<lambda>r1.
       case r1 of
         Inl _ \<Rightarrow> io_return (fl_num (he_floats env) 0)
       | Inr stat1 \<Rightarrow>
           io_bind (\<lambda>s. (Inr (), he_second env s)) (\<lambda>_.
           io_bind (io_try readCPUStat) (\<lambda>r2. io_return (
             case r2 of
               Inl _ \<Rightarrow> fl_num (he_floats env) 0
             | Inr stat2 \<Rightarrow> cpu_usage (he_floats env) stat1 stat2))))"

text \<open>The value of the first line of the key that has a value.\<close>

definition meminfo_value :: "string \<Rightarrow> string list \<Rightarrow> int" where
  "meminfo_value key ls =
     (case find (\<lambda>l. HasPrefix l (key @ '':'') \<and> 2 \<le> length (Fields l)) ls of
        None \<Rightarrow> 0
      | Some l \<Rightarrow> fst (ParseInt64 (Fields l ! 1)))"

definition procMeminfoField :: "string \<Rightarrow> (fsys, int) io" where
  "procMeminfoField key = io_bind (file_lines ''/proc/meminfo'') (\<lambda>ls. io_return (meminfo_value key ls))"

text \<open>Go's division truncates towards zero.\<close>

definition quot_1024 :: "int \<Rightarrow> int" where
  "quot_1024 n = (if n < 0 then - ((- n) div 1024) else n div 1024)"

definition used_mb :: "int \<Rightarrow> int \<Rightarrow> int" where
  "used_mb tot avail = (if tot = 0 then 0 else quot_1024 (wrap64 (tot - avail)))"

definition memoryUsedMB :: "(fsys, int) io" where
  "memoryUsedMB =
     io_bind (procMeminfoField ''MemTotal'') (\<lambda>tot.
     io_bind (procMeminfoField ''MemAvailable'') (\<lambda>avail. io_return (used_mb tot avail)))"

definition diskFreeGB :: "'f hb_env \<Rightarrow> string \<Rightarrow> 'f" where
  "diskFreeGB env path =
     (case he_Statfs env path of
        None \<Rightarrow> fl_num (he_floats env) 0
      | Some (bavail, bsize) \<Rightarrow>
          fl_div (he_floats env) (fl_of_uint64 (he_floats env) (bavail * bsize))
            (fl_num (he_floats env) (1024 * 1024 * 1024)))"

definition loadAvg1m :: "'f float_ops \<Rightarrow> (fsys, 'f) io" where
  "loadAvg1m fl =
     io_bind (io_try (os_ReadFile ''/proc/loadavg'')) (\<lambda>r. io_return (
       case r of
         Inl _ \<Rightarrow> fl_num fl 0
       | Inr data \<Rightarrow> (case Fields data of [] \<Rightarrow> fl_num fl 0 | f # _ \<Rightarrow> fl_ParseFloat fl f)))"

record 'f SystemMetrics =
  sm_CPUPercent :: 'f
  sm_MemoryUsedMB :: int
  sm_DiskFreeGB :: 'f
  sm_LoadAvg1m :: 'f

definition CollectSystemMetrics :: "'f hb_env \<Rightarrow> (fsys, 'f SystemMetrics) io" where
  "CollectSystemMetrics env =
     io_bind (cpuPercent env) (\<lambda>cpu.
     io_bind memoryUsedMB (\<lambda>mem.
     io_bind (loadAvg1m (he_floats env)) (\<lambda>load.
     io_return \<lparr>sm_CPUPercent = cpu, sm_MemoryUsedMB = mem,
       sm_DiskFreeGB = diskFreeGB env ''/'', sm_LoadAvg1m = load\<rparr>)))"

section \<open>Other platforms\<close>

definition CollectSystemInfo_other :: "string \<Rightarrow> string \<times> string \<times> string" where
  "CollectSystemInfo_other GOARCH = (''Development'', GOARCH, ''unknown'')"

definition CollectSystemMetrics_other :: "'f float_ops \<Rightarrow> 'f SystemMetrics" where
  "CollectSystemMetrics_other fl =
     \<lparr>sm_CPUPercent = fl_num fl 0, sm_MemoryUsedMB = 0, sm_DiskFreeGB = fl_num fl 0, sm_LoadAvg1m = fl_num fl 0\<rparr>"

section \<open>The request\<close>

record ServiceState =
  hss_ServiceID :: string
  hss_Type :: string
  hss_ActualState :: string
  hss_ActiveRevision :: int
  hss_PID :: int
  hss_PortListening :: bool

record 'f HeartbeatRequest =
  hq_NodeID :: string
  hq_AgentVersion :: string
  hq_OS :: string
  hq_Architecture :: string
  hq_KernelVersion :: string
  hq_Capabilities :: "string list"
  hq_Services :: "ServiceState list"
  hq_System :: "'f SystemMetrics"

text \<open>The lists are slices that are nil when nothing was appended: written as null.\<close>

definition nil_or_arr :: "json list \<Rightarrow> json" where
  "nil_or_arr vs = (if vs = [] then JNull else JArr vs)"

definition ServiceState_json :: "ServiceState \<Rightarrow> json" where
  "ServiceState_json s =
     JObj [(''service_id'', JStr (hss_ServiceID s)), (''type'', JStr (hss_Type s)),
           (''actual_state'', JStr (hss_ActualState s)), (''active_revision'', JNum (itoa (hss_ActiveRevision s))),
           (''pid'', JNum (itoa (hss_PID s))), (''port_listening'', JBool (hss_PortListening s))]"

definition SystemMetrics_json :: "'f float_ops \<Rightarrow> 'f SystemMetrics \<Rightarrow> goerror + json" where
  "SystemMetrics_json fl m =
     result_bind (fl_json fl (sm_CPUPercent m)) (\<lambda>cpu.
     result_bind (fl_json fl (sm_DiskFreeGB m)) (\<lambda>disk.
     result_bind (fl_json fl (sm_LoadAvg1m m)) (\<lambda>load.
     Inr (JObj [(''cpu_percent'', JNum cpu), (''memory_used_mb'', JNum (itoa (sm_MemoryUsedMB m))),
                (''disk_free_gb'', JNum disk), (''load_avg_1m'', JNum load)]))))"

definition HeartbeatRequest_json :: "'f float_ops \<Rightarrow> 'f HeartbeatRequest \<Rightarrow> goerror + json" where
  "HeartbeatRequest_json fl r =
     result_bind (SystemMetrics_json fl (hq_System r)) (\<lambda>sys.
     Inr (JObj [(''node_id'', JStr (hq_NodeID r)), (''agent_version'', JStr (hq_AgentVersion r)),
                (''os'', JStr (hq_OS r)), (''architecture'', JStr (hq_Architecture r)),
                (''kernel_version'', JStr (hq_KernelVersion r)),
                (''capabilities'', nil_or_arr (map JStr (hq_Capabilities r))),
                (''services'', nil_or_arr (map ServiceState_json (hq_Services r))),
                (''system'', sys)]))"

section \<open>Properties\<close>

text \<open>The executable of a name that \<open>LookPath\<close> finds, on the files as they are.\<close>

definition executable_at :: "files \<Rightarrow> string \<Rightarrow> bool" where
  "executable_at f path \<longleftrightarrow> (case f path of None \<Rightarrow> False | Some x \<Rightarrow> is_executable (fi_Perm x))"

definition candidates :: "string \<Rightarrow> string \<Rightarrow> string list" where
  "candidates PATH bin =
     map (\<lambda>d. filepath_Join [if d = [] then ''.'' else d, bin]) (if PATH = [] then [] else Split CHR '':'' PATH)"

definition installed :: "files \<Rightarrow> string \<Rightarrow> string \<Rightarrow> bool" where
  "installed f PATH bin \<longleftrightarrow>
     (case find (executable_at f) (candidates PATH bin) of None \<Rightarrow> False | Some p \<Rightarrow> filepath_IsAbs p)"

lemma look_dirs_spec:
  assumes "fs_faults s = []"
  shows "snd (look_dirs bin ds s) = s \<and>
    (is_ok (fst (look_dirs bin ds s)) \<longleftrightarrow>
       (case find (executable_at (fs_files s)) (map (\<lambda>d. filepath_Join [if d = [] then ''.'' else d, bin]) ds) of
          None \<Rightarrow> False | Some p \<Rightarrow> filepath_IsAbs p))"
  using assms
  by (induction ds) (simp_all add: io_bind_def find_executable_def next_fault_def executable_at_def Let_def)

lemma LookPath_spec:
  "fs_faults s = [] \<Longrightarrow> snd (LookPath PATH bin s) = s \<and> (is_ok (fst (LookPath PATH bin s)) \<longleftrightarrow> installed (fs_files s) PATH bin)"
  unfolding LookPath_def installed_def candidates_def by (rule look_dirs_spec)

lemma add_if_ok_spec:
  assumes "snd (m s) = s"
  shows "add_if_ok m name caps s = (Inr (if is_ok (fst (m s)) then caps @ [name] else caps), s)"
  using assms by (cases "m s") (simp add: add_if_ok_def io_bind_def io_try_def)

lemma probe_binaries_spec:
  assumes "fs_faults s = []"
  shows "probe_binaries PATH bs caps s = (Inr (caps @ filter (installed (fs_files s) PATH) bs), s)"
proof (induction bs arbitrary: caps)
  case (Cons b bs)
  note l = LookPath_spec [OF assms, of PATH b]
  show ?case using Cons.IH l
    by (simp add: io_bind_def add_if_ok_spec)
qed simp

lemma Stat_spec:
  "fs_faults s = [] \<Longrightarrow> snd (os_Stat p s) = s \<and> (is_ok (fst (os_Stat p s)) \<longleftrightarrow> fs_files s p \<noteq> None)"
  by (simp add: os_Stat_def next_fault_def split: option.split)

text \<open>
  Property C30. \<open>DetectCapabilities\<close> reports exactly what is there: the known programs that
  \<open>$PATH\<close> leads to, in their fixed order, then the kernel modules that are loaded. It changes
  nothing.
\<close>

theorem DetectCapabilities_exact:
  assumes "fs_faults s = []"
  shows "DetectCapabilities PATH s =
    (Inr (filter (installed (fs_files s) PATH) capability_binaries @
          (if fs_files s ''/sys/module/amneziawg'' \<noteq> None then [''amneziawg-kernel''] else []) @
          (if fs_files s ''/sys/module/nf_tables'' \<noteq> None then [''nftables-kernel''] else [])), s)"
  using Stat_spec [OF assms]
  by (simp add: DetectCapabilities_def io_bind_def probe_binaries_spec [OF assms] add_if_ok_spec)

lemma readOSRelease_returns: "\<exists>n s'. readOSRelease s = (Inr n, s')"
  by (cases "os_ReadFile ''/etc/os-release'' s")
     (simp add: readOSRelease_def file_lines_def io_bind_def io_try_def)

text \<open>
  \<open>CollectSystemInfo\<close> always returns, whatever cannot be read, and all three of
  its strings are non-empty.
\<close>

theorem CollectSystemInfo_total:
  "\<exists>osName arch kernel s'. CollectSystemInfo uname s = (Inr (osName, arch, kernel), s') \<and>
     osName \<noteq> [] \<and> arch \<noteq> [] \<and> kernel \<noteq> []"
proof -
  obtain n s' where "readOSRelease s = (Inr n, s')" using readOSRelease_returns by blast
  then show ?thesis by (simp add: CollectSystemInfo_def io_bind_def Let_def non_empty_or_def)
qed

text \<open>
  The used memory is exact and in bounds: when the available memory is at most
  the total, the report is the difference in whole megabytes, between 0 and the total.
\<close>

theorem used_mb_bounds:
  assumes "0 \<le> avail" and "avail \<le> tot" and "tot < 2 ^ 63"
  shows "used_mb tot avail = (tot - avail) div 1024 \<and> 0 \<le> used_mb tot avail \<and> used_mb tot avail \<le> tot div 1024"
proof -
  have "wrap64 (tot - avail) = tot - avail" by (rule wrap64_id) (use assms in simp_all)
  moreover have "(tot - avail) div 1024 \<le> tot div 1024" using assms by (intro zdiv_mono1) simp_all
  ultimately show ?thesis using assms by (simp add: used_mb_def quot_1024_def pos_imp_zdiv_nonneg_iff)
qed

theorem used_mb_bounds_witness: "used_mb 16384000 8192000 = 8000"
  using used_mb_bounds [of 8192000 16384000] by simp

text \<open>\<open>float64\<close> without rounding; \<open>math.Round\<close> rounds half away from zero.\<close>

definition real_Round :: "real \<Rightarrow> real" where
  "real_Round x = (if x < 0 then - of_int \<lfloor>- x + 1 / 2\<rfloor> else of_int \<lfloor>x + 1 / 2\<rfloor>)"

definition exact_floats :: "(string \<Rightarrow> real) \<Rightarrow> (real \<Rightarrow> goerror + string) \<Rightarrow> real float_ops" where
  "exact_floats parse enc = \<lparr>fl_num = of_int, fl_of_uint64 = (\<lambda>w. of_nat (unat w)), fl_sub = (-), fl_mul = (*),
     fl_div = (/), fl_Round = real_Round, fl_ParseFloat = parse, fl_json = enc\<rparr>"

text \<open>
  Property C31. The CPU percentage, in exact arithmetic, is between 0 and 100 whenever the idle
  counter advances by no more than the total counter, even when the 64-bit counters wrap
  around in between. When the total counter did not advance, it is the number 0, with any
  floating-point arithmetic: nothing is divided by zero.
\<close>

theorem cpu_usage_range:
  "(cpu_idle s2 - cpu_idle s1 \<le> cpu_total s2 - cpu_total s1 \<longrightarrow>
      0 \<le> cpu_usage (exact_floats p j) s1 s2 \<and> cpu_usage (exact_floats p j) s1 s2 \<le> 100) \<and>
   (cpu_total s2 = cpu_total s1 \<longrightarrow> cpu_usage fl s1 s2 = fl_num fl 0)"
proof (intro conjI impI)
  assume "cpu_total s2 = cpu_total s1"
  then show "cpu_usage fl s1 s2 = fl_num fl 0" by (simp add: cpu_usage_def)
next
  assume adv: "cpu_idle s2 - cpu_idle s1 \<le> cpu_total s2 - cpu_total s1"
  define i t where it: "i = unat (cpu_idle s2 - cpu_idle s1)" "t = unat (cpu_total s2 - cpu_total s1)"
  have le: "i \<le> t" using adv by (simp add: it word_le_nat_alt)
  have fl: "fl_of_uint64 (exact_floats p j) (cpu_idle s2 - cpu_idle s1) = real i"
    "fl_of_uint64 (exact_floats p j) (cpu_total s2 - cpu_total s1) = real t"
    unfolding it by (simp_all only: exact_floats_def float_ops.select_convs)
  have "0 \<le> cpu_usage (exact_floats p j) s1 s2 \<and> cpu_usage (exact_floats p j) s1 s2 \<le> 100"
  proof (cases "cpu_total s2 - cpu_total s1 = 0")
    case True
    then show ?thesis by (simp add: cpu_usage_def exact_floats_def Let_def)
  next
    case False
    then have "0 < t" by (simp add: it unat_gt_0)
    then have q: "0 \<le> real i / real t" "real i / real t \<le> 1" using le by simp_all
    define x where "x = (1 - real i / real t) * 100 * 10"
    have x: "0 \<le> x" "x \<le> 1000" using q by (simp_all add: x_def)
    have "0 \<le> \<lfloor>x + 1 / 2\<rfloor>" "\<lfloor>x + 1 / 2\<rfloor> \<le> 1000" using x by linarith+
    then have "0 \<le> real_Round x / 10 \<and> real_Round x / 10 \<le> 100" using x by (simp add: real_Round_def)
    moreover have "cpu_usage (exact_floats p j) s1 s2 = real_Round x / 10"
      unfolding cpu_usage_def Let_def if_not_P [OF False] fl
      by (simp add: exact_floats_def x_def)
    ultimately show ?thesis by simp
  qed
  then show "0 \<le> cpu_usage (exact_floats p j) s1 s2" "cpu_usage (exact_floats p j) s1 s2 \<le> 100" by simp_all
qed

theorem cpu_usage_range_witness:
  "0 \<le> cpu_usage (exact_floats (\<lambda>_. 0) (\<lambda>_. Inr [])) \<lparr>cpu_total = - 1, cpu_idle = 5\<rparr> \<lparr>cpu_total = 99, cpu_idle = 30\<rparr> \<and>
   cpu_usage (exact_floats (\<lambda>_. 0) (\<lambda>_. Inr [])) \<lparr>cpu_total = 9, cpu_idle = 5\<rparr> \<lparr>cpu_total = 9, cpu_idle = 7\<rparr> = 0"
  using cpu_usage_range [of "\<lparr>cpu_total = 99, cpu_idle = 30\<rparr>" "\<lparr>cpu_total = - 1, cpu_idle = 5\<rparr>" "\<lambda>_. 0" "\<lambda>_. Inr []"]
    cpu_usage_range [of "\<lparr>cpu_total = 9, cpu_idle = 7\<rparr>" "\<lparr>cpu_total = 9, cpu_idle = 5\<rparr>" "\<lambda>_. 0" "\<lambda>_. Inr []"
      "exact_floats (\<lambda>_. 0) (\<lambda>_. Inr [])"]
  by (simp add: exact_floats_def)

definition hb_fs :: fsys where
  "hb_fs = \<lparr>fs_files = [''/usr/bin/nft'' \<mapsto> \<lparr>fi_Data = [], fi_Perm = 493\<rparr>, ''/sys/module/nf_tables'' \<mapsto> \<lparr>fi_Data = [], fi_Perm = 493\<rparr>],
     fs_faults = [], fs_rand = [], fs_hist = []\<rparr>"

theorem DetectCapabilities_exact_witness:
  "fst (DetectCapabilities ''/bin:/usr/bin'' hb_fs) = Inr [''nft'', ''nftables-kernel'']"
proof -
  have "filter (installed (fs_files hb_fs) ''/bin:/usr/bin'') capability_binaries = [''nft'']" by code_simp
  moreover have "fs_faults hb_fs = []" by (simp add: hb_fs_def)
  ultimately show ?thesis using DetectCapabilities_exact [of hb_fs "''/bin:/usr/bin''"]
    by (simp add: hb_fs_def)
qed

end
