(* ===== verification/Paths.thy ===== *)
theory Paths
  imports GoPath
begin

text \<open>
  Package \<open>filesystem\<close>: the paths the agent uses by default.
\<close>

definition ConfigDir :: string where "ConfigDir = ''/etc/routestack''"
definition ServicesDir :: string where "ServicesDir = ''/etc/routestack/services''"
definition NftablesDir :: string where "NftablesDir = ''/etc/routestack/nftables''"
definition AgentConfigDir :: string where "AgentConfigDir = ''/etc/routestack/agent''"
definition BackupDir :: string where "BackupDir = ''/var/lib/routestack/backups''"
definition StateFile :: string where "StateFile = ''/var/lib/routestack/state.json''"
definition ComponentsDir :: string where "ComponentsDir = ''/var/lib/routestack/components''"
definition CertsDir :: string where "CertsDir = ''/etc/letsencrypt''"
definition LockFilePath :: string where "LockFilePath = ''/etc/routestack/components.lock.yaml''"
definition SystemdDir :: string where "SystemdDir = ''/etc/systemd/system''"
definition LogDir :: string where "LogDir = ''/var/log/routestack''"
definition RunDir :: string where "RunDir = ''/run/routestack''"

definition DefaultCertPath :: string where
  "DefaultCertPath = ConfigDir @ ''/agent/cert.pem''"

definition DefaultKeyPath :: string where
  "DefaultKeyPath = ConfigDir @ ''/agent/key.pem''"

definition AllowedWritePrefixes :: "string list" where
  "AllowedWritePrefixes =
     [ServicesDir, NftablesDir, BackupDir, StateFile, ComponentsDir, CertsDir, SystemdDir, LogDir, RunDir]"

lemmas path_defs = ConfigDir_def ServicesDir_def NftablesDir_def AgentConfigDir_def BackupDir_def
  StateFile_def ComponentsDir_def CertsDir_def LockFilePath_def SystemdDir_def LogDir_def RunDir_def
  DefaultCertPath_def DefaultKeyPath_def

lemma default_identity_dir:
  "filepath_Dir DefaultCertPath = AgentConfigDir" "filepath_Dir DefaultKeyPath = AgentConfigDir"
  by code_simp+

end
