(* ===== verification/Config.thy ===== *)
theory Config
  imports GoFiles Paths
begin

text \<open>
  The agent's configuration (\<open>internal/agent/config.go\<close>). Decoding YAML is the work of the
  library \<open>gopkg.in/yaml.v3\<close>: a parameter that gives the decoded \<open>Config\<close> or an error.
\<close>

record AgentConfig =
  ac_Version :: string
  ac_NodeID :: string

record ControllerConfig =
  cc_URL :: string
  cc_CACertPath :: string
  cc_HeartbeatIntervalSec :: int
  cc_OperationPollTimeoutSec :: int
  cc_ConnectTimeoutSec :: int
  cc_RequestTimeoutSec :: int

record PathsConfig =
  pc_ConfigDir :: string
  pc_BackupDir :: string
  pc_StateFile :: string
  pc_LogFile :: string
  pc_NftablesConfig :: string

record SystemConfig =
  sc_SSHPort :: int
  sc_PublicInterface :: string

record Config =
  cfg_Agent :: AgentConfig
  cfg_Controller :: ControllerConfig
  cfg_Paths :: PathsConfig
  cfg_System :: SystemConfig

definition or_string :: "string \<Rightarrow> string \<Rightarrow> string" where
  "or_string d s = (if s = [] then d else s)"

definition or_positive :: "int \<Rightarrow> int \<Rightarrow> int" where
  "or_positive d n = (if n \<le> 0 then d else n)"

definition applyDefaults :: "Config \<Rightarrow> goerror + Config" where
  "applyDefaults c =
     (if cc_URL (cfg_Controller c) = [] then Inl (ErrNew ''controller.url is required'')
      else Inr
        (c\<lparr>cfg_Agent := (cfg_Agent c)\<lparr>ac_Version := or_string ''0.1.0'' (ac_Version (cfg_Agent c))\<rparr>,
           cfg_Controller := (cfg_Controller c)
             \<lparr>cc_HeartbeatIntervalSec := or_positive 30 (cc_HeartbeatIntervalSec (cfg_Controller c)),
              cc_OperationPollTimeoutSec := or_positive 30 (cc_OperationPollTimeoutSec (cfg_Controller c)),
              cc_ConnectTimeoutSec := or_positive 10 (cc_ConnectTimeoutSec (cfg_Controller c)),
              cc_RequestTimeoutSec := or_positive 60 (cc_RequestTimeoutSec (cfg_Controller c))\<rparr>,
           cfg_System := (cfg_System c)\<lparr>sc_SSHPort := or_positive 22 (sc_SSHPort (cfg_System c))\<rparr>,
           cfg_Paths := (cfg_Paths c)
             \<lparr>pc_ConfigDir := or_string ServicesDir (pc_ConfigDir (cfg_Paths c)),
              pc_BackupDir := or_string BackupDir (pc_BackupDir (cfg_Paths c)),
              pc_StateFile := or_string StateFile (pc_StateFile (cfg_Paths c)),
              pc_LogFile := or_string (LogDir @ ''/agent.log'') (pc_LogFile (cfg_Paths c)),
              pc_NftablesConfig := or_string (NftablesDir @ ''/routestack.nft'') (pc_NftablesConfig (cfg_Paths c))\<rparr>\<rparr>))"

definition LoadConfig :: "(string \<Rightarrow> goerror + Config) \<Rightarrow> string \<Rightarrow> (fsys, Config) io" where
  "LoadConfig yaml_Unmarshal path =
     io_bind (io_wrap (''read config '' @ path @ '': '') (os_ReadFile path)) (\<lambda>data.
     io_bind (io_wrap (''parse config '' @ path @ '': '') (io_lift (yaml_Unmarshal data))) (\<lambda>cfg.
       io_wrap ''validate config: '' (io_lift (applyDefaults cfg))))"

section \<open>Properties\<close>

text \<open>What the rest of the agent relies on.\<close>

definition valid_config :: "Config \<Rightarrow> bool" where
  "valid_config c \<longleftrightarrow>
     cc_URL (cfg_Controller c) \<noteq> [] \<and> ac_Version (cfg_Agent c) \<noteq> [] \<and>
     0 < cc_HeartbeatIntervalSec (cfg_Controller c) \<and> 0 < cc_OperationPollTimeoutSec (cfg_Controller c) \<and>
     0 < cc_ConnectTimeoutSec (cfg_Controller c) \<and> 0 < cc_RequestTimeoutSec (cfg_Controller c) \<and>
     0 < sc_SSHPort (cfg_System c) \<and>
     pc_ConfigDir (cfg_Paths c) \<noteq> [] \<and> pc_BackupDir (cfg_Paths c) \<noteq> [] \<and>
     pc_StateFile (cfg_Paths c) \<noteq> [] \<and> pc_LogFile (cfg_Paths c) \<noteq> [] \<and>
     pc_NftablesConfig (cfg_Paths c) \<noteq> []"

lemma or_string_simps [simp]:
  "s \<noteq> [] \<Longrightarrow> or_string d s = s"
  "d \<noteq> [] \<Longrightarrow> or_string d s \<noteq> []"
  by (simp_all add: or_string_def)

lemma or_positive_simps [simp]:
  "0 < n \<Longrightarrow> or_positive d n = n"
  "0 < d \<Longrightarrow> 0 < or_positive d n"
  by (simp_all add: or_positive_def)

lemma default_dirs [simp]: "ServicesDir \<noteq> []" "BackupDir \<noteq> []" "StateFile \<noteq> []"
  by (simp_all add: path_defs)

lemma applyDefaults_valid: "applyDefaults c = Inr c' \<Longrightarrow> valid_config c'"
  by (auto simp: applyDefaults_def valid_config_def split: if_splits)

lemma applyDefaults_keeps: "valid_config c \<Longrightarrow> applyDefaults c = Inr c"
  by (simp add: applyDefaults_def valid_config_def)

text \<open>
  Property C32. A configuration that \<open>LoadConfig\<close> returns is complete: the controller's URL
  is set, every interval, timeout and port is positive and every path is non-empty, whatever
  the decoder produced. It is a fixed point of \<open>applyDefaults\<close>, so a complete configuration
  is taken as it is written.
\<close>

theorem LoadConfig_complete:
  assumes "LoadConfig yaml path s = (Inr c, s')"
  shows "valid_config c \<and> applyDefaults c = Inr c"
proof -
  obtain cfg where "applyDefaults cfg = Inr c"
    using assms by (auto simp: LoadConfig_def io_success)
  then show ?thesis using applyDefaults_valid applyDefaults_keeps by blast
qed

text \<open>
  \<open>applyDefaults\<close> fails exactly when the controller's URL is missing, and never
  changes a value that was configured: the URL, the CA path, the node id, the interface, and
  every positive number and every non-empty string.
\<close>

theorem applyDefaults_respects:
  "((\<exists>c'. applyDefaults c = Inr c') \<longleftrightarrow> cc_URL (cfg_Controller c) \<noteq> []) \<and>
   (\<forall>c'. applyDefaults c = Inr c' \<longrightarrow>
     cc_URL (cfg_Controller c') = cc_URL (cfg_Controller c) \<and>
     cc_CACertPath (cfg_Controller c') = cc_CACertPath (cfg_Controller c) \<and>
     ac_NodeID (cfg_Agent c') = ac_NodeID (cfg_Agent c) \<and>
     sc_PublicInterface (cfg_System c') = sc_PublicInterface (cfg_System c) \<and>
     (0 < cc_HeartbeatIntervalSec (cfg_Controller c) \<longrightarrow> cc_HeartbeatIntervalSec (cfg_Controller c') = cc_HeartbeatIntervalSec (cfg_Controller c)) \<and>
     (0 < cc_OperationPollTimeoutSec (cfg_Controller c) \<longrightarrow> cc_OperationPollTimeoutSec (cfg_Controller c') = cc_OperationPollTimeoutSec (cfg_Controller c)) \<and>
     (0 < cc_ConnectTimeoutSec (cfg_Controller c) \<longrightarrow> cc_ConnectTimeoutSec (cfg_Controller c') = cc_ConnectTimeoutSec (cfg_Controller c)) \<and>
     (0 < cc_RequestTimeoutSec (cfg_Controller c) \<longrightarrow> cc_RequestTimeoutSec (cfg_Controller c') = cc_RequestTimeoutSec (cfg_Controller c)) \<and>
     (0 < sc_SSHPort (cfg_System c) \<longrightarrow> sc_SSHPort (cfg_System c') = sc_SSHPort (cfg_System c)) \<and>
     (ac_Version (cfg_Agent c) \<noteq> [] \<longrightarrow> ac_Version (cfg_Agent c') = ac_Version (cfg_Agent c)) \<and>
     (pc_ConfigDir (cfg_Paths c) \<noteq> [] \<longrightarrow> pc_ConfigDir (cfg_Paths c') = pc_ConfigDir (cfg_Paths c)) \<and>
     (pc_BackupDir (cfg_Paths c) \<noteq> [] \<longrightarrow> pc_BackupDir (cfg_Paths c') = pc_BackupDir (cfg_Paths c)) \<and>
     (pc_StateFile (cfg_Paths c) \<noteq> [] \<longrightarrow> pc_StateFile (cfg_Paths c') = pc_StateFile (cfg_Paths c)) \<and>
     (pc_LogFile (cfg_Paths c) \<noteq> [] \<longrightarrow> pc_LogFile (cfg_Paths c') = pc_LogFile (cfg_Paths c)) \<and>
     (pc_NftablesConfig (cfg_Paths c) \<noteq> [] \<longrightarrow> pc_NftablesConfig (cfg_Paths c') = pc_NftablesConfig (cfg_Paths c)))"
  by (auto simp: applyDefaults_def split: if_splits)

section \<open>Witness\<close>

definition sample_config :: Config where
  "sample_config =
     \<lparr>cfg_Agent = \<lparr>ac_Version = [], ac_NodeID = ''n1''\<rparr>,
      cfg_Controller = \<lparr>cc_URL = ''https://cp'', cc_CACertPath = [], cc_HeartbeatIntervalSec = 0,
        cc_OperationPollTimeoutSec = -5, cc_ConnectTimeoutSec = 3, cc_RequestTimeoutSec = 0\<rparr>,
      cfg_Paths = \<lparr>pc_ConfigDir = [], pc_BackupDir = [], pc_StateFile = ''/s'', pc_LogFile = [], pc_NftablesConfig = []\<rparr>,
      cfg_System = \<lparr>sc_SSHPort = 0, sc_PublicInterface = ''eth0''\<rparr>\<rparr>"

definition config_fs :: fsys where
  "config_fs = \<lparr>fs_files = [''/cfg'' \<mapsto> \<lparr>fi_Data = ''x'', fi_Perm = 384\<rparr>], fs_faults = [], fs_rand = [], fs_hist = []\<rparr>"

theorem LoadConfig_complete_witness:
  "\<exists>c. fst (LoadConfig (\<lambda>_. Inr sample_config) ''/cfg'' config_fs) = Inr c \<and> valid_config c"
proof -
  let ?r = "LoadConfig (\<lambda>_. Inr sample_config) ''/cfg'' config_fs"
  have "is_ok (fst ?r)" by code_simp
  then obtain c where "fst ?r = Inr c" by (auto simp: is_ok_iff)
  then have "?r = (Inr c, snd ?r)" by (metis prod.collapse)
  from LoadConfig_complete [OF this] \<open>fst ?r = Inr c\<close> show ?thesis by blast
qed

theorem applyDefaults_respects_witness:
  "\<exists>c. applyDefaults sample_config = Inr c \<and> pc_StateFile (cfg_Paths c) = ''/s''"
proof -
  have "cc_URL (cfg_Controller sample_config) \<noteq> []" by (simp add: sample_config_def)
  then obtain c where c: "applyDefaults sample_config = Inr c"
    using applyDefaults_respects [of sample_config] by blast
  then have "pc_StateFile (cfg_Paths sample_config) \<noteq> [] \<longrightarrow>
      pc_StateFile (cfg_Paths c) = pc_StateFile (cfg_Paths sample_config)"
    using applyDefaults_respects [of sample_config] by blast
  then show ?thesis using c by (simp add: sample_config_def)
qed

end
