(* ===== verification/Agent.thy ===== *)
theory Agent
  imports Executor ApiClient Heartbeat Config
begin

text \<open>
  The agent runtime (\<open>internal/agent/agent.go\<close>): the heartbeat loop and the loop that claims,
  executes and reports operations.

  The Go interfaces \<open>APIClient\<close> and \<open>StateStore\<close> are records of functions on the world \<open>'w\<close>;
  The fields \<open>executor\<close> and \<open>logger\<close> of \<open>Agent\<close> are
  part of the state that the loops change. \<open>runtime\<close> is what else the loops see of it: whether the context has ended, a pause that the
  context can cut short, the clock, and the host's files. The first argument of a call of the
  control plane is the timeout of its context.

  One pass through the body of each loop is a function. The two loops and the executor's
  eviction run as goroutines; \<open>agent_step\<close> interleaves their passes.
\<close>

section \<open>Interfaces and state\<close>

record ('w, 'f) APIClient =
  ap_Heartbeat :: "'f HeartbeatRequest \<Rightarrow> ('w, HeartbeatResponse) io"
  ap_ClaimOperation :: "int \<Rightarrow> ClaimRequest \<Rightarrow> ('w, ClaimResponse) io"
  ap_CompleteOperation :: "int \<Rightarrow> string \<Rightarrow> CompleteRequest \<Rightarrow> ('w, unit) io"

record 'w StateStore =
  sto_IsEnrolled :: "('w, bool) io"
  sto_NodeID :: string
  sto_Save :: "('w, unit) io"

record ('w, 'f) runtime =
  rt_done :: "'w \<Rightarrow> bool \<times> 'w"
  rt_pause :: "int \<Rightarrow> 'w \<Rightarrow> bool \<times> 'w"
  rt_now :: "'w \<Rightarrow> int"
  rt_fs :: "'w \<Rightarrow> fsys"
  rt_put_fs :: "(fsys \<Rightarrow> fsys) \<Rightarrow> 'w \<Rightarrow> 'w"
  rt_host :: "'f hb_env"

record ('w, 'f) Agent =
  ag_config :: Config
  ag_state :: "'w StateStore"
  ag_api :: "('w, 'f) APIClient"
  ag_version :: string

definition NewAgent ::
  "Config \<Rightarrow> 'w StateStore \<Rightarrow> ('w, 'f) APIClient \<Rightarrow> string \<Rightarrow> ('w, 'f) Agent" where
  "NewAgent cfg st apiClient version =
     \<lparr>ag_config = cfg, ag_state = st, ag_api = apiClient, ag_version = version\<rparr>"

text \<open>What the loops change: the executor, the agent's log and the world.\<close>

record 'w agent_state =
  gs_exec :: "'w Executor"
  gs_log :: "log_entry list"
  gs_world :: 'w

definition agent_log :: "string \<Rightarrow> string \<Rightarrow> (string \<times> string) list \<Rightarrow> 'w agent_state \<Rightarrow> 'w agent_state" where
  "agent_log level msg attrs s =
     s\<lparr>gs_log := gs_log s @ [\<lparr>le_Level = level, le_Msg = msg, le_Attrs = attrs\<rparr>]\<rparr>"

section \<open>Polling for operations\<close>

datatype pass = Again | Leave | Crash string

text \<open>The status and the text that are reported for an execution.\<close>

definition completion :: "goerror + OpResult \<Rightarrow> string \<times> string" where
  "completion r =
     (case r of
        Inl execErr \<Rightarrow> (''failed'', Error execErr)
      | Inr result \<Rightarrow> (res_Status result, res_Message result))"

definition complete_request :: "string \<Rightarrow> goerror + OpResult \<Rightarrow> CompleteRequest" where
  "complete_request opID r =
     (case completion r of
        (status, errMsg) \<Rightarrow> \<lparr>cm_ID = opID, cm_Status = status, cm_Result = RedactSecrets errMsg\<rparr>)"

definition to_operation :: "api_Operation \<Rightarrow> Operation" where
  "to_operation o1 = \<lparr>opr_ID = ao_ID o1, opr_Type = ao_Type o1, opr_Data = ao_Data o1\<rparr>"

text \<open>Executing the claimed operation and reporting what came of it.\<close>

definition perform ::
  "('w, 'f) Agent \<Rightarrow> ('w, 'f) runtime \<Rightarrow> Operation \<Rightarrow> 'w agent_state \<Rightarrow> pass \<times> 'w agent_state" where
  "perform ag rt op s =
     (case Execute (rt_now rt) (gs_exec s) op (gs_world s) of
        (Panics msg, e, w) \<Rightarrow> (Crash msg, s\<lparr>gs_exec := e, gs_world := w\<rparr>)
      | (Returns r, e, w) \<Rightarrow>
          (case ap_CompleteOperation (ag_api ag) (30 * Second) (opr_ID op) (complete_request (opr_ID op) r) w of
             (Inr _, w') \<Rightarrow> (Again, s\<lparr>gs_exec := e, gs_world := w'\<rparr>)
           | (Inl reportErr, w') \<Rightarrow>
               (Again, agent_log ''ERROR'' ''failed to report operation completion''
                  [(''op_id'', opr_ID op), (''error'', Error reportErr)]
                  (s\<lparr>gs_exec := e, gs_world := w'\<rparr>))))"

definition pollTimeout :: "Config \<Rightarrow> int" where
  "pollTimeout cfg = wrap64 (cc_OperationPollTimeoutSec (cfg_Controller cfg) * Second)"

text \<open>
  One pass of \<open>operationPollLoop\<close>: the test of the context and the claim give either how the
  pass ends or the operation to perform.
\<close>

definition claim_next ::
  "('w, 'f) Agent \<Rightarrow> ('w, 'f) runtime \<Rightarrow> 'w agent_state \<Rightarrow> (pass + Operation) \<times> 'w agent_state" where
  "claim_next ag rt s =
     (case rt_done rt (gs_world s) of
        (True, w) \<Rightarrow> (Inl Leave, s\<lparr>gs_world := w\<rparr>)
      | (False, w) \<Rightarrow>
          (case ap_ClaimOperation (ag_api ag) (pollTimeout (ag_config ag)) \<lparr>cq_NodeID = sto_NodeID (ag_state ag)\<rparr> w of
             (Inl err, w1) \<Rightarrow>
               (case rt_pause rt (5 * Second) w1 of
                  (ended, w2) \<Rightarrow>
                    (Inl (if ended then Leave else Again),
                     agent_log ''WARN'' ''operation claim failed'' [(''error'', Error err)] (s\<lparr>gs_world := w2\<rparr>)))
           | (Inr resp, w1) \<Rightarrow>
               (case cr_Operation resp of
                  None \<Rightarrow> (Inl Again, s\<lparr>gs_world := w1\<rparr>)
                | Some o1 \<Rightarrow>
                    (Inr (to_operation o1),
                     agent_log ''INFO'' ''claimed operation''
                       [(''op_id'', ao_ID o1), (''op_type'', ao_Type o1)] (s\<lparr>gs_world := w1\<rparr>)))))"

definition poll_pass ::
  "('w, 'f) Agent \<Rightarrow> ('w, 'f) runtime \<Rightarrow> 'w agent_state \<Rightarrow> pass \<times> 'w agent_state" where
  "poll_pass ag rt s =
     (case claim_next ag rt s of
        (Inl p, s') \<Rightarrow> (p, s')
      | (Inr op, s') \<Rightarrow> perform ag rt op s')"

text \<open>The handler calls that a pass begins: the operation's ID and the time.\<close>

definition pass_calls ::
  "('w, 'f) Agent \<Rightarrow> ('w, 'f) runtime \<Rightarrow> 'w agent_state \<Rightarrow> (string \<times> int) list" where
  "pass_calls ag rt s =
     (case claim_next ag rt s of
        (Inl p, s') \<Rightarrow> []
      | (Inr op, s') \<Rightarrow>
          (case Execute_begin (gs_exec s') op (rt_now rt (gs_world s')) of
             (Inl r, e) \<Rightarrow> []
           | (Inr h, e) \<Rightarrow> [(opr_ID op, rt_now rt (gs_world s'))]))"

section \<open>Heartbeats\<close>

definition heartbeat_request ::
  "('w, 'f) Agent \<Rightarrow> string list \<Rightarrow> string \<times> string \<times> string \<Rightarrow> 'f SystemMetrics \<Rightarrow> 'f HeartbeatRequest" where
  "heartbeat_request ag caps info metrics =
     (case info of
        (osName, arch, kernelVer) \<Rightarrow>
          \<lparr>hq_NodeID = sto_NodeID (ag_state ag), hq_AgentVersion = ag_version ag, hq_OS = osName,
           hq_Architecture = arch, hq_KernelVersion = kernelVer, hq_Capabilities = caps,
           hq_Services = [], hq_System = metrics\<rparr>)"

definition on_host :: "('w, 'f) runtime \<Rightarrow> (fsys, 'a) io \<Rightarrow> ('w, 'a) io" where
  "on_host rt m = io_on (rt_fs rt) (rt_put_fs rt) m"

definition heartbeat_io ::
  "('w, 'f) Agent \<Rightarrow> ('w, 'f) runtime \<Rightarrow> string list \<Rightarrow> ('w, HeartbeatResponse) io" where
  "heartbeat_io ag rt caps =
     io_bind (on_host rt (CollectSystemInfo (he_Uname (rt_host rt)))) (\<lambda>info.
     io_bind (on_host rt (CollectSystemMetrics (rt_host rt))) (\<lambda>metrics.
     ap_Heartbeat (ag_api ag) (heartbeat_request ag caps info metrics)))"

text \<open>The debug line of a heartbeat that was sent is below the level of the logger.\<close>

definition sendHeartbeat ::
  "('w, 'f) Agent \<Rightarrow> ('w, 'f) runtime \<Rightarrow> string list \<Rightarrow> 'w agent_state \<Rightarrow> 'w agent_state" where
  "sendHeartbeat ag rt caps s =
     (case heartbeat_io ag rt caps (gs_world s) of
        (Inl err, w) \<Rightarrow>
          agent_log ''WARN'' ''heartbeat failed'' [(''error'', Error err)] (s\<lparr>gs_world := w\<rparr>)
      | (Inr _, w) \<Rightarrow> s\<lparr>gs_world := w\<rparr>)"

text \<open>\<open>time.NewTicker\<close> panics for an interval that is not positive.\<close>

definition heartbeat_interval :: "Config \<Rightarrow> int" where
  "heartbeat_interval cfg = wrap64 (cc_HeartbeatIntervalSec (cfg_Controller cfg) * Second)"

definition NewTicker :: "int \<Rightarrow> unit outcome" where
  "NewTicker d = (if d \<le> 0 then Panics ''non-positive interval for NewTicker'' else Returns ())"

section \<open>Running\<close>

definition not_enrolled :: goerror where
  "not_enrolled = ErrNew ''agent is not enrolled: run 'routestack-agent enroll' first''"

text \<open>
  The part of \<open>Run\<close> before the goroutines: the error, or the capabilities that were found. The
  handler of the log writes the list of capabilities; here it is a text.
\<close>

definition Run_start ::
  "('w, 'f) Agent \<Rightarrow> ('w, 'f) runtime \<Rightarrow> 'w agent_state \<Rightarrow> (goerror + string list) \<times> 'w agent_state" where
  "Run_start ag rt s =
     (case sto_IsEnrolled (ag_state ag) (gs_world s) of
        (Inr True, w) \<Rightarrow>
          (let s1 = agent_log ''INFO'' ''agent starting''
                 [(''version'', ag_version ag), (''node_id'', sto_NodeID (ag_state ag)),
                  (''controller'', cc_URL (cfg_Controller (ag_config ag)))] (s\<lparr>gs_world := w\<rparr>)
           in case on_host rt (DetectCapabilities (he_PATH (rt_host rt))) w of
                (Inl e, w') \<Rightarrow> (Inl e, s1\<lparr>gs_world := w'\<rparr>)
              | (Inr caps, w') \<Rightarrow>
                  (Inr caps, agent_log ''INFO'' ''detected capabilities'' [(''capabilities'', fmt_strings caps)]
                     (s1\<lparr>gs_world := w'\<rparr>)))
      | (_, w) \<Rightarrow> (Inl not_enrolled, s\<lparr>gs_world := w\<rparr>))"

datatype beat = Starting | Ticking | Stopped
datatype phase = Running | ShuttingDown | Exited

record 'w run_state =
  rn_agent :: "'w agent_state"
  rn_beat :: beat
  rn_polling :: bool
  rn_phase :: phase
  rn_crash :: "string option"

text \<open>Both goroutines are started; the poller's first line is logged when it starts.\<close>

definition run_init :: "'w agent_state \<Rightarrow> 'w run_state" where
  "run_init s =
     \<lparr>rn_agent = agent_log ''INFO'' ''operation poller started'' [] s, rn_beat = Starting,
      rn_polling = True, rn_phase = Running, rn_crash = None\<rparr>"

definition alive :: "'w run_state \<Rightarrow> bool" where
  "alive r \<longleftrightarrow> rn_crash r = None \<and> rn_phase r \<noteq> Exited"

text \<open>
  Steps of the running process. A goroutine that panics ends the process. \<open>heartbeatLoop\<close>
  sends its first heartbeat when the ticker is made, then one per tick until the context
  ends. When the context has ended, \<open>Run\<close> waits for the goroutines, but not for more than 30
  seconds (\<open>timed_out\<close>). A step carries the handler calls that it begins.
\<close>

inductive agent_step ::
  "('w, 'f) Agent \<Rightarrow> ('w, 'f) runtime \<Rightarrow> string list \<Rightarrow> 'w run_state \<Rightarrow> (string \<times> int) list \<Rightarrow> 'w run_state \<Rightarrow> bool"
  for ag :: "('w, 'f) Agent" and rt :: "('w, 'f) runtime" and caps :: "string list" where
  beat_first: "alive r \<Longrightarrow> rn_beat r = Starting \<Longrightarrow>
    NewTicker (heartbeat_interval (ag_config ag)) = Returns () \<Longrightarrow>
    agent_step ag rt caps r [] (r\<lparr>rn_agent := sendHeartbeat ag rt caps (rn_agent r), rn_beat := Ticking\<rparr>)"
| beat_panic: "alive r \<Longrightarrow> rn_beat r = Starting \<Longrightarrow>
    NewTicker (heartbeat_interval (ag_config ag)) = Panics msg \<Longrightarrow>
    agent_step ag rt caps r [] (r\<lparr>rn_crash := Some msg\<rparr>)"
| beat_tick: "alive r \<Longrightarrow> rn_beat r = Ticking \<Longrightarrow>
    agent_step ag rt caps r [] (r\<lparr>rn_agent := sendHeartbeat ag rt caps (rn_agent r)\<rparr>)"
| beat_stop: "alive r \<Longrightarrow> rn_beat r = Ticking \<Longrightarrow> rt_done rt (gs_world (rn_agent r)) = (True, w) \<Longrightarrow>
    agent_step ag rt caps r [] (r\<lparr>rn_agent := (rn_agent r)\<lparr>gs_world := w\<rparr>, rn_beat := Stopped\<rparr>)"
| poll: "alive r \<Longrightarrow> rn_polling r \<Longrightarrow> poll_pass ag rt (rn_agent r) = (p, s) \<Longrightarrow>
    agent_step ag rt caps r (pass_calls ag rt (rn_agent r)) (r\<lparr>rn_agent := s, rn_polling := (p = Again),
      rn_crash := (case p of Crash msg \<Rightarrow> Some msg | _ \<Rightarrow> None)\<rparr>)"
| evict: "alive r \<Longrightarrow>
    agent_step ag rt caps r [] (r\<lparr>rn_agent := (rn_agent r)\<lparr>gs_exec :=
      Executor.evict (gs_exec (rn_agent r)) (rt_now rt (gs_world (rn_agent r)))\<rparr>\<rparr>)"
| shut_down: "alive r \<Longrightarrow> rn_phase r = Running \<Longrightarrow> rt_done rt (gs_world (rn_agent r)) = (True, w) \<Longrightarrow>
    agent_step ag rt caps r [] (r\<lparr>rn_agent := agent_log ''INFO'' ''agent shutting down'' [] ((rn_agent r)\<lparr>gs_world := w\<rparr>),
      rn_phase := ShuttingDown\<rparr>)"
| graceful: "alive r \<Longrightarrow> rn_phase r = ShuttingDown \<Longrightarrow> rn_beat r = Stopped \<Longrightarrow> \<not> rn_polling r \<Longrightarrow>
    agent_step ag rt caps r [] (r\<lparr>rn_agent := agent_log ''INFO'' ''agent stopped gracefully'' [] (rn_agent r),
      rn_phase := Exited\<rparr>)"
| timed_out: "alive r \<Longrightarrow> rn_phase r = ShuttingDown \<Longrightarrow>
    agent_step ag rt caps r [] (r\<lparr>rn_agent := agent_log ''WARN'' ''graceful shutdown timed out after 30s'' [] (rn_agent r),
      rn_phase := Exited\<rparr>)"

text \<open>Reachable states, with all handler calls that were begun on the way.\<close>

inductive agent_reachable ::
  "('w, 'f) Agent \<Rightarrow> ('w, 'f) runtime \<Rightarrow> string list \<Rightarrow> 'w agent_state \<Rightarrow> (string \<times> int) list \<Rightarrow> 'w run_state \<Rightarrow> bool"
  for ag :: "('w, 'f) Agent" and rt :: "('w, 'f) runtime" and caps :: "string list" and s0 :: "'w agent_state" where
  init: "agent_reachable ag rt caps s0 [] (run_init s0)"
| step: "agent_reachable ag rt caps s0 cs r \<Longrightarrow> agent_step ag rt caps r ds r' \<Longrightarrow>
    agent_reachable ag rt caps s0 (cs @ ds) r'"

section \<open>What the running agent sends\<close>

definition is_claim :: "http_request \<Rightarrow> bool" where
  "is_claim r \<longleftrightarrow> HasSuffix (hr_url r) ''/internal/agent/v1/operations/claim''"

definition is_heartbeat :: "http_request \<Rightarrow> bool" where
  "is_heartbeat r \<longleftrightarrow> HasSuffix (hr_url r) ''/internal/agent/v1/heartbeat''"

definition is_completion :: "string \<Rightarrow> CompleteRequest \<Rightarrow> http_request \<Rightarrow> bool" where
  "is_completion i q r \<longleftrightarrow>
     HasSuffix (hr_url r) (''/internal/agent/v1/operations/'' @ i @ ''/complete'') \<and>
     hr_body r = Some (CompleteRequest_json q)"

text \<open>
  A request the agent may send while it runs: a report names its operation, has a status of
  the contract and is \<open>redacted\<close>, as \<open>Redact\<close> specifies it over the text.
\<close>

definition safe_request :: "http_request \<Rightarrow> bool" where
  "safe_request r \<longleftrightarrow>
     is_claim r \<or> is_heartbeat r \<or>
     (\<exists>i q. is_completion i q r \<and> cm_ID q = i \<and> cm_Status q \<in> set result_statuses \<and> redacted (cm_Result q))"

lemma complete_request_redacted: "redacted (cm_Result (complete_request i r))" "cm_ID (complete_request i r) = i"
  by (simp_all add: complete_request_def RedactSecrets_redacted split: prod.split)

lemma complete_request_status:
  assumes "\<And>x. r = Inr x \<Longrightarrow> res_Status x \<in> set result_statuses"
  shows "cm_Status (complete_request i r) \<in> set result_statuses"
  using assms by (simp add: complete_request_def completion_def split: sum.split)

text \<open>The requests that were added to a log.\<close>

definition adds :: "('e \<Rightarrow> bool) \<Rightarrow> 'e list \<Rightarrow> 'e list \<Rightarrow> bool" where
  "adds P l l' \<longleftrightarrow> (\<exists>es. l' = l @ es \<and> list_all P es)"

lemma adds_refl [simp]: "adds P l l"
  by (simp add: adds_def)

lemma adds_trans: "adds P a b \<Longrightarrow> adds P b c \<Longrightarrow> adds P a c"
  by (auto simp: adds_def)

lemma emits_adds:
  assumes "emits lg P m" and "m s = (r, s')" and "\<And>e. P e \<Longrightarrow> Q e"
  shows "adds Q (lg s) (lg s')"
proof -
  have "emits lg Q m" by (rule emits_mono [OF assms(1)]) (rule assms(3))
  then obtain es where "lg s' = lg s @ es" "list_all Q es" using assms(2) by (rule emitsE)
  then show ?thesis by (auto simp: adds_def)
qed

definition sound_step ::
  "('w \<Rightarrow> http_request list) \<Rightarrow> (string \<rightharpoonup> 'w Handler) \<Rightarrow> 'w agent_state \<Rightarrow> 'w agent_state \<Rightarrow> bool" where
  "sound_step lg handlers s s' \<longleftrightarrow>
     adds safe_request (lg (gs_world s)) (lg (gs_world s')) \<and> exr_handlers (gs_exec s') = handlers"

lemma agent_log_sel [simp]:
  "gs_world (agent_log l m as s) = gs_world s" "gs_exec (agent_log l m as s) = gs_exec s"
  by (simp_all add: agent_log_def)

text \<open>
  What the runtime relies on: every call of the control plane sends requests of its kind
  only, and nothing else that the agent runs talks to the control plane.
\<close>

locale agent_system =
  fixes ag :: "('w, 'f) Agent"
    and rt :: "('w, 'f) runtime"
    and lg :: "'w \<Rightarrow> http_request list"
    and handlers :: "string \<rightharpoonup> 'w Handler"
  assumes heartbeat_sends: "emits lg is_heartbeat (ap_Heartbeat (ag_api ag) hq)"
    and claim_sends: "emits lg is_claim (ap_ClaimOperation (ag_api ag) t cq)"
    and complete_sends: "emits lg (is_completion i q) (ap_CompleteOperation (ag_api ag) t i q)"
    and handler_quiet: "handlers ty = Some h \<Longrightarrow> lg (snd (h op w)) = lg w"
    and handler_returns: "handlers ty = Some h \<Longrightarrow> returns_result h"
    and enrolled_quiet: "lg (snd (sto_IsEnrolled (ag_state ag) w)) = lg w"
    and done_quiet: "lg (snd (rt_done rt w)) = lg w"
    and pause_quiet: "lg (snd (rt_pause rt d w)) = lg w"
    and fs_quiet: "lg (rt_put_fs rt f w) = lg w"
begin

lemma Execute_quiet:
  assumes "exr_handlers e = handlers" and "Execute now e op w = (r, e', w')"
  shows "lg w' = lg w" and "exr_handlers e' = handlers"
    and "\<exists>x. r = Returns x \<and> (\<forall>y. x = Inr y \<longrightarrow> res_Status y \<in> set result_statuses)"
proof -
  have tab: "handler_table e" using assms(1) handler_returns by (simp add: handler_table_def)
  show "\<exists>x. r = Returns x \<and> (\<forall>y. x = Inr y \<longrightarrow> res_Status y \<in> set result_statuses)"
    using handler_table.Execute_outcome [OF tab, of now op w] assms(2) by simp
  show "exr_handlers e' = handlers" using Execute_frame(1) [OF assms(2)] assms(1) by simp
  show "lg w' = lg w"
  proof (cases "Execute_begin e op (now w)")
    case (Pair b e1)
    show ?thesis
    proof (cases b)
      case (Inl x)
      then show ?thesis using assms(2) Pair by (simp add: Execute_def)
    next
      case (Inr h)
      have "handlers (opr_Type op) = Some h" using Execute_begin_Inr [of e op "now w" h e1] Pair Inr assms(1) by simp
      then have "lg (snd (h op w)) = lg w" by (rule handler_quiet)
      moreover have "w' = snd (h op w)" using assms(2) Pair Inr by (auto simp: Execute_def split: prod.splits)
      ultimately show ?thesis by simp
    qed
  qed
qed

lemma perform_sound:
  assumes "exr_handlers (gs_exec s) = handlers" and "perform ag rt op s = (p, s')"
  shows "sound_step lg handlers s s'" and "p = Again"
proof -
  obtain r e w where x: "Execute (rt_now rt) (gs_exec s) op (gs_world s) = (r, e, w)"
    by (cases "Execute (rt_now rt) (gs_exec s) op (gs_world s)") auto
  note q = Execute_quiet [OF assms(1) x]
  obtain y where y: "r = Returns y" "\<And>x. y = Inr x \<Longrightarrow> res_Status x \<in> set result_statuses"
    using q(3) by blast
  let ?q = "complete_request (opr_ID op) y"
  obtain c w' where c: "ap_CompleteOperation (ag_api ag) (30 * Second) (opr_ID op) ?q w = (c, w')"
    by (cases "ap_CompleteOperation (ag_api ag) (30 * Second) (opr_ID op) ?q w")
  have "safe_request e" if "is_completion (opr_ID op) ?q e" for e
    using that complete_request_redacted complete_request_status [OF y(2)] unfolding safe_request_def by blast
  then have "adds safe_request (lg w) (lg w')" by (rule emits_adds [OF complete_sends c])
  then show "sound_step lg handlers s s'" "p = Again"
    using assms(2) x y(1) c q(1,2) by (auto simp: perform_def sound_step_def split: sum.splits)
qed

lemma claim_next_sound:
  assumes "exr_handlers (gs_exec s) = handlers" and "claim_next ag rt s = (p, s')"
  shows "sound_step lg handlers s s'" and "\<And>msg. p \<noteq> Inl (Crash msg)"
proof -
  obtain d w where d: "rt_done rt (gs_world s) = (d, w)" by (cases "rt_done rt (gs_world s)")
  have lw: "lg w = lg (gs_world s)" using done_quiet [of "gs_world s"] d by simp
  let ?claim = "ap_ClaimOperation (ag_api ag) (pollTimeout (ag_config ag)) \<lparr>cq_NodeID = sto_NodeID (ag_state ag)\<rparr>"
  obtain c w1 where c: "?claim w = (c, w1)" by (cases "?claim w")
  have a1: "adds safe_request (lg (gs_world s)) (lg w1)"
    using emits_adds [OF claim_sends c] lw by (simp add: safe_request_def)
  obtain b w2 where "rt_pause rt (5 * Second) w1 = (b, w2)" by (cases "rt_pause rt (5 * Second) w1")
  then have "sound_step lg handlers s s' \<and> (\<forall>msg. p \<noteq> Inl (Crash msg))"
    using assms d lw c a1 pause_quiet [of "5 * Second" w1]
    by (auto simp: claim_next_def sound_step_def split: bool.splits sum.splits option.splits if_splits)
  then show "sound_step lg handlers s s'" "\<And>msg. p \<noteq> Inl (Crash msg)" by blast+
qed

lemma poll_pass_sound:
  assumes "exr_handlers (gs_exec s) = handlers" and "poll_pass ag rt s = (p, s')"
  shows "sound_step lg handlers s s'" and "\<And>msg. p \<noteq> Crash msg"
proof -
  obtain c s1 where c: "claim_next ag rt s = (c, s1)" by (cases "claim_next ag rt s")
  note cl = claim_next_sound [OF assms(1) c]
  have "sound_step lg handlers s s' \<and> (\<forall>msg. p \<noteq> Crash msg)"
  proof (cases c)
    case (Inl q)
    then show ?thesis using cl assms(2) c by (auto simp: poll_pass_def)
  next
    case (Inr op)
    have "perform ag rt op s1 = (p, s')" using assms(2) c Inr by (simp add: poll_pass_def)
    moreover have "exr_handlers (gs_exec s1) = handlers" using cl(1) by (simp add: sound_step_def)
    ultimately have "sound_step lg handlers s1 s'" "p = Again" using perform_sound by blast+
    then show ?thesis using cl(1) by (auto simp: sound_step_def intro: adds_trans)
  qed
  then show "sound_step lg handlers s s'" "\<And>msg. p \<noteq> Crash msg" by blast+
qed

lemma sendHeartbeat_sound:
  assumes "exr_handlers (gs_exec s) = handlers"
  shows "sound_step lg handlers s (sendHeartbeat ag rt caps s)"
proof -
  have quiet: "emits lg is_heartbeat (on_host rt m)" for m :: "(fsys, 'a) io"
    unfolding emits_def by (intro allI exI [of _ "[]"]) (simp add: on_host_def io_on_def fs_quiet split: prod.split)
  have "emits lg is_heartbeat (heartbeat_io ag rt caps)"
    unfolding heartbeat_io_def by (intro client_laws quiet heartbeat_sends)
  moreover obtain r w where h: "heartbeat_io ag rt caps (gs_world s) = (r, w)"
    by (cases "heartbeat_io ag rt caps (gs_world s)")
  ultimately have "adds safe_request (lg (gs_world s)) (lg w)"
    using emits_adds [of lg is_heartbeat "heartbeat_io ag rt caps" "gs_world s" r w safe_request]
    by (simp add: safe_request_def)
  then show ?thesis using assms h by (cases r) (simp_all add: sendHeartbeat_def sound_step_def)
qed

lemma on_host_quiet: "lg (snd (on_host rt m w)) = lg w"
  by (simp add: on_host_def io_on_def fs_quiet split: prod.split)

lemma Run_start_sound:
  assumes "exr_handlers (gs_exec s) = handlers" and "Run_start ag rt s = (r, s')"
  shows "sound_step lg handlers s s'" and "exr_seen (gs_exec s') = exr_seen (gs_exec s)"
proof -
  obtain b w where b: "sto_IsEnrolled (ag_state ag) (gs_world s) = (b, w)"
    by (cases "sto_IsEnrolled (ag_state ag) (gs_world s)")
  obtain d w' where d: "on_host rt (DetectCapabilities (he_PATH (rt_host rt))) w = (d, w')"
    by (cases "on_host rt (DetectCapabilities (he_PATH (rt_host rt))) w")
  have "lg w = lg (gs_world s)" "lg w' = lg w"
    using enrolled_quiet [of "gs_world s"] b on_host_quiet [of "DetectCapabilities (he_PATH (rt_host rt))" w] d by simp_all
  then have "sound_step lg handlers s s' \<and> exr_seen (gs_exec s') = exr_seen (gs_exec s)"
    using assms b d by (auto simp: Run_start_def Let_def sound_step_def split: sum.splits bool.splits)
  then show "sound_step lg handlers s s'" "exr_seen (gs_exec s') = exr_seen (gs_exec s)" by blast+
qed

text \<open>The invariant of the running agent.\<close>

lemma agent_step_sound:
  assumes "agent_step ag rt caps r ds r'" and "exr_handlers (gs_exec (rn_agent r)) = handlers"
    and "rn_crash r = None" and "0 < heartbeat_interval (ag_config ag)"
  shows "sound_step lg handlers (rn_agent r) (rn_agent r') \<and> rn_crash r' = None"
  using assms(1)
proof (cases rule: agent_step.cases)
  case (poll p s)
  note ps = poll_pass_sound [OF assms(2) poll(5)]
  show ?thesis using ps(1) poll(2) by (cases p) (use ps(2) in \<open>auto simp: alive_def\<close>)
qed (use assms sendHeartbeat_sound done_quiet [of "gs_world (rn_agent r)"] in
      \<open>auto simp: NewTicker_def sound_step_def alive_def Executor.evict_def Let_def\<close>)

lemma reachable_sound:
  assumes "agent_reachable ag rt caps s0 cs r" and "exr_handlers (gs_exec s0) = handlers"
    and "0 < heartbeat_interval (ag_config ag)"
  shows "sound_step lg handlers s0 (rn_agent r) \<and> rn_crash r = None"
  using assms(1)
proof (induction rule: agent_reachable.induct)
  case init
  then show ?case using assms(2) by (simp add: run_init_def sound_step_def)
next
  case (step cs r ds r')
  then have "sound_step lg handlers (rn_agent r) (rn_agent r') \<and> rn_crash r' = None"
    using agent_step_sound assms(3) by (simp add: sound_step_def)
  then show ?case using step.IH by (auto simp: sound_step_def intro: adds_trans)
qed

end

section \<open>The agent uses its executor\<close>

text \<open>The time of a state, by the clock of the runtime.\<close>

definition later :: "('w, 'f) runtime \<Rightarrow> 'w \<Rightarrow> 'w \<Rightarrow> bool" where
  "later rt w w' \<longleftrightarrow> rt_now rt w \<le> rt_now rt w'"

interpretation clock: state_order "later rt" for rt :: "('w, 'f) runtime"
  by unfold_locales (auto simp: later_def)

text \<open>
  An executor state of \<open>exec_step\<close> that stands for the running agent: the same executor, the
  same handler calls, and a clock that is not ahead.
\<close>

definition stands_for ::
  "('w, 'f) runtime \<Rightarrow> 'w exec_state \<Rightarrow> (string \<times> int) list \<Rightarrow> 'w agent_state \<Rightarrow> bool" where
  "stands_for rt x cs s \<longleftrightarrow>
     exec_reachable x \<and> xs_exec x = gs_exec s \<and> xs_invoked x = cs \<and> xs_clock x \<le> rt_now rt (gs_world s)"

lemma stands_for_later:
  "stands_for rt x cs s \<Longrightarrow> gs_exec s' = gs_exec s \<Longrightarrow> later rt (gs_world s) (gs_world s') \<Longrightarrow> stands_for rt x cs s'"
  by (simp add: stands_for_def later_def)

lemma stands_for_tick:
  assumes "stands_for rt x cs s"
  obtains x' where "stands_for rt x' cs s" and "xs_clock x' = rt_now rt (gs_world s)"
proof
  let ?d = "rt_now rt (gs_world s) - xs_clock x"
  have "exec_step x (x\<lparr>xs_clock := xs_clock x + ?d\<rparr>)"
    by (rule exec_step.tick) (use assms in \<open>simp add: stands_for_def\<close>)
  then show "stands_for rt (x\<lparr>xs_clock := xs_clock x + ?d\<rparr>) cs s"
    using assms by (auto simp: stands_for_def intro: exec_reachable.step)
qed simp

lemma stands_for_evict:
  assumes "stands_for rt x cs s"
  shows "\<exists>x'. stands_for rt x' cs (s\<lparr>gs_exec := Executor.evict (gs_exec s) (rt_now rt (gs_world s))\<rparr>)"
proof -
  obtain x1 where x1: "stands_for rt x1 cs s" "xs_clock x1 = rt_now rt (gs_world s)"
    using stands_for_tick [OF assms] .
  let ?x = "x1\<lparr>xs_exec := Executor.evict (xs_exec x1) (xs_clock x1)\<rparr>"
  have "exec_reachable ?x"
    by (rule exec_reachable.step [OF _ exec_step.evict]) (use x1(1) in \<open>simp add: stands_for_def\<close>)
  then show ?thesis using x1 by (intro exI [of _ ?x]) (simp add: stands_for_def)
qed

text \<open>\<open>Execute\<close> is a call that is over at once, or a call followed by its completion.\<close>

lemma stands_for_Execute:
  assumes "stands_for rt x cs s" and "Execute (rt_now rt) (gs_exec s) op (gs_world s) = (r, e, w)"
    and "later rt (gs_world s) w"
  shows "\<exists>x'. stands_for rt x'
      (cs @ (case Execute_begin (gs_exec s) op (rt_now rt (gs_world s)) of
               (Inl r, e) \<Rightarrow> [] | (Inr h, e) \<Rightarrow> [(opr_ID op, rt_now rt (gs_world s))]))
      (s\<lparr>gs_exec := e, gs_world := w\<rparr>)"
proof -
  let ?t = "rt_now rt (gs_world s)"
  obtain x1 where x1: "stands_for rt x1 cs s" "xs_clock x1 = ?t" using stands_for_tick [OF assms(1)] .
  have ex: "xs_exec x1 = gs_exec s" "exec_reachable x1" "xs_invoked x1 = cs" using x1(1) by (auto simp: stands_for_def)
  obtain b e1 where b: "Execute_begin (gs_exec s) op ?t = (b, e1)" by (cases "Execute_begin (gs_exec s) op ?t")
  show ?thesis
  proof (cases b)
    case (Inl y)
    have "exec_step x1 (x1\<lparr>xs_exec := e1\<rparr>)" by (rule exec_step.over) (use b Inl ex x1(2) in simp)
    then have "exec_reachable (x1\<lparr>xs_exec := e1\<rparr>)" using ex(2) by (rule exec_reachable.step [rotated])
    moreover have "e = e1" "w = gs_world s" using assms(2) b Inl by (simp_all add: Execute_def)
    ultimately show ?thesis using b Inl ex x1(2)
      by (intro exI [of _ "x1\<lparr>xs_exec := e1\<rparr>"]) (simp add: stands_for_def)
  next
    case (Inr h)
    let ?x2 = "x1\<lparr>xs_exec := e1, xs_running := op # xs_running x1, xs_invoked := xs_invoked x1 @ [(opr_ID op, xs_clock x1)]\<rparr>"
    obtain hr w' where hr: "h op (gs_world s) = (hr, w')" by (cases "h op (gs_world s)")
    obtain res e2 where e2: "Execute_finish e1 op hr = (res, e2)" by (cases "Execute_finish e1 op hr")
    have eq: "e = e2" "w = w'" using assms(2) b Inr hr e2 by (simp_all add: Execute_def)
    have "exec_step x1 ?x2" by (rule exec_step.call) (use b Inr ex x1(2) in simp)
    then have r2: "exec_reachable ?x2" using ex(2) by (rule exec_reachable.step [rotated])
    let ?x3 = "?x2\<lparr>xs_exec := e2, xs_running := remove1 op (xs_running ?x2)\<rparr>"
    have "exec_step ?x2 ?x3" by (rule exec_step.finish) (use e2 in simp_all)
    then have "exec_reachable ?x3" using r2 by (rule exec_reachable.step [rotated])
    then show ?thesis using b Inr ex x1(2) eq assms(3)
      by (intro exI [of _ ?x3]) (simp add: stands_for_def later_def)
  qed
qed

text \<open>
  A clock that nothing the agent does sets back; Go compares times by the monotonic clock.
  Then every step of the agent is a sequence of steps of the executor's system.
\<close>

definition forward :: "('w, 'f) Agent \<Rightarrow> ('w, 'f) runtime \<Rightarrow> (string \<rightharpoonup> 'w Handler) \<Rightarrow> bool" where
  "forward ag rt handlers \<longleftrightarrow>
     (\<forall>hq. along (later rt) (ap_Heartbeat (ag_api ag) hq)) \<and>
     (\<forall>t cq. along (later rt) (ap_ClaimOperation (ag_api ag) t cq)) \<and>
     (\<forall>t i q. along (later rt) (ap_CompleteOperation (ag_api ag) t i q)) \<and>
     (\<forall>ty h op. handlers ty = Some h \<longrightarrow> along (later rt) (h op)) \<and>
     (\<forall>w. later rt w (snd (rt_done rt w))) \<and>
     (\<forall>d w. later rt w (snd (rt_pause rt d w))) \<and>
     (\<forall>f w. later rt w (rt_put_fs rt f w))"

lemma forwardD:
  assumes "forward ag rt handlers"
  shows "along (later rt) (ap_Heartbeat (ag_api ag) hq)" "along (later rt) (ap_ClaimOperation (ag_api ag) t cq)"
    "along (later rt) (ap_CompleteOperation (ag_api ag) t i q)"
    "handlers ty = Some h \<Longrightarrow> along (later rt) (h op)"
    "later rt w (snd (rt_done rt w))" "later rt w (snd (rt_pause rt d w))" "later rt w (rt_put_fs rt f w)"
  using assms by (auto simp: forward_def)

context agent_system
begin

lemma Execute_later:
  assumes fw: "forward ag rt handlers" and "exr_handlers e = handlers" and "Execute now e op w = (r, e', w')"
  shows "later rt w w'"
proof (cases "Execute_begin e op (now w)")
  case (Pair b e1)
  show ?thesis
  proof (cases b)
    case (Inl y)
    then show ?thesis using assms(3) Pair by (simp add: Execute_def clock.R_refl)
  next
    case (Inr h)
    have "handlers (opr_Type op) = Some h" using Execute_begin_Inr [of e op "now w" h e1] Pair Inr assms(2) by simp
    then have "along (later rt) (h op)" by (rule forwardD(4) [OF fw])
    then show ?thesis using assms(3) Pair Inr by (auto simp: Execute_def along_def split: prod.splits) (metis snd_conv)
  qed
qed

lemma claim_next_later:
  assumes fw: "forward ag rt handlers" and "claim_next ag rt s = (p, s')"
  shows "gs_exec s' = gs_exec s" and "later rt (gs_world s) (gs_world s')"
proof -
  obtain d w where d: "rt_done rt (gs_world s) = (d, w)" by (cases "rt_done rt (gs_world s)")
  let ?claim = "ap_ClaimOperation (ag_api ag) (pollTimeout (ag_config ag)) \<lparr>cq_NodeID = sto_NodeID (ag_state ag)\<rparr>"
  obtain c w1 where c: "?claim w = (c, w1)" by (cases "?claim w")
  obtain b w2 where b: "rt_pause rt (5 * Second) w1 = (b, w2)" by (cases "rt_pause rt (5 * Second) w1")
  have l1: "later rt (gs_world s) w" using forwardD(5) [OF fw, of "gs_world s"] d by simp
  moreover have l2: "later rt w w1" using alongD [OF forwardD(2) [OF fw] c] .
  moreover have "later rt w1 w2" using forwardD(6) [OF fw, of w1 "5 * Second"] b by simp
  ultimately have "later rt (gs_world s) w1" "later rt (gs_world s) w2" by (blast intro: clock.R_trans)+
  then show "gs_exec s' = gs_exec s" "later rt (gs_world s) (gs_world s')"
    using assms(2) d c b l1
    by (auto simp: claim_next_def split: bool.splits sum.splits option.splits if_splits)
qed

lemma poll_pass_stands_for:
  assumes fw: "forward ag rt handlers"
    and "stands_for rt x cs s" and "poll_pass ag rt s = (p, s')" and "exr_handlers (gs_exec s) = handlers"
  shows "\<exists>x'. stands_for rt x' (cs @ pass_calls ag rt s) s'"
proof -
  obtain c s1 where c: "claim_next ag rt s = (c, s1)" by (cases "claim_next ag rt s")
  note l = claim_next_later [OF fw c]
  have s1: "stands_for rt x cs s1" by (rule stands_for_later [OF assms(2) l])
  show ?thesis
  proof (cases c)
    case (Inl q)
    then show ?thesis using s1 assms(3) c by (auto simp: poll_pass_def pass_calls_def)
  next
    case (Inr op)
    obtain r e w where ex: "Execute (rt_now rt) (gs_exec s1) op (gs_world s1) = (r, e, w)"
      by (cases "Execute (rt_now rt) (gs_exec s1) op (gs_world s1)") auto
    have "later rt (gs_world s1) w" using Execute_later [OF fw _ ex] l(1) assms(4) by simp
    then obtain x' where x': "stands_for rt x' (cs @ pass_calls ag rt s) (s1\<lparr>gs_exec := e, gs_world := w\<rparr>)"
      using stands_for_Execute [OF s1 ex] c Inr by (auto simp: pass_calls_def)
    have p: "perform ag rt op s1 = (p, s')" using assms(3) c Inr by (simp add: poll_pass_def)
    have "gs_exec s' = e \<and> later rt w (gs_world s')"
    proof (cases r)
      case (Panics m)
      then show ?thesis using p ex by (auto simp: perform_def clock.R_refl)
    next
      case (Returns y)
      let ?q = "complete_request (opr_ID op) y"
      obtain z w' where z: "ap_CompleteOperation (ag_api ag) (30 * Second) (opr_ID op) ?q w = (z, w')"
        by (cases "ap_CompleteOperation (ag_api ag) (30 * Second) (opr_ID op) ?q w")
      then have "later rt w w'" by (rule alongD [OF forwardD(3) [OF fw]])
      then show ?thesis using p ex Returns z by (auto simp: perform_def split: sum.splits)
    qed
    then show ?thesis using stands_for_later [OF x', of s'] by auto
  qed
qed

lemma sendHeartbeat_later:
  assumes fw: "forward ag rt handlers"
  shows "gs_exec (sendHeartbeat ag rt caps s) = gs_exec s"
  "later rt (gs_world s) (gs_world (sendHeartbeat ag rt caps s))"
proof -
  have host: "along (later rt) (on_host rt m)" for m :: "(fsys, 'c) io"
    by (simp add: along_def on_host_def io_on_def forwardD(7) [OF fw] case_prod_beta)
  have "along (later rt) (heartbeat_io ag rt caps)"
    unfolding heartbeat_io_def by (intro clock.along_laws host forwardD(1) [OF fw])
  moreover obtain r w where h: "heartbeat_io ag rt caps (gs_world s) = (r, w)"
    by (cases "heartbeat_io ag rt caps (gs_world s)")
  ultimately have "later rt (gs_world s) w" by (blast dest: alongD)
  then show "gs_exec (sendHeartbeat ag rt caps s) = gs_exec s"
    "later rt (gs_world s) (gs_world (sendHeartbeat ag rt caps s))"
    using h by (cases r; simp add: sendHeartbeat_def)+
qed

lemma agent_step_stands_for:
  assumes fw: "forward ag rt handlers" and "agent_step ag rt caps r ds r'" and "stands_for rt x cs (rn_agent r)"
    and "exr_handlers (gs_exec (rn_agent r)) = handlers"
  shows "\<exists>x'. stands_for rt x' (cs @ ds) (rn_agent r')"
  using assms(2)
proof (cases rule: agent_step.cases)
  case (poll p s)
  then show ?thesis using poll_pass_stands_for [OF fw assms(3) poll(5) assms(4)] by simp
next
  case evict
  then show ?thesis using stands_for_evict [OF assms(3)] by simp
qed (use sendHeartbeat_later [OF fw] forwardD(5) [OF fw, of "gs_world (rn_agent r)"] in
      \<open>auto simp: clock.R_refl intro!: exI [of _ x] stands_for_later [OF assms(3)]\<close>)

lemma reachable_stands_for:
  assumes fw: "forward ag rt handlers"
    and "agent_reachable ag rt caps s0 cs r" and "exr_handlers (gs_exec s0) = handlers"
    and "exr_seen (gs_exec s0) = Map.empty" and "0 < heartbeat_interval (ag_config ag)"
  shows "\<exists>x. stands_for rt x cs (rn_agent r)"
  using assms(2)
proof (induction rule: agent_reachable.induct)
  case init
  have "exec_reachable (exec_start (gs_exec s0) (rt_now rt (gs_world s0)))" by (rule exec_reachable.start)
  then show ?case using assms(4)
    by (intro exI [of _ "exec_start (gs_exec s0) (rt_now rt (gs_world s0))"])
       (simp add: stands_for_def exec_start_def run_init_def)
next
  case (step cs r ds r')
  have "exr_handlers (gs_exec (rn_agent r)) = handlers"
    using reachable_sound [OF step.hyps(1) assms(3,5)] by (simp add: sound_step_def)
  then show ?case using step.IH agent_step_stands_for [OF fw step.hyps(2)] by blast
qed

end

section \<open>Properties\<close>

lemma heartbeat_interval_exact:
  assumes "0 < cc_HeartbeatIntervalSec (cfg_Controller cfg)" and "cc_HeartbeatIntervalSec (cfg_Controller cfg) \<le> 9223372036"
  shows "heartbeat_interval cfg = cc_HeartbeatIntervalSec (cfg_Controller cfg) * Second"
    and "NewTicker (heartbeat_interval cfg) = Returns ()"
proof -
  show "heartbeat_interval cfg = cc_HeartbeatIntervalSec (cfg_Controller cfg) * Second"
    unfolding heartbeat_interval_def by (rule wrap64_id) (use assms in \<open>simp_all add: Second_def\<close>)
  then show "NewTicker (heartbeat_interval cfg) = Returns ()" using assms(1) by (simp add: NewTicker_def Second_def)
qed

text \<open>
  Property C40. For every configured interval of up to 9223372036 seconds the heartbeat ticker
  is made with exactly that interval. One second more does not fit a \<open>time.Duration\<close>: the
  product wraps to a negative number and \<open>time.NewTicker\<close> panics, which ends the agent.
\<close>

theorem heartbeat_interval_bounds:
  "(0 < cc_HeartbeatIntervalSec (cfg_Controller cfg) \<and> cc_HeartbeatIntervalSec (cfg_Controller cfg) \<le> 9223372036 \<longrightarrow>
      heartbeat_interval cfg = cc_HeartbeatIntervalSec (cfg_Controller cfg) * Second \<and>
      NewTicker (heartbeat_interval cfg) = Returns ()) \<and>
   (cc_HeartbeatIntervalSec (cfg_Controller cfg) = 9223372037 \<longrightarrow>
      (\<exists>msg. NewTicker (heartbeat_interval cfg) = Panics msg))"
proof (intro conjI impI)
  assume "0 < cc_HeartbeatIntervalSec (cfg_Controller cfg) \<and> cc_HeartbeatIntervalSec (cfg_Controller cfg) \<le> 9223372036"
  then show "heartbeat_interval cfg = cc_HeartbeatIntervalSec (cfg_Controller cfg) * Second"
    "NewTicker (heartbeat_interval cfg) = Returns ()"
    using heartbeat_interval_exact [of cfg] by blast+
next
  assume "cc_HeartbeatIntervalSec (cfg_Controller cfg) = 9223372037"
  moreover have "wrap64 (9223372037 * Second) < 0" by code_simp
  ultimately show "\<exists>msg. NewTicker (heartbeat_interval cfg) = Panics msg"
    by (simp add: heartbeat_interval_def NewTicker_def)
qed

theorem heartbeat_interval_bounds_witness:
  "heartbeat_interval (sample_config\<lparr>cfg_Controller := (cfg_Controller sample_config)\<lparr>cc_HeartbeatIntervalSec := 30\<rparr>\<rparr>) = 30 * Second"
  using heartbeat_interval_bounds [of "sample_config\<lparr>cfg_Controller := (cfg_Controller sample_config)\<lparr>cc_HeartbeatIntervalSec := 30\<rparr>\<rparr>"]
  by simp

end
