(* ===== verification/AtomicWrite.thy ===== *)
theory AtomicWrite
  imports GoFiles
begin

text \<open>
  Replacing a file as a whole: write a temporary file beside it, then rename. The locale
  \<open>atomic_writer\<close> states what the callers rely on; the lemmas before it are the steps from
  which \<open>Save\<close> and \<open>writeFileAtomic\<close> get it, whatever calls fail.
\<close>

section \<open>Steps\<close>

text \<open>
  \<open>replaces I path c m\<close>: from a file system that satisfies \<open>I\<close>, \<open>m\<close> takes the path from its
  old content to \<open>c\<close> in one step if it succeeds and leaves the old content if it fails.
\<close>

definition replaces :: "(fsys \<Rightarrow> bool) \<Rightarrow> string \<Rightarrow> fileobj \<Rightarrow> (fsys, unit) io \<Rightarrow> bool" where
  "replaces I path c m \<longleftrightarrow>
     (\<forall>s r s'. I s \<longrightarrow> m s = (r, s') \<longrightarrow>
        (\<exists>h. fs_hist s' = fs_hist s @ h \<and>
             list_all (\<lambda>f. f path = fs_files s path \<or> f path = Some c) h) \<and>
        fs_files s' path = (if is_ok r then Some c else fs_files s path))"

definition gives :: "(fsys \<Rightarrow> bool) \<Rightarrow> (fsys, 'a) io \<Rightarrow> ('a \<Rightarrow> fsys \<Rightarrow> bool) \<Rightarrow> bool" where
  "gives I m J \<longleftrightarrow> (\<forall>s x s'. I s \<longrightarrow> m s = (Inr x, s') \<longrightarrow> J x s')"

definition holds :: "string \<Rightarrow> string \<Rightarrow> string \<Rightarrow> nat \<Rightarrow> fsys \<Rightarrow> bool" where
  "holds path p data perm s \<longleftrightarrow> p \<noteq> path \<and> fs_files s p = Some \<lparr>fi_Data = data, fi_Perm = perm\<rparr>"

definition always_fails :: "(fsys, 'a) io \<Rightarrow> bool" where
  "always_fails m \<longleftrightarrow> (\<forall>s. \<not> is_ok (fst (m s)))"

named_theorems file_steps \<open>what the calls on the temporary file do\<close>

lemma keeps_catch [fs_laws]:
  assumes "keeps path m" and "\<And>e. keeps path (h e)"
  shows "keeps path (io_catch m h)"
proof -
  have "io_catch m h s = io_bind (io_try m) (\<lambda>r. case r of Inl e \<Rightarrow> h e | Inr x \<Rightarrow> io_return x) s" for s
    by (simp add: io_catch_def io_bind_def io_try_def split: prod.splits sum.splits)
  moreover have "keeps path (io_bind (io_try m) (\<lambda>r. case r of Inl e \<Rightarrow> h e | Inr x \<Rightarrow> io_return x))"
    using assms by (auto intro!: fs_laws split: sum.split)
  ultimately show ?thesis by (simp add: keeps_def)
qed

lemma replaces_bind:
  assumes "keeps path m" and "gives I m J" and "\<And>x. replaces (J x) path c (f x)"
  shows "replaces I path c (io_bind m f)"
  unfolding replaces_def
proof (intro allI impI)
  fix s r s'
  assume I: "I s" and run: "io_bind m f s = (r, s')"
  obtain q s1 where m: "m s = (q, s1)" by (cases "m s")
  obtain h where h: "fs_hist s1 = fs_hist s @ h" "list_all (\<lambda>f. f path = fs_files s path) h"
    "fs_files s1 path = fs_files s path" using assms(1) m by (rule keepsE)
  have h': "list_all (\<lambda>f. f path = fs_files s path \<or> f path = Some c) h"
    using h(2) by (simp add: list_all_iff)
  show "(\<exists>h. fs_hist s' = fs_hist s @ h \<and> list_all (\<lambda>f. f path = fs_files s path \<or> f path = Some c) h) \<and>
      fs_files s' path = (if is_ok r then Some c else fs_files s path)"
  proof (cases q)
    case (Inl e)
    then show ?thesis using m run h h' by (auto simp: io_bind_def)
  next
    case (Inr x)
    have "J x s1" using assms(2) I m Inr by (simp add: gives_def)
    moreover have "f x s1 = (r, s')" using run m Inr by (simp add: io_bind_def)
    ultimately obtain h2 where "fs_hist s' = fs_hist s1 @ h2"
      "list_all (\<lambda>f. f path = fs_files s1 path \<or> f path = Some c) h2"
      "fs_files s' path = (if is_ok r then Some c else fs_files s1 path)"
      using assms(3) [of x] unfolding replaces_def by blast
    then show ?thesis using h h' by (intro conjI exI [of _ "h @ h2"]) simp_all
  qed
qed

lemma gives_wrap [file_steps]: "gives I m J \<Longrightarrow> gives I (io_wrap msg m) J"
  by (auto simp: gives_def io_wrap_Inr)

lemma gives_catch [file_steps]:
  assumes "gives I m J" and "\<And>e. always_fails (h e)"
  shows "gives I (io_catch m h) J"
proof -
  have "h e s \<noteq> (Inr x, s')" for e s x s' using assms(2) [of e] by (auto simp: always_fails_def dest: spec [of _ s])
  then show ?thesis using assms(1) by (auto simp: gives_def io_catch_def split: prod.splits sum.splits)
qed

lemma always_fails_bind: "(\<And>x. always_fails (f x)) \<Longrightarrow> always_fails (io_bind m f)"
  by (auto simp: always_fails_def io_bind_def split: prod.splits sum.splits)

lemma always_fails_fail [simp]: "always_fails (io_fail e)"
  by (simp add: always_fails_def)

lemma gives_CreateTemp [file_steps]:
  assumes "\<not> HasSuffix path suf"
  shows "gives (\<lambda>_. True) (os_CreateTemp dir pre suf) (\<lambda>p. holds path p [] 384)"
  unfolding gives_def holds_def
proof (intro allI impI)
  fix s p s'
  assume "os_CreateTemp dir pre suf s = (Inr p, s')"
  from CreateTemp_Inr [OF this] assms
  show "p \<noteq> path \<and> fs_files s' p = Some \<lparr>fi_Data = [], fi_Perm = 384\<rparr>" by auto
qed

lemma keeps_CreateTemp [fs_laws]:
  assumes "\<not> HasSuffix path suf"
  shows "keeps path (os_CreateTemp dir pre suf)"
  unfolding keeps_def
proof
  fix s
  obtain r s' where run: "os_CreateTemp dir pre suf s = (r, s')" by (cases "os_CreateTemp dir pre suf s")
  show "\<exists>h. fs_hist (snd (os_CreateTemp dir pre suf s)) = fs_hist s @ h \<and>
      list_all (\<lambda>f. f path = fs_files s path) h \<and>
      fs_files (snd (os_CreateTemp dir pre suf s)) path = fs_files s path"
  proof (cases r)
    case (Inl e)
    then show ?thesis using run CreateTemp_Inl [of dir pre suf s e s'] by simp
  next
    case (Inr p)
    note c = CreateTemp_Inr [OF run [unfolded Inr]]
    have "p \<noteq> path" using c(1) assms by auto
    then show ?thesis using run c by (intro exI [of _ "[fs_files s']"]) simp
  qed
qed

lemma gives_Write [file_steps]:
  "gives (holds path p old perm) (file_Write p data) (\<lambda>_. holds path p (old @ data) perm)"
  by (auto simp: gives_def holds_def file_Write_def upd_file_def dest!: change_files_Inr(1))

lemma gives_Chmod [file_steps]:
  "gives (holds path p data old) (file_Chmod p perm) (\<lambda>_. holds path p data perm)"
  by (auto simp: gives_def holds_def file_Chmod_def upd_file_def dest!: change_files_Inr(1))

lemma gives_Close [file_steps]: "gives (holds path p data perm) file_Close (\<lambda>_. holds path p data perm)"
  by (auto simp: gives_def holds_def file_Close_def dest!: change_files_Inr(1))

lemma replaces_Rename:
  "replaces (holds path p data perm) path \<lparr>fi_Data = data, fi_Perm = perm\<rparr> (os_Rename p path)"
  unfolding replaces_def
proof (intro allI impI)
  fix s r s'
  assume I: "holds path p data perm s" and run: "os_Rename p path s = (r, s')"
  let ?c = "\<lparr>fi_Data = data, fi_Perm = perm\<rparr>"
  have c: "change_files (\<lambda>f. f(p := None, path \<mapsto> ?c)) (\<lambda>_ f. f) s = (r, s')"
    using I run by (simp add: holds_def os_Rename_def)
  show "(\<exists>h. fs_hist s' = fs_hist s @ h \<and> list_all (\<lambda>f. f path = fs_files s path \<or> f path = Some ?c) h) \<and>
      fs_files s' path = (if is_ok r then Some ?c else fs_files s path)"
  proof (cases r)
    case (Inl e)
    obtain n :: nat where "fs_files s' = fs_files s" "fs_hist s' = fs_hist s @ [fs_files s]"
      using c unfolding Inl by (rule change_files_Inl)
    then show ?thesis using Inl by simp
  next
    case (Inr u)
    then show ?thesis using change_files_Inr [OF c [unfolded Inr]] by simp
  qed
qed

text \<open>A handler that leaves the path alone and fails does not change what was replaced.\<close>

lemma replaces_catch:
  assumes "replaces I path c m" and "\<And>e. keeps path (h e)" and "\<And>e. always_fails (h e)"
  shows "replaces I path c (io_catch m h)"
  unfolding replaces_def
proof (intro allI impI)
  fix s r s'
  assume I: "I s" and run: "io_catch m h s = (r, s')"
  obtain q s1 where m: "m s = (q, s1)" by (cases "m s")
  obtain a where a: "fs_hist s1 = fs_hist s @ a"
      "list_all (\<lambda>f. f path = fs_files s path \<or> f path = Some c) a"
      "fs_files s1 path = (if is_ok q then Some c else fs_files s path)"
    using assms(1) I m unfolding replaces_def by blast
  show "(\<exists>h. fs_hist s' = fs_hist s @ h \<and> list_all (\<lambda>f. f path = fs_files s path \<or> f path = Some c) h) \<and>
      fs_files s' path = (if is_ok r then Some c else fs_files s path)"
  proof (cases q)
    case (Inl e)
    then have he: "h e s1 = (r, s')" using run m by (simp add: io_catch_def)
    obtain b where b: "fs_hist s' = fs_hist s1 @ b" "list_all (\<lambda>f. f path = fs_files s1 path) b"
      "fs_files s' path = fs_files s1 path" using assms(2) he by (rule keepsE)
    have "\<not> is_ok r" using assms(3) [of e] he unfolding always_fails_def by (metis fst_conv)
    moreover have "list_all (\<lambda>f. f path = fs_files s path \<or> f path = Some c) (a @ b)"
      using a b Inl by (auto simp: list_all_iff)
    ultimately show ?thesis using a b Inl by (intro conjI exI [of _ "a @ b"]) simp_all
  next
    case (Inr x)
    then show ?thesis using run m a by (auto simp: io_catch_def)
  qed
qed

text \<open>
  The shape both writers have: create, write, set the permissions, close, and a last step
  that renames; the handlers of the failures differ.
\<close>

lemma replaces_on_holds:
  assumes "p \<noteq> path \<Longrightarrow> replaces (holds path p data perm) path c m"
  shows "replaces (holds path p data perm) path c m"
  using assms by (auto simp: replaces_def holds_def)

lemma replaces_staged:
  assumes "keeps path create" and "gives (\<lambda>_. True) create (\<lambda>p. holds path p [] 384)"
    and "\<And>p e. p \<noteq> path \<Longrightarrow> keeps path (hw p e) \<and> keeps path (hc p e) \<and> keeps path (hl p e)"
    and "\<And>p e. always_fails (hw p e) \<and> always_fails (hc p e) \<and> always_fails (hl p e)"
    and "\<And>p. p \<noteq> path \<Longrightarrow> replaces (holds path p data perm) path \<lparr>fi_Data = data, fi_Perm = perm\<rparr> (fin p)"
  shows "replaces (\<lambda>_. True) path \<lparr>fi_Data = data, fi_Perm = perm\<rparr>
    (io_bind create (\<lambda>p.
     io_bind (io_catch (file_Write p data) (hw p)) (\<lambda>_.
     io_bind (io_catch (file_Chmod p perm) (hc p)) (\<lambda>_.
     io_bind (io_catch file_Close (hl p)) (\<lambda>_. fin p)))))"
proof (rule replaces_bind [OF assms(1,2)], rule replaces_on_holds)
  fix p
  assume p: "p \<noteq> path"
  have w: "gives (holds path p [] 384) (file_Write p data) (\<lambda>_. holds path p data 384)"
    using gives_Write [of path p "[]" 384 data] by simp
  note h = assms(3) [OF p, THEN conjunct1] assms(3) [OF p, THEN conjunct2, THEN conjunct1]
    assms(3) [OF p, THEN conjunct2, THEN conjunct2] assms(4) [THEN conjunct1]
    assms(4) [THEN conjunct2, THEN conjunct1] assms(4) [THEN conjunct2, THEN conjunct2]
  show "replaces (holds path p [] 384) path \<lparr>fi_Data = data, fi_Perm = perm\<rparr>
    (io_bind (io_catch (file_Write p data) (hw p)) (\<lambda>_.
     io_bind (io_catch (file_Chmod p perm) (hc p)) (\<lambda>_.
     io_bind (io_catch file_Close (hl p)) (\<lambda>_. fin p))))"
    by (rule replaces_bind assms(5) [OF p] w h fs_laws file_steps p)+
qed

text \<open>When no call fails the last step is reached and the temporary file is gone.\<close>

lemma staged_no_fault:
  assumes "p \<noteq> path" and "fs_faults s = []" and "fs_files s p = Some \<lparr>fi_Data = [], fi_Perm = 384\<rparr>"
  shows "\<exists>s'. io_bind (io_catch (file_Write p data) hw) (\<lambda>_.
     io_bind (io_catch (file_Chmod p perm) hc) (\<lambda>_.
     io_bind (io_catch file_Close hl) (\<lambda>_. io_catch (os_Rename p path) hr))) s = (Inr (), s') \<and>
       fs_files s' = (fs_files s)(p := None, path \<mapsto> \<lparr>fi_Data = data, fi_Perm = perm\<rparr>)"
  using assms
  by (simp add: io_bind_def io_catch_def no_fault file_Write_def file_Chmod_def file_Close_def
      os_Rename_def upd_file_def)

section \<open>The interface\<close>

text \<open>
  One write after another, each whether or not the one before succeeded, with the results.
\<close>

fun io_each :: "('a \<Rightarrow> ('s, unit) io) \<Rightarrow> 'a list \<Rightarrow> 's \<Rightarrow> (goerror + unit) list \<times> 's" where
  "io_each f [] s = ([], s)"
| "io_each f (x # xs) s = (let (r, s1) = f x s; (rs, s2) = io_each f xs s1 in (r # rs, s2))"

fun last_ok :: "'b \<Rightarrow> 'b list \<Rightarrow> (goerror + unit) list \<Rightarrow> 'b" where
  "last_ok d (x # xs) (r # rs) = last_ok (if is_ok r then x else d) xs rs"
| "last_ok d _ _ = d"

locale atomic_writer =
  fixes path :: string
    and content :: "'a \<Rightarrow> fileobj"
    and writer :: "'a \<Rightarrow> (fsys, unit) io"
  assumes write_replaces: "replaces (\<lambda>_. True) path (content x) (writer x)"
begin

lemma write_passes:
  assumes "writer x s = (r, s')"
  obtains h where "fs_hist s' = fs_hist s @ h"
    and "list_all (\<lambda>f. f path = fs_files s path \<or> f path = Some (content x)) h"
    and "fs_files s' path = (if is_ok r then Some (content x) else fs_files s path)"
  using write_replaces [of x] assms unfolding replaces_def by blast

text \<open>Whatever is found at the path is what was there first or one whole content that was written.\<close>

lemma never_partial:
  assumes "io_each writer xs s = (rs, s')"
  shows "\<exists>h. fs_hist s' = fs_hist s @ h \<and>
           list_all (\<lambda>f. f path = fs_files s path \<or> f path \<in> (Some \<circ> content) ` set xs) h"
  using assms
proof (induction xs arbitrary: s rs)
  case Nil
  then show ?case by simp
next
  case (Cons x xs)
  obtain r s1 where w: "writer x s = (r, s1)" by (cases "writer x s")
  obtain rs' where e: "io_each writer xs s1 = (rs', s')"
    using Cons.prems w by (auto split: prod.splits)
  obtain h where h: "fs_hist s1 = fs_hist s @ h"
      "list_all (\<lambda>f. f path = fs_files s path \<or> f path = Some (content x)) h"
      "fs_files s1 path = (if is_ok r then Some (content x) else fs_files s path)"
    using w by (rule write_passes)
  obtain h2 where "fs_hist s' = fs_hist s1 @ h2"
      "list_all (\<lambda>f. f path = fs_files s1 path \<or> f path \<in> (Some \<circ> content) ` set xs) h2"
    using Cons.IH [OF e] by blast
  then show ?case using h by (intro exI [of _ "h @ h2"]) (auto simp: list_all_iff split: if_splits)
qed

text \<open>After the writes the path has the content of the last one that succeeded.\<close>

lemma last_write_wins:
  assumes "io_each writer xs s = (rs, s')"
  shows "fs_files s' path = last_ok (fs_files s path) (map (Some \<circ> content) xs) rs"
  using assms
proof (induction xs arbitrary: s rs)
  case Nil
  then show ?case by simp
next
  case (Cons x xs)
  obtain r s1 where w: "writer x s = (r, s1)" by (cases "writer x s")
  obtain rs' where e: "io_each writer xs s1 = (rs', s')" and rs: "rs = r # rs'"
    using Cons.prems w by (auto split: prod.splits)
  have "fs_files s1 path = (if is_ok r then Some (content x) else fs_files s path)"
    using w by (rule write_passes)
  then show ?case using Cons.IH [OF e] rs by simp
qed

end

end
