(* ===== verification/GoJsonPrint.thy ===== *)
theory GoJsonPrint
  imports GoJson
begin

text \<open>
  \<open>json.MarshalIndent(v, "", "  ")\<close>: the text of a JSON value, with the HTML-safe escapes of
  Go's encoder, and the round trip: parsing the text gives the value back.
\<close>

section \<open>Strings\<close>

definition hex4_text :: "nat \<Rightarrow> string" where
  "hex4_text n = [CHR 0x5C, CHR ''u'', hex_digit (n div 4096 mod 16), hex_digit (n div 256 mod 16),
     hex_digit (n div 16 mod 16), hex_digit (n mod 16)]"

definition escape_ascii :: "char \<Rightarrow> string" where
  "escape_ascii c =
     (if c = CHR 0x22 \<or> c = CHR 0x5C then [CHR 0x5C, c]
      else if c = CHR 0x08 then [CHR 0x5C, CHR ''b'']
      else if c = CHR 0x0C then [CHR 0x5C, CHR ''f'']
      else if c = CHR 0x0A then [CHR 0x5C, CHR ''n'']
      else if c = CHR 0x0D then [CHR 0x5C, CHR ''r'']
      else if c = CHR 0x09 then [CHR 0x5C, CHR ''t'']
      else if code c < 32 \<or> c = CHR ''<'' \<or> c = CHR ''>'' \<or> c = CHR ''&'' then hex4_text (code c)
      else [c])"

function json_escape :: "string \<Rightarrow> string" where
  "json_escape [] = []"
| "json_escape (c # s) =
     (let n = utf8_len (c # s)
      in if code c < 128 then escape_ascii c @ json_escape s
         else if n = 0 then hex4_text 65533 @ json_escape s
         else
           (let w = take n (c # s)
            in (if w = [CHR 0xE2, CHR 0x80, CHR 0xA8] then hex4_text 8232
                else if w = [CHR 0xE2, CHR 0x80, CHR 0xA9] then hex4_text 8233
                else w) @ json_escape (drop (n - 1) s)))"
  by pat_completeness auto
termination
  by (relation "measure length") auto

declare json_escape.simps [simp del]

definition json_quote :: "string \<Rightarrow> string" where
  "json_quote s = [CHR 0x22] @ json_escape s @ [CHR 0x22]"

section \<open>Values\<close>

definition newline :: "nat \<Rightarrow> string" where
  "newline d = CHR 0x0A # concat (replicate d ''  '')"

fun json_indent :: "nat \<Rightarrow> json \<Rightarrow> string"
  and indent_elems :: "nat \<Rightarrow> json list \<Rightarrow> string"
  and indent_members :: "nat \<Rightarrow> (string \<times> json) list \<Rightarrow> string" where
  "json_indent d JNull = ''null''"
| "json_indent d (JBool b) = (if b then ''true'' else ''false'')"
| "json_indent d (JNum l) = l"
| "json_indent d (JStr s) = json_quote s"
| "json_indent d (JArr []) = ''[]''"
| "json_indent d (JArr (v # vs)) = ''['' @ indent_elems (Suc d) (v # vs) @ newline d @ '']''"
| "json_indent d (JObj []) = ''{}''"
| "json_indent d (JObj (m # ms)) = ''{'' @ indent_members (Suc d) (m # ms) @ newline d @ ''}''"
| "indent_elems d [] = []"
| "indent_elems d [v] = newline d @ json_indent d v"
| "indent_elems d (v # w # vs) = newline d @ json_indent d v @ '','' @ indent_elems d (w # vs)"
| "indent_members d [] = []"
| "indent_members d [(k, v)] = newline d @ json_quote k @ '': '' @ json_indent d v"
| "indent_members d ((k, v) # m # ms) =
     newline d @ json_quote k @ '': '' @ json_indent d v @ '','' @ indent_members d (m # ms)"

definition MarshalIndent :: "json \<Rightarrow> string" where
  "MarshalIndent v = json_indent 0 v"

section \<open>Reading a string back\<close>

text \<open>A text that is valid UTF-8.\<close>

function valid_utf8 :: "string \<Rightarrow> bool" where
  "valid_utf8 [] = True"
| "valid_utf8 (c # s) = (utf8_len (c # s) \<noteq> 0 \<and> valid_utf8 (drop (utf8_len (c # s) - 1) s))"
  by pat_completeness auto
termination
  by (relation "measure length") auto

declare valid_utf8.simps [simp del]

lemma utf8_len_ascii: "code c < 128 \<Longrightarrow> utf8_len (c # s) = 1"
  by (simp add: utf8_len_def)

lemma utf8_len_take:
  assumes "utf8_len s = n" and "n \<noteq> 0"
  shows "utf8_len (take n s @ t) = n \<and> length (take n s) = n"
proof (cases s)
  case Nil
  then show ?thesis using assms by (simp add: utf8_len_def)
next
  case a: (Cons a r)
  show ?thesis
  proof (cases r)
    case Nil
    then show ?thesis using assms a by (auto simp: utf8_len_def split: if_splits)
  next
    case b: (Cons b r2)
    show ?thesis
    proof (cases r2)
      case Nil
      then show ?thesis using assms a b by (auto simp: utf8_len_def split: if_splits)
    next
      case c: (Cons c r3)
      show ?thesis
        using assms a b c
        by (cases r3; cases "code a < 128"; cases "in_range 194 223 a"; cases "in_range 224 239 a")
           (auto simp: utf8_len_def split: if_splits)
    qed
  qed
qed

lemma hex_val_digit: "n < 16 \<Longrightarrow> hex_val (hex_digit n) = Some n"
  by (auto simp: hex_val_def hex_digit_def is_digit_def in_range_def)

lemma hex4_hex4_text:
  assumes "n < 65536"
  shows "hex4 (drop 2 (hex4_text n) @ t) = Some n"
proof -
  have d: "n div 16 div 16 = n div 256" "n div 256 div 16 = n div 4096"
    by (simp_all add: div_mult2_eq [symmetric])
  have "n div 256 div 16 * 16 + n div 256 mod 16 = n div 256"
    "n div 16 div 16 * 16 + n div 16 mod 16 = n div 16" "n div 16 * 16 + n mod 16 = n"
    by (rule div_mult_mod_eq)+
  then have "((n div 4096 * 16 + n div 256 mod 16) * 16 + n div 16 mod 16) * 16 + n mod 16 = n"
    unfolding d by simp
  moreover have "n div 4096 mod 16 = n div 4096" "n div 4096 < 16" using assms by simp_all
  ultimately show ?thesis by (simp add: hex4_text_def hex_val_digit)
qed

lemma parse_str_hex4:
  assumes "n < 65536" and "n < 55296 \<or> 57344 \<le> n"
  shows "parse_str (hex4_text n @ t) = cons_str (utf8_encode n) (parse_str t)"
proof -
  have h: "hex4 (drop 2 (hex4_text n) @ t) = Some n" using assms(1) by (rule hex4_hex4_text)
  have e: "escape_rune n t = (utf8_encode n, 0)" using assms(2) by (auto simp: escape_rune_def)
  have eq: "hex4_text n @ t = CHR 0x5C # CHR ''u'' # (drop 2 (hex4_text n) @ t)"
    by (simp add: hex4_text_def)
  have "drop 4 (drop 2 (hex4_text n) @ t) = t" by (simp add: hex4_text_def)
  then show ?thesis unfolding eq using h e
    by (subst parse_str.simps) (simp add: simple_escape_def)
qed

lemma parse_str_ascii:
  assumes "code c < 128"
  shows "parse_str (escape_ascii c @ t) = cons_str [c] (parse_str t)"
proof -
  have esc: "parse_str (CHR 0x5C # e # t) = cons_str [d] (parse_str t)" if "simple_escape e = Some d" for e d
    using that by (subst parse_str.simps) simp
  define S where "S = {CHR 0x22, CHR 0x5C, CHR 0x08, CHR 0x0C, CHR 0x0A, CHR 0x0D, CHR 0x09}"
  define H where "H = (code c < 32 \<or> c = CHR ''<'' \<or> c = CHR ''>'' \<or> c = CHR ''&'')"
  consider (simple) "c \<in> S" | (hex) "c \<notin> S" H | (plain) "c \<notin> S" "\<not> H"
    by blast
  then show ?thesis
  proof cases
    case simple
    then show ?thesis unfolding S_def by (auto simp: escape_ascii_def esc simple_escape_def)
  next
    case hex
    have "utf8_encode (code c) = [c]" using assms by (simp add: utf8_encode_def)
    then show ?thesis using hex assms parse_str_hex4 [of "code c" t]
      by (simp add: escape_ascii_def S_def H_def)
  next
    case plain
    then have "escape_ascii c = [c]" by (simp add: escape_ascii_def S_def H_def)
    then show ?thesis using plain assms unfolding S_def H_def
      by (simp, subst parse_str.simps) (simp add: utf8_len_ascii)
  qed
qed

lemma utf8_separators:
  "utf8_encode 8232 = [CHR 0xE2, CHR 0x80, CHR 0xA8]"
  "utf8_encode 8233 = [CHR 0xE2, CHR 0x80, CHR 0xA9]"
  by (simp_all add: utf8_encode_def char_of_def bit_0)

lemma parse_str_multi:
  assumes "utf8_len w = length w" and "w \<noteq> []" and "\<not> code (hd w) < 128"
  shows "parse_str (w @ t) = cons_str w (parse_str t)"
proof -
  obtain c s where w: "w = c # s" using assms(2) by (cases w) auto
  have u: "utf8_len (c # s @ t) = length w"
    using utf8_len_take [of w "length w" t] assms(1,2) w by simp
  have "c \<noteq> CHR 0x22" "c \<noteq> CHR 0x5C" "\<not> code c < 32" using assms(3) w by auto
  then show ?thesis using w u by (simp, subst parse_str.simps) simp
qed

text \<open>Escaping a valid text and reading the literal gives the text back.\<close>

lemma parse_str_escape:
  assumes "valid_utf8 s"
  shows "parse_str (json_escape s @ CHR 0x22 # t) = Some (s, t)"
  using assms
proof (induction s rule: json_escape.induct)
  case 1
  then show ?case by (simp add: json_escape.simps parse_str.simps)
next
  case (2 c s)
  let ?n = "utf8_len (c # s)"
  have n: "?n \<noteq> 0" and v: "valid_utf8 (drop (?n - 1) s)" using "2.prems" by (simp_all add: valid_utf8.simps)
  show ?case
  proof (cases "code c < 128")
    case True
    then have one: "?n = 1" by (rule utf8_len_ascii)
    have "parse_str (json_escape s @ CHR 0x22 # t) = Some (s, t)"
      using "2.IH"(1) [OF refl True] v one by simp
    then show ?thesis using True parse_str_ascii [OF True, of "json_escape s @ CHR 0x22 # t"]
      by (simp add: json_escape.simps Let_def cons_str_def)
  next
    case False
    let ?w = "take ?n (c # s)"
    let ?r = "json_escape (drop (?n - 1) s) @ CHR 0x22 # t"
    have ih: "parse_str ?r = Some (drop (?n - 1) s, t)"
      using "2.IH"(3) [OF refl False n refl] v by simp
    have len: "utf8_len ?w = length ?w" "length ?w = ?n"
      using utf8_len_take [of "c # s" ?n "[]"] n by simp_all
    have cs: "c # s = ?w @ drop (?n - 1) s" using n by (cases ?n) simp_all
    have "parse_str ((if ?w = [CHR 0xE2, CHR 0x80, CHR 0xA8] then hex4_text 8232
             else if ?w = [CHR 0xE2, CHR 0x80, CHR 0xA9] then hex4_text 8233 else ?w) @ ?r) =
        cons_str ?w (parse_str ?r)"
    proof -
      have "parse_str (hex4_text 8232 @ ?r) = cons_str [CHR 0xE2, CHR 0x80, CHR 0xA8] (parse_str ?r)"
        "parse_str (hex4_text 8233 @ ?r) = cons_str [CHR 0xE2, CHR 0x80, CHR 0xA9] (parse_str ?r)"
        by (simp_all add: parse_str_hex4 utf8_separators)
      moreover have "parse_str (?w @ ?r) = cons_str ?w (parse_str ?r)"
        by (rule parse_str_multi) (use len n False in \<open>cases ?n; simp\<close>)+
      ultimately show ?thesis by (simp del: take_Suc_Cons)
    qed
    then show ?thesis using False n ih cs
      by (subst json_escape.simps) (simp add: Let_def cons_str_def del: take_Suc_Cons)
  qed
qed

section \<open>Reading a number back\<close>

lemma nat_to_string_digits:
  "nat_to_string n \<noteq> [] \<and> list_all is_digit (nat_to_string n) \<and> (n \<noteq> 0 \<longrightarrow> hd (nat_to_string n) \<noteq> CHR ''0'')"
proof (induction n rule: nat_to_string.induct)
  case (1 n)
  have dig: "is_digit (digit_char k)" "k \<noteq> 0 \<Longrightarrow> digit_char k \<noteq> CHR ''0''" if "k < 10" for k
  proof -
    have c: "code (digit_char k) = 48 + k" using that by (simp add: digit_char_def)
    then show "is_digit (digit_char k)" using that by (simp add: is_digit_def)
    show "digit_char k \<noteq> CHR ''0''" if "k \<noteq> 0" using c that by auto
  qed
  show ?case
  proof (cases "n < 10")
    case True
    then show ?thesis using dig by (simp add: nat_to_string.simps)
  next
    case False
    then show ?thesis using 1 dig(1) [of "n mod 10"] by (subst (1 2 3) nat_to_string.simps) simp
  qed
qed

lemma digits_value_append:
  "list_all is_digit a \<Longrightarrow> digits_value acc (a @ b) = (case digits_value acc a of None \<Rightarrow> None | Some x \<Rightarrow> digits_value x b)"
  by (induction a arbitrary: acc) auto

lemma digits_value_nat: "digits_value 0 (nat_to_string n) = Some n"
proof (induction n rule: nat_to_string.induct)
  case (1 n)
  have one: "digits_value acc [digit_char k] = Some (10 * acc + k)" if "k < 10" for acc k
    using that by (simp add: digit_char_def is_digit_def)
  show ?case
  proof (cases "n < 10")
    case True
    then show ?thesis using one [of n 0] by (simp add: nat_to_string.simps)
  next
    case False
    then show ?thesis using 1 one [of "n mod 10" "n div 10"] nat_to_string_digits [of "n div 10"]
      by (subst nat_to_string.simps) (simp add: digits_value_append)
  qed
qed

lemma digit_hd: "list_all is_digit w \<Longrightarrow> w \<noteq> [] \<Longrightarrow> is_digit (hd w)"
  by (cases w) auto

lemma ParseInt64_itoa:
  assumes "- (2 ^ 63) \<le> i" and "i < 2 ^ 63"
  shows "ParseInt64 (itoa i) = (i, None)"
proof (cases "i < 0")
  case True
  let ?w = "nat_to_string (nat (- i))"
  have "?w \<noteq> []" using nat_to_string_digits by blast
  moreover have "\<not> 2 ^ 63 < nat (- i)" using assms by (simp add: zless_nat_eq_int_zless)
  ultimately show ?thesis using True
    by (simp add: ParseInt64_def itoa_def HasPrefix_def digits_value_nat Let_def)
next
  case False
  let ?w = "nat_to_string (nat i)"
  obtain c t where w: "?w = c # t" using nat_to_string_digits by (cases ?w) auto
  have "is_digit c" using nat_to_string_digits [of "nat i"] w by simp
  then have "c \<noteq> CHR ''-''" "c \<noteq> CHR ''+''" by (auto simp: is_digit_def)
  moreover have "\<not> 2 ^ 63 \<le> nat i" using assms by (simp add: nat_less_iff not_le)
  ultimately show ?thesis using False w digits_value_nat [of "nat i"]
    by (simp add: ParseInt64_def itoa_def HasPrefix_def Let_def)
qed

text \<open>The text after a number must not continue it.\<close>

definition num_end :: "string \<Rightarrow> bool" where
  "num_end r \<longleftrightarrow> r = [] \<or> (\<not> is_digit (hd r) \<and> hd r \<noteq> CHR ''.'' \<and> hd r \<noteq> CHR ''e'' \<and> hd r \<noteq> CHR ''E'')"

lemma takeWhile_digits:
  assumes "list_all is_digit w" and "num_end r"
  shows "takeWhile is_digit (w @ r) = w" and "dropWhile is_digit (w @ r) = r"
  using assms by (induction w) (cases r; auto simp: num_end_def)+

lemma parse_uint_nat: "num_end r \<Longrightarrow> parse_uint (nat_to_string n @ r) = Some (nat_to_string n, r)"
proof (cases "n = 0")
  case True
  assume "num_end r"
  then show ?thesis using True by (simp add: nat_to_string.simps digit_char_def parse_uint_def char_of_def bit_0)
next
  case False
  assume r: "num_end r"
  note d = nat_to_string_digits [of n]
  obtain c t where w: "nat_to_string n = c # t" using d by (cases "nat_to_string n") auto
  have "c \<noteq> CHR ''0''" using d w False by simp
  then show ?thesis using takeWhile_digits [of "nat_to_string n" r] d r w
    by (simp add: parse_uint_def parse_digits_def)
qed

lemma parse_num_itoa: "num_end r \<Longrightarrow> parse_num (itoa i @ r) = Some (itoa i, r)"
proof -
  assume r: "num_end r"
  have fx: "parse_frac r = Some ([], r)" "parse_exp r = Some ([], r)"
    using r by (cases r; simp add: parse_frac_def parse_exp_def num_end_def)+
  show ?thesis
  proof (cases "i < 0")
    case True
    then show ?thesis using parse_uint_nat [OF r] fx by (simp add: itoa_def parse_num_def HasPrefix_def)
  next
    case False
    obtain c t where w: "nat_to_string (nat i) = c # t"
      using nat_to_string_digits by (cases "nat_to_string (nat i)") auto
    have "is_digit c" using nat_to_string_digits [of "nat i"] w by simp
    then have "c \<noteq> CHR ''-''" by (auto simp: is_digit_def)
    then show ?thesis using parse_uint_nat [OF r, of "nat i"] fx False w
      by (simp add: itoa_def parse_num_def HasPrefix_def)
  qed
qed

section \<open>Reading a value back\<close>

definition int_literal :: "string \<Rightarrow> bool" where
  "int_literal l \<longleftrightarrow> (case ParseInt64 l of (i, None) \<Rightarrow> l = itoa i | _ \<Rightarrow> False)"

text \<open>The values whose text can be read back: valid UTF-8 in strings, integers as numbers.\<close>

fun ok_json :: "json \<Rightarrow> bool" and ok_elems :: "json list \<Rightarrow> bool" and ok_members :: "(string \<times> json) list \<Rightarrow> bool" where
  "ok_json JNull = True"
| "ok_json (JBool b) = True"
| "ok_json (JNum l) = int_literal l"
| "ok_json (JStr s) = valid_utf8 s"
| "ok_json (JArr vs) = ok_elems vs"
| "ok_json (JObj ms) = ok_members ms"
| "ok_elems [] = True"
| "ok_elems (v # vs) = (ok_json v \<and> ok_elems vs)"
| "ok_members [] = True"
| "ok_members ((k, v) # ms) = (valid_utf8 k \<and> ok_json v \<and> ok_members ms)"

text \<open>The fuel the parser needs.\<close>

fun jsize :: "json \<Rightarrow> nat" and esize :: "json list \<Rightarrow> nat" and msize :: "(string \<times> json) list \<Rightarrow> nat" where
  "jsize (JArr vs) = Suc (esize vs)"
| "jsize (JObj ms) = Suc (msize ms)"
| "jsize v = 1"
| "esize [] = 0"
| "esize (v # vs) = Suc (max (jsize v) (esize vs))"
| "msize [] = 0"
| "msize ((k, v) # ms) = Suc (max (jsize v) (msize ms))"

lemma skip_ws_newline [simp]: "skip_ws (newline d @ s) = skip_ws s"
proof -
  have "skip_ws (concat (replicate d ''  '') @ s) = skip_ws s"
    by (induction d) (simp_all add: skip_ws_def is_ws_def)
  then show ?thesis by (simp add: newline_def skip_ws_def is_ws_def)
qed

lemma skip_ws_idem: "skip_ws (skip_ws s) = skip_ws s"
  by (simp add: skip_ws_def dropWhile_idem)

lemma skip_ws_stop: "\<not> is_ws c \<Longrightarrow> skip_ws (c # s) = c # s"
  by (simp add: skip_ws_def)

lemma parse_value_skip: "parse_value n (skip_ws s) = parse_value n s"
  by (cases n) (simp_all add: skip_ws_idem)

lemma parse_elems_skip: "parse_elems n (skip_ws s) = parse_elems n s"
  by (cases n) (simp_all add: parse_value_skip)

lemma parse_members_skip: "parse_members n (skip_ws s) = parse_members n s"
  by (cases n) (simp_all add: skip_ws_idem)

lemma int_literal_itoa: "int_literal l \<Longrightarrow> \<exists>i. l = itoa i"
  by (auto simp: int_literal_def split: prod.splits option.splits)

lemma itoa_head: "\<exists>c t. itoa i = c # t \<and> (is_digit c \<or> c = CHR ''-'')"
proof (cases "i < 0")
  case False
  then show ?thesis using nat_to_string_digits [of "nat i"] by (cases "nat_to_string (nat i)") (auto simp: itoa_def)
qed (simp add: itoa_def)

lemma digit_bytes:
  assumes "is_digit c \<or> c = CHR ''-''"
  shows "\<not> is_ws c" "c \<noteq> CHR ''{''" "c \<noteq> CHR ''[''" "c \<noteq> CHR 0x22" "c \<noteq> CHR ''t''" "c \<noteq> CHR ''f''" "c \<noteq> CHR ''n''"
    "c \<noteq> CHR '']''" "c \<noteq> CHR ''}''"
  using assms by (auto simp: is_digit_def is_ws_def)

text \<open>A value's text starts with a byte that is no white space and closes nothing.\<close>

lemma json_indent_head:
  assumes "ok_json v"
  shows "\<exists>c t. json_indent d v = c # t \<and> \<not> is_ws c \<and> c \<noteq> CHR '']'' \<and> c \<noteq> CHR ''}''"
proof (cases v)
  case (JNum l)
  then obtain i where "l = itoa i" using assms int_literal_itoa by auto
  moreover obtain c t where ct: "itoa i = c # t" "is_digit c \<or> c = CHR ''-''" using itoa_head by blast
  ultimately show ?thesis using JNum digit_bytes(1,8,9) [OF ct(2)] by simp
next
  case (JArr vs)
  then show ?thesis by (cases vs) (simp_all add: is_ws_def)
next
  case (JObj ms)
  then show ?thesis by (cases ms) (simp_all add: is_ws_def)
qed (simp_all add: is_ws_def json_quote_def)

lemma num_end_delims [simp]:
  "num_end (CHR '','' # r)" "num_end (newline d @ r)" "num_end []" "num_end (CHR '']'' # r)" "num_end (CHR ''}'' # r)"
  by (simp_all add: num_end_def newline_def is_digit_def)

lemma parse_quoted:
  "valid_utf8 k \<Longrightarrow> \<exists>t. json_quote k @ r = CHR 0x22 # t \<and> parse_str t = Some (k, r)"
  using parse_str_escape [of k r] by (simp add: json_quote_def)

lemma parse_value_num:
  assumes "int_literal l" and "num_end r"
  shows "parse_value (Suc n) (l @ r) = Some (JNum l, r)"
proof -
  obtain i where l: "l = itoa i" using assms(1) int_literal_itoa by blast
  obtain c t where ct: "itoa i = c # t" "is_digit c \<or> c = CHR ''-''" using itoa_head by blast
  note b = digit_bytes [OF ct(2)]
  have "parse_num (c # t @ r) = Some (itoa i, r)" using parse_num_itoa [OF assms(2), of i] ct(1) by simp
  then show ?thesis using l ct(1) b by (simp add: skip_ws_stop)
qed

lemma parse_value_str: "valid_utf8 k \<Longrightarrow> parse_value (Suc n) (json_quote k @ r) = Some (JStr k, r)"
  using parse_quoted [of k r] by (auto simp: skip_ws_def is_ws_def)

lemma parse_members_Cons:
  assumes "valid_utf8 k" and "parse_value n (CHR '' '' # s1) = Some (v, s2)"
  shows "parse_members (Suc n) (newline d @ json_quote k @ '': '' @ s1) =
    (case skip_ws s2 of
       [] \<Rightarrow> None
     | e # s5 \<Rightarrow>
         if e = CHR '','' then map_option (\<lambda>(ms, r). ((k, v) # ms, r)) (parse_members n s5)
         else if e = CHR ''}'' then Some ([(k, v)], s5)
         else None)"
proof -
  obtain t where t: "json_quote k @ '': '' @ s1 = CHR 0x22 # t" "parse_str t = Some (k, '': '' @ s1)"
    using parse_quoted [OF assms(1)] by blast
  have "skip_ws (newline d @ json_quote k @ '': '' @ s1) = CHR 0x22 # t"
    unfolding t(1) by (simp add: skip_ws_stop is_ws_def)
  then show ?thesis using t(2) assms(2) by (simp add: skip_ws_stop is_ws_def)
qed

lemma parse_value_space: "parse_value n (CHR '' '' # s) = parse_value n s"
  by (cases n) (simp_all add: skip_ws_def is_ws_def)

lemma parse_value_newline: "parse_value n (newline d @ s) = parse_value n s"
  by (cases n) simp_all

lemma parse_indent:
  "ok_json v \<Longrightarrow> jsize v \<le> n \<Longrightarrow> num_end r \<Longrightarrow> parse_value n (json_indent d v @ r) = Some (v, r)"
  "ok_elems vs \<Longrightarrow> vs \<noteq> [] \<Longrightarrow> esize vs \<le> n \<Longrightarrow>
     parse_elems n (indent_elems d vs @ newline d' @ CHR '']'' # r) = Some (vs, r)"
  "ok_members ms \<Longrightarrow> ms \<noteq> [] \<Longrightarrow> msize ms \<le> n \<Longrightarrow>
     parse_members n (indent_members d ms @ newline d' @ CHR ''}'' # r) = Some (ms, r)"
proof (induction d v and d vs and d ms arbitrary: n r and n r d' and n r d'
    rule: json_indent_indent_elems_indent_members.induct)
  case (1 d)
  then show ?case by (cases n) (simp_all add: skip_ws_def is_ws_def lit_value_def HasPrefix_def)
next
  case (2 d b)
  then show ?case by (cases n) (simp_all add: skip_ws_def is_ws_def lit_value_def HasPrefix_def)
next
  case (3 d l)
  then show ?case by (cases n) (simp_all add: parse_value_num del: parse_value.simps)
next
  case (4 d s)
  then show ?case by (cases n) (simp_all add: parse_value_str del: parse_value.simps)
next
  case (5 d)
  then show ?case by (cases n) (simp_all add: skip_ws_def is_ws_def)
next
  case (6 d v vs)
  then obtain k where n: "n = Suc k" "esize (v # vs) \<le> k" by (cases n) auto
  let ?s = "indent_elems (Suc d) (v # vs) @ newline d @ CHR '']'' # r"
  have ok: "ok_json v" using "6.prems" by simp
  obtain c t where "json_indent (Suc d) v = c # t" "\<not> is_ws c" "c \<noteq> CHR '']''"
    using json_indent_head [OF ok, of "Suc d"] by blast
  then obtain u where u: "skip_ws ?s = c # u" "c \<noteq> CHR '']''"
    by (cases vs) (auto simp: skip_ws_stop)
  have "parse_elems k (c # u) = Some (v # vs, r)"
    using "6.IH" [of k d r] n(2) "6.prems"(1) u(1) parse_elems_skip [of k ?s] by simp
  then show ?case using n(1) u by (simp add: skip_ws_stop is_ws_def)
next
  case (7 d)
  then show ?case by (cases n) (simp_all add: skip_ws_def is_ws_def)
next
  case (8 d m ms)
  then obtain k where n: "n = Suc k" "msize (m # ms) \<le> k" by (cases n) auto
  let ?s = "indent_members (Suc d) (m # ms) @ newline d @ CHR ''}'' # r"
  obtain key v where m: "m = (key, v)" by (cases m)
  obtain u where u: "skip_ws ?s = CHR 0x22 # u"
    unfolding m by (cases ms) (auto simp: skip_ws_stop is_ws_def json_quote_def)
  have "parse_members k (CHR 0x22 # u) = Some (m # ms, r)"
    using "8.IH" [of k d r] n(2) "8.prems"(1) u parse_members_skip [of k ?s] by simp
  then show ?case using n(1) u by (simp add: skip_ws_stop is_ws_def)
next
  case (9 d)
  then show ?case by simp
next
  case (10 d v)
  then obtain k where n: "n = Suc k" "jsize v \<le> k" by (cases n) auto
  have "parse_value k (json_indent d v @ newline d' @ CHR '']'' # r) = Some (v, newline d' @ CHR '']'' # r)"
    using "10.IH" [of k "newline d' @ CHR '']'' # r"] n(2) "10.prems"(1) by simp
  then show ?case using n(1) by (simp add: parse_value_newline skip_ws_stop is_ws_def)
next
  case (11 d v w vs)
  then obtain k where n: "n = Suc k" "jsize v \<le> k" "esize (w # vs) \<le> k" by (cases n) auto
  let ?r = "indent_elems d (w # vs) @ newline d' @ CHR '']'' # r"
  have "parse_value k (json_indent d v @ CHR '','' # ?r) = Some (v, CHR '','' # ?r)"
    using "11.IH"(1) [of k "CHR '','' # ?r"] n(2) "11.prems"(1) by simp
  moreover have "parse_elems k ?r = Some (w # vs, r)"
    using "11.IH"(2) [of k d' r] n(3) "11.prems"(1) by simp
  ultimately show ?case using n(1) by (simp add: parse_value_newline skip_ws_stop is_ws_def)
next
  case (12 d)
  then show ?case by simp
next
  case (13 d key v)
  then obtain k where n: "n = Suc k" "jsize v \<le> k" by (cases n) auto
  let ?r = "newline d' @ CHR ''}'' # r"
  have "parse_value k (json_indent d v @ ?r) = Some (v, ?r)"
    using "13.IH" [of k ?r] n(2) "13.prems"(1) by simp
  then show ?case using n(1) "13.prems"(1)
      parse_members_Cons [of key k "json_indent d v @ ?r" v ?r d]
    by (simp add: parse_value_space skip_ws_stop is_ws_def del: parse_members.simps)
next
  case (14 d key v m ms)
  then obtain k where n: "n = Suc k" "jsize v \<le> k" "msize (m # ms) \<le> k" by (cases n) auto
  let ?r = "indent_members d (m # ms) @ newline d' @ CHR ''}'' # r"
  have "parse_value k (json_indent d v @ CHR '','' # ?r) = Some (v, CHR '','' # ?r)"
    using "14.IH"(1) [of k "CHR '','' # ?r"] n(2) "14.prems"(1) by simp
  moreover have "parse_members k ?r = Some (m # ms, r)"
    using "14.IH"(2) [of k d' r] n(3) "14.prems"(1) by simp
  ultimately show ?case using n(1) "14.prems"(1)
      parse_members_Cons [of key k "json_indent d v @ CHR '','' # ?r" v "CHR '','' # ?r" d]
    by (simp add: parse_value_space skip_ws_stop is_ws_def del: parse_members.simps)
qed

lemma jsize_length:
  "ok_json v \<Longrightarrow> jsize v \<le> length (json_indent d v)"
  "ok_elems vs \<Longrightarrow> esize vs \<le> length (indent_elems d vs)"
  "ok_members ms \<Longrightarrow> msize ms \<le> length (indent_members d ms)"
proof (induction d v and d vs and d ms rule: json_indent_indent_elems_indent_members.induct)
  case (3 d l)
  then obtain i where "l = itoa i" using int_literal_itoa by auto
  then show ?case using itoa_head [of i] by auto
qed (auto simp: json_quote_def newline_def)

text \<open>Parsing the indented text of a value gives the value.\<close>

lemma json_parse_MarshalIndent:
  assumes "ok_json v"
  shows "json_parse (MarshalIndent v) = Some v"
proof -
  let ?s = "json_indent 0 v"
  have "jsize v \<le> 2 * length ?s + 2" using jsize_length(1) [OF assms, of 0] by simp
  then have "parse_value (2 * length ?s + 2) (?s @ []) = Some (v, [])"
    by (rule parse_indent(1) [OF assms]) simp
  then show ?thesis by (simp add: json_parse_def MarshalIndent_def skip_ws_def del: parse_value.simps)
qed

end
