(* ===== verification/GoJsonValid.thy ===== *)
theory GoJsonValid
  imports GoJsonPrint
begin

text \<open>
  What the JSON decoder produces is well formed, whatever text it reads: every string and
  every key is valid UTF-8, so it can be encoded and decoded again without loss.
\<close>

section \<open>Valid UTF-8\<close>

lemma valid_utf8_append: "valid_utf8 a \<Longrightarrow> valid_utf8 (a @ b) = valid_utf8 b"
proof (induction a rule: valid_utf8.induct)
  case (2 c s)
  let ?n = "utf8_len (c # s)"
  have n: "?n \<noteq> 0" and v: "valid_utf8 (drop (?n - 1) s)" using "2.prems" by (simp_all add: valid_utf8.simps)
  have t: "utf8_len (take ?n (c # s) @ (drop ?n (c # s) @ b)) = ?n" "length (take ?n (c # s)) = ?n"
    using utf8_len_take [of "c # s" ?n "drop ?n (c # s) @ b"] n by simp_all
  have "take ?n (c # s) @ (drop ?n (c # s) @ b) = (c # s) @ b"
    using append_take_drop_id [of ?n "c # s"] by (metis append_assoc)
  then have l: "utf8_len (c # s @ b) = ?n" using t(1) by (simp only: append_Cons)
  have "?n - 1 \<le> length s" using t(2) by simp
  then have "drop (?n - 1) (s @ b) = drop (?n - 1) s @ b" by simp
  then show ?case using "2.IH" v n l by (simp add: valid_utf8.simps)
qed simp

lemma valid_utf8_one:
  assumes "utf8_len w = length w" and "w \<noteq> []"
  shows "valid_utf8 w"
proof -
  obtain c s where w: "w = c # s" using assms(2) by (cases w) auto
  then show ?thesis using assms(1) by (simp add: valid_utf8.simps)
qed

lemma code_char_of: "k < 256 \<Longrightarrow> code (char_of k) = k"
  by simp

lemma utf8_encode_valid:
  assumes "n < 1114112" and "n < 55296 \<or> 57344 \<le> n"
  shows "valid_utf8 (utf8_encode n)"
proof -
  consider (a) "n < 128" | (b) "128 \<le> n" "n < 2048" | (c) "2048 \<le> n" "n < 65536" | (d) "65536 \<le> n"
    by linarith
  then show ?thesis
  proof cases
    case a
    then show ?thesis by (intro valid_utf8_one) (simp_all add: utf8_encode_def utf8_len_def)
  next
    case b
    have "2 \<le> n div 64" "n div 64 < 32" using b div_le_mono [of 128 n 64] by (simp_all add: less_mult_imp_div_less)
    then show ?thesis using b
      by (intro valid_utf8_one) (simp_all add: utf8_encode_def utf8_len_def in_range_def)
  next
    case c
    define a b d where abd: "a = n div 4096" "b = n div 64 mod 64" "d = n mod 64"
    have lt: "a < 16" "b < 64" "d < 64" using c by (simp_all add: abd less_mult_imp_div_less)
    have n: "n = a * 4096 + b * 64 + d"
    proof -
      have "n = (n div 64) * 64 + d" by (simp add: abd)
      moreover have "n div 64 = (n div 64 div 64) * 64 + b" unfolding abd by (rule div_mult_mod_eq [symmetric])
      moreover have "n div 64 div 64 = a" by (simp add: abd div_mult2_eq [symmetric])
      ultimately show ?thesis by simp
    qed
    have e: "utf8_encode n = [char_of (224 + a), char_of (128 + b), char_of (128 + d)]"
      using c by (simp add: utf8_encode_def abd)
    have 1: "a = 0 \<Longrightarrow> 32 \<le> b" using n lt c by simp
    have 2: "a = 13 \<Longrightarrow> b < 32" using n lt assms(2) by auto
    show ?thesis unfolding e
      by (intro valid_utf8_one) (use lt 1 2 in \<open>auto simp: utf8_len_def in_range_def\<close>)
  next
    case d
    define a b x y where abxy: "a = n div 262144" "b = n div 4096 mod 64" "x = n div 64 mod 64" "y = n mod 64"
    have lt: "a < 5" "b < 64" "x < 64" "y < 64" using assms(1) by (simp_all add: abxy less_mult_imp_div_less)
    have n: "n = a * 262144 + b * 4096 + x * 64 + y"
    proof -
      have "n = (n div 64) * 64 + y" by (simp add: abxy)
      moreover have "n div 64 = (n div 64 div 64) * 64 + x" unfolding abxy by (rule div_mult_mod_eq [symmetric])
      moreover have "n div 64 div 64 = n div 4096" by (simp add: div_mult2_eq [symmetric])
      moreover have "n div 4096 = (n div 4096 div 64) * 64 + b" unfolding abxy by (rule div_mult_mod_eq [symmetric])
      moreover have "n div 4096 div 64 = a" by (simp add: abxy div_mult2_eq [symmetric])
      ultimately show ?thesis by simp
    qed
    have e: "utf8_encode n = [char_of (240 + a), char_of (128 + b), char_of (128 + x), char_of (128 + y)]"
      using d by (simp add: utf8_encode_def abxy)
    have 1: "a = 0 \<Longrightarrow> 16 \<le> b" using n lt d by simp
    have 2: "a = 4 \<Longrightarrow> b < 16" using n lt assms(1) by simp
    show ?thesis unfolding e
      by (intro valid_utf8_one) (use lt 1 2 in \<open>auto simp: utf8_len_def in_range_def\<close>)
  qed
qed

section \<open>String literals\<close>

lemma hex_val_bound: "hex_val c = Some n \<Longrightarrow> n < 16"
  by (auto simp: hex_val_def is_digit_def in_range_def split: if_splits)

lemma hex4_bound: "hex4 s = Some n \<Longrightarrow> n < 65536"
proof (induction s rule: hex4.induct)
  case (1 a b c d r)
  obtain w x y z where v: "hex_val a = Some w" "hex_val b = Some x" "hex_val c = Some y" "hex_val d = Some z"
    "n = ((w * 16 + x) * 16 + y) * 16 + z"
    using "1.prems" by (auto split: option.splits)
  then have "w < 16" "x < 16" "y < 16" "z < 16" using hex_val_bound by blast+
  then show ?case using v(5) by simp
qed simp_all

lemma replacement_valid: "valid_utf8 replacement_rune"
  by code_simp

lemma escape_rune_valid:
  assumes "u < 65536"
  shows "valid_utf8 (fst (escape_rune u rest))"
proof -
  have "valid_utf8 (utf8_encode u)" if "u < 55296 \<or> 57344 \<le> u"
    by (rule utf8_encode_valid) (use assms that in auto)
  moreover have "valid_utf8 (utf8_encode ((u - 55296) * 1024 + (v - 56320) + 65536))"
    if "55296 \<le> u" "u < 56320" "56320 \<le> v" "v < 57344" for v
  proof (rule utf8_encode_valid)
    have "u - 55296 \<le> 1023" "v - 56320 \<le> 1023" using that by auto
    then show "(u - 55296) * 1024 + (v - 56320) + 65536 < 1114112" by simp
  qed simp
  ultimately show ?thesis using replacement_valid
    by (auto simp: escape_rune_def split: option.splits)
qed

lemma cons_str_valid:
  assumes "cons_str w r = Some (v, t)" and "valid_utf8 w" and "\<And>v' t'. r = Some (v', t') \<Longrightarrow> valid_utf8 v'"
  shows "valid_utf8 v"
  using assms by (auto simp: cons_str_def valid_utf8_append)

lemma simple_escape_valid: "simple_escape e = Some d \<Longrightarrow> valid_utf8 [d]"
  by (intro valid_utf8_one) (auto simp: simple_escape_def utf8_len_def split: if_splits)

lemma parse_str_valid: "parse_str s = Some (v, t) \<Longrightarrow> valid_utf8 v"
proof (induction s arbitrary: v t rule: parse_str.induct)
  case 1
  then show ?case by (simp add: parse_str.simps)
next
  case (2 c s)
  let ?n = "utf8_len (c # s)"
  consider (quote) "c = CHR 0x22" | (esc) "c \<noteq> CHR 0x22" "c = CHR 0x5C"
    | (bad) "c \<noteq> CHR 0x22" "c \<noteq> CHR 0x5C" "code c < 32"
    | (plain) "c \<noteq> CHR 0x22" "c \<noteq> CHR 0x5C" "\<not> code c < 32" by blast
  then show ?case
  proof cases
    case quote
    then show ?thesis using "2.prems" by (simp add: parse_str.simps valid_utf8.simps)
  next
    case bad
    then show ?thesis using "2.prems" by (simp add: parse_str.simps)
  next
    case esc
    then obtain e r where s: "s = e # r" using "2.prems" by (cases s) (simp_all add: parse_str.simps)
    show ?thesis
    proof (cases "simple_escape e")
      case (Some d)
      have "cons_str [d] (parse_str r) = Some (v, t)" using "2.prems" esc s Some by (simp add: parse_str.simps)
      then show ?thesis using simple_escape_valid [OF Some] "2.IH"(2) [OF esc s Some] by (rule cons_str_valid)
    next
      case None
      then obtain u where e: "e = CHR ''u''" and u: "hex4 r = Some u"
        using "2.prems" esc s by (simp add: parse_str.simps split: if_splits option.splits)
      obtain w k where wk: "escape_rune u (drop 4 r) = (w, k)" by (cases "escape_rune u (drop 4 r)")
      have "cons_str w (parse_str (drop k (drop 4 r))) = Some (v, t)"
        using "2.prems" esc s None e u wk by (simp add: parse_str.simps Let_def)
      moreover have "valid_utf8 w" using escape_rune_valid [OF hex4_bound [OF u], of "drop 4 r"] wk by simp
      ultimately show ?thesis
        using "2.IH"(1) [OF esc s None e u refl refl wk [symmetric]] by (rule cons_str_valid)
    qed
  next
    case plain
    show ?thesis
    proof (cases "?n = 0")
      case True
      have "cons_str replacement_rune (parse_str s) = Some (v, t)"
        using "2.prems" plain True by (simp add: parse_str.simps)
      then show ?thesis using replacement_valid "2.IH"(3) [OF plain refl True] by (rule cons_str_valid)
    next
      case False
      have "cons_str (take ?n (c # s)) (parse_str (drop (?n - 1) s)) = Some (v, t)"
        using "2.prems" plain False by (simp add: parse_str.simps Let_def)
      moreover have "valid_utf8 (take ?n (c # s))"
        using utf8_len_take [of "c # s" ?n "[]"] False by (intro valid_utf8_one) auto
      ultimately show ?thesis using "2.IH"(4) [OF plain refl False] by (rule cons_str_valid)
    qed
  qed
qed

section \<open>Values\<close>

fun valid_json :: "json \<Rightarrow> bool" where
  "valid_json (JStr s) = valid_utf8 s"
| "valid_json (JArr vs) = list_all valid_json vs"
| "valid_json (JObj ms) = list_all (\<lambda>(k, v). valid_utf8 k \<and> valid_json v) ms"
| "valid_json _ = True"

lemma parse_valid:
  "parse_value n s = Some (v, r) \<Longrightarrow> valid_json v"
  "parse_elems n s = Some (vs, r) \<Longrightarrow> list_all valid_json vs"
  "parse_members n s = Some (ms, r) \<Longrightarrow> list_all (\<lambda>(k, v). valid_utf8 k \<and> valid_json v) ms"
proof (induction n s and n s and n s arbitrary: v r and vs r and ms r
    rule: parse_value_parse_elems_parse_members.induct)
  case (2 n s0)
  then show ?case
    by (auto simp: lit_value_def dest!: parse_str_valid split: list.splits if_splits option.splits)
next
  case (4 n s0)
  then show ?case by (auto split: list.splits if_splits option.splits)
next
  case (6 n s0)
  then show ?case by (auto dest!: parse_str_valid split: list.splits if_splits option.splits)
qed simp_all

lemma json_parse_valid: "json_parse s = Some v \<Longrightarrow> valid_json v"
  by (auto simp: json_parse_def dest!: parse_valid(1) split: option.splits if_splits simp del: parse_value.simps)

lemma store_string_valid:
  "valid_json v \<Longrightarrow> valid_utf8 old \<Longrightarrow> valid_utf8 (fst (store_string v old))"
  by (cases v) (simp_all add: store_string_def)

lemma ParseInt64_range:
  assumes "ParseInt64 l = (n, None)"
  shows "- (2 ^ 63) \<le> n" and "n < 2 ^ 63"
proof -
  obtain neg k where "\<not> neg \<longrightarrow> k < 2 ^ 63" "neg \<longrightarrow> k \<le> 2 ^ 63" "n = (if neg then - int k else int k)"
    using assms by (fastforce simp: ParseInt64_def Let_def not_le not_less split: if_splits option.splits)
  then show "- (2 ^ 63) \<le> n" "n < 2 ^ 63" by (auto split: if_splits)
qed

text \<open>What every field's decoder keeps, the decoder of the struct keeps.\<close>

lemma find_field_set: "find_field fs k = Some st \<Longrightarrow> st \<in> snd ` set fs"
proof -
  assume "find_field fs k = Some st"
  then obtain P f where f: "find P fs = Some f" "st = snd f"
    by (auto simp: find_field_def split: option.splits)
  have "f \<in> set fs" using f(1) by (auto simp: find_Some_iff)
  then show ?thesis using f(2) by simp
qed

lemma store_fields_inv:
  assumes "\<And>st v r. st \<in> snd ` set fs \<Longrightarrow> valid_json v \<Longrightarrow> P r \<Longrightarrow> P (fst (st v r))"
    and "list_all (\<lambda>(k, v). valid_utf8 k \<and> valid_json v) ms" and "P r"
  shows "P (fst (store_fields fs ms r))"
  using assms(2,3)
proof (induction ms arbitrary: r)
  case (Cons m ms)
  obtain k v where m: "m = (k, v)" by (cases m)
  show ?case
  proof (cases "find_field fs k")
    case None
    then show ?thesis using Cons m by simp
  next
    case (Some st)
    have "P (fst (st v r))" using assms(1) [OF find_field_set [OF Some]] Cons.prems m by simp
    then have "P (fst (store_fields fs ms (fst (st v r))))" using Cons m by simp
    then show ?thesis using Some m by (simp add: Let_def case_prod_beta)
  qed
qed simp

lemma store_struct_inv:
  assumes "\<And>st v r. st \<in> snd ` set fs \<Longrightarrow> valid_json v \<Longrightarrow> P r \<Longrightarrow> P (fst (st v r))"
    and "valid_json v" and "P r"
  shows "P (fst (store_struct name fs v r))"
proof (cases v)
  case (JObj ms)
  then show ?thesis using assms(2,3) store_fields_inv [where fs = fs and P = P and ms = ms and r = r] assms(1)
    by (simp add: store_struct_def)
qed (use assms(3) in \<open>simp_all add: store_struct_def\<close>)

end
