(* ===== verification/Enroll.thy ===== *)
theory Enroll
  imports ApiClient AtomicWrite Paths GoJsonValid
begin

text \<open>
  Enrolment (\<open>internal/api/enroll.go\<close>): a new key pair and a certificate request, the
  request to the control plane, and saving the key and the signed certificate.

  Key generation, the DER encodings and signing are the work of \<open>crypto/ed25519\<close> and
  \<open>crypto/x509\<close>: parameters, collected in \<open>crypto_lib\<close>. PEM encoding is modelled.
\<close>

section \<open>PEM\<close>

definition base64_chars :: string where
  "base64_chars = ''ABCDEFGHIJKLMNOPQRSTUVWXYZabcdefghijklmnopqrstuvwxyz0123456789+/''"

definition b64 :: "nat \<Rightarrow> char" where
  "b64 n = base64_chars ! (n mod 64)"

fun base64_encode :: "string \<Rightarrow> string" where
  "base64_encode [] = []"
| "base64_encode [a] = [b64 (code a div 4), b64 (code a * 16), CHR ''='', CHR ''='']"
| "base64_encode [a, b] =
     [b64 (code a div 4), b64 (code a * 16 + code b div 16), b64 (code b * 4), CHR ''='']"
| "base64_encode (a # b # c # s) =
     [b64 (code a div 4), b64 (code a * 16 + code b div 16), b64 (code b * 4 + code c div 64), b64 (code c)]
     @ base64_encode s"

function pem_lines :: "string \<Rightarrow> string" where
  "pem_lines s = (if s = [] then [] else take 64 s @ [CHR 0x0A] @ pem_lines (drop 64 s))"
  by pat_completeness auto
termination by (relation "measure length") auto

declare pem_lines.simps [simp del]

definition pem_EncodeToMemory :: "string \<Rightarrow> string \<Rightarrow> string" where
  "pem_EncodeToMemory typ der =
     ''-----BEGIN '' @ typ @ ''-----'' @ [CHR 0x0A] @ pem_lines (base64_encode der) @
     ''-----END '' @ typ @ ''-----'' @ [CHR 0x0A]"

section \<open>Keys and requests\<close>

record CertificateRequest =
  ct_CommonName :: string
  ct_DNSNames :: "string list"
  ct_SignatureAlgorithm :: string

record 'priv crypto_lib =
  cy_GenerateKey :: "goerror + 'priv"
  cy_CreateCertificateRequest :: "CertificateRequest \<Rightarrow> 'priv \<Rightarrow> goerror + string"
  cy_MarshalPKCS8PrivateKey :: "'priv \<Rightarrow> goerror + string"

definition csr_template :: "string \<Rightarrow> CertificateRequest" where
  "csr_template nodeID =
     (let n = (if nodeID = [] then ''unknown'' else nodeID)
      in \<lparr>ct_CommonName = ''routestack-node-'' @ n, ct_DNSNames = [n], ct_SignatureAlgorithm = ''PureEd25519''\<rparr>)"

definition GenerateKeyAndCSR :: "'priv crypto_lib \<Rightarrow> string \<Rightarrow> goerror + 'priv \<times> string" where
  "GenerateKeyAndCSR cy nodeID =
     result_bind (map_error (\<lambda>e. ErrWrap ''generate ed25519 key: '' e []) (cy_GenerateKey cy)) (\<lambda>priv.
     result_bind (map_error (\<lambda>e. ErrWrap ''create CSR: '' e [])
                    (cy_CreateCertificateRequest cy (csr_template nodeID) priv)) (\<lambda>csrDER.
     Inr (priv, pem_EncodeToMemory ''CERTIFICATE REQUEST'' csrDER)))"

definition mustMarshalPKCS8 :: "'priv crypto_lib \<Rightarrow> 'priv \<Rightarrow> string outcome" where
  "mustMarshalPKCS8 cy key =
     (case cy_MarshalPKCS8PrivateKey cy key of
        Inl err \<Rightarrow> Panics (''marshal pkcs8: '' @ Error err)
      | Inr der \<Rightarrow> Returns der)"

section \<open>Saving files\<close>

definition writeFileAtomic :: "string \<Rightarrow> string \<Rightarrow> nat \<Rightarrow> (fsys, unit) io" where
  "writeFileAtomic path data perm =
     io_bind (os_CreateTemp (filepath_Dir path) ''.rtstack-'' ''.tmp'') (\<lambda>tmpPath.
     io_bind (io_catch (file_Write tmpPath data) (\<lambda>err.
         io_bind (io_ignore file_Close) (\<lambda>_. io_bind (io_ignore (os_Remove tmpPath)) (\<lambda>_. io_fail err)))) (\<lambda>_.
     io_bind (io_catch (file_Chmod tmpPath perm) (\<lambda>err.
         io_bind (io_ignore file_Close) (\<lambda>_. io_bind (io_ignore (os_Remove tmpPath)) (\<lambda>_. io_fail err)))) (\<lambda>_.
     io_bind (io_catch file_Close (\<lambda>err.
         io_bind (io_ignore (os_Remove tmpPath)) (\<lambda>_. io_fail err))) (\<lambda>_.
     os_Rename tmpPath path))))"

section \<open>Enrolment\<close>

record 'd enroll_world =
  ew_fs :: fsys
  ew_api :: "'d api_world"

definition on_fs :: "(fsys, 'a) io \<Rightarrow> ('d enroll_world, 'a) io" where
  "on_fs m = io_on ew_fs ew_fs_update m"

definition on_api :: "('d api_world, 'a) io \<Rightarrow> ('d enroll_world, 'a) io" where
  "on_api m = io_on ew_api ew_api_update m"

definition enroll_keyPath :: string where "enroll_keyPath = ''/etc/routestack/agent/key.pem''"
definition enroll_certPath :: string where "enroll_certPath = ''/etc/routestack/agent/cert.pem''"

text \<open>Saving the key and then the certificate.\<close>

definition save_identity :: "string \<Rightarrow> string \<Rightarrow> (fsys, unit) io" where
  "save_identity keyPEM certPEM =
     io_bind (io_wrap ''save key: '' (writeFileAtomic enroll_keyPath keyPEM 384)) (\<lambda>_.
     io_wrap ''save cert: '' (writeFileAtomic enroll_certPath certPEM 384))"

definition api_Enroll ::
  "'priv crypto_lib \<Rightarrow> ('cert, 'pool) tls_lib \<Rightarrow> (('cert, 'pool) Client, 'd) api_env \<Rightarrow>
    string \<Rightarrow> string \<Rightarrow> string \<Rightarrow> ('d enroll_world, EnrollResponse outcome) io" where
  "api_Enroll cy lib env controllerURL token caCertPath =
     io_bind (io_lift (GenerateKeyAndCSR cy [])) (\<lambda>(priv, csrPEM).
     io_bind (io_wrap ''create enrollment client: ''
                (on_fs (NewClientWithCA lib controllerURL caCertPath (10 * Second) (60 * Second)))) (\<lambda>client.
     io_bind (io_wrap ''enroll request: ''
                (on_api (client_Enroll env client (cl_baseURL client)
                   \<lparr>eq_EnrollmentToken = token, eq_CSR = csrPEM, eq_NodeID = []\<rparr>))) (\<lambda>resp.
     case mustMarshalPKCS8 cy priv of
       Panics msg \<Rightarrow> io_return (Panics msg)
     | Returns der \<Rightarrow>
         io_bind (on_fs (save_identity (pem_EncodeToMemory ''PRIVATE KEY'' der) (er_Certificate resp))) (\<lambda>_.
         io_return (Returns resp)))))"

section \<open>Writing the files is atomic\<close>

definition file_600 :: "string \<Rightarrow> fileobj" where
  "file_600 data = \<lparr>fi_Data = data, fi_Perm = 384\<rparr>"

lemma writeFileAtomic_replaces:
  assumes "\<not> HasSuffix path ''.tmp''"
  shows "replaces (\<lambda>_. True) path \<lparr>fi_Data = data, fi_Perm = perm\<rparr> (writeFileAtomic path data perm)"
  unfolding writeFileAtomic_def
  by (rule replaces_staged)
     (auto intro!: fs_laws file_steps always_fails_bind replaces_Rename assms)

lemma identity_paths [simp]:
  "\<not> HasSuffix enroll_keyPath ''.tmp''" "\<not> HasSuffix enroll_certPath ''.tmp''"
  "enroll_keyPath \<noteq> enroll_certPath"
  by (simp_all add: enroll_keyPath_def enroll_certPath_def HasSuffix_def)

interpretation key_file: atomic_writer enroll_keyPath file_600 "\<lambda>d. writeFileAtomic enroll_keyPath d 384"
  by unfold_locales (simp add: file_600_def writeFileAtomic_replaces)

interpretation cert_file: atomic_writer enroll_certPath file_600 "\<lambda>d. writeFileAtomic enroll_certPath d 384"
  by unfold_locales (simp add: file_600_def writeFileAtomic_replaces)

text \<open>Writing one file leaves every other path alone that does not look like a temporary file.\<close>

lemma writeFileAtomic_keeps:
  assumes "path \<noteq> other" and "\<not> HasSuffix other ''.tmp''"
  shows "keeps other (writeFileAtomic path data perm)"
  unfolding writeFileAtomic_def
proof (rule keeps_bind_dep)
  fix s p s'
  assume "os_CreateTemp (filepath_Dir path) ''.rtstack-'' ''.tmp'' s = (Inr p, s')"
  then have "p \<noteq> other" using CreateTemp_Inr(1) assms(2) by blast
  then show "keeps other
      (io_bind (io_catch (file_Write p data) (\<lambda>err.
         io_bind (io_ignore file_Close) (\<lambda>_. io_bind (io_ignore (os_Remove p)) (\<lambda>_. io_fail err)))) (\<lambda>_.
       io_bind (io_catch (file_Chmod p perm) (\<lambda>err.
         io_bind (io_ignore file_Close) (\<lambda>_. io_bind (io_ignore (os_Remove p)) (\<lambda>_. io_fail err)))) (\<lambda>_.
       io_bind (io_catch file_Close (\<lambda>err.
         io_bind (io_ignore (os_Remove p)) (\<lambda>_. io_fail err))) (\<lambda>_.
       os_Rename p path))))"
    using assms(1) by (intro fs_laws) auto
qed (rule fs_laws assms)+

text \<open>A file system in which the certificate is the old one, or is new beside the new key.\<close>

definition paired :: "files \<Rightarrow> string \<Rightarrow> string \<Rightarrow> files \<Rightarrow> bool" where
  "paired old keyPEM certPEM f \<longleftrightarrow>
     f enroll_certPath = old enroll_certPath \<or>
     (f enroll_certPath = Some (file_600 certPEM) \<and> f enroll_keyPath = Some (file_600 keyPEM))"

lemma save_identity_paired:
  assumes "save_identity k c s = (r, s')"
  shows "\<exists>h. fs_hist s' = fs_hist s @ h \<and> list_all (paired (fs_files s) k c) h \<and>
           fs_files s' enroll_certPath = (if is_ok r then Some (file_600 c) else fs_files s enroll_certPath) \<and>
           (is_ok r \<longrightarrow> fs_files s' enroll_keyPath = Some (file_600 k))"
proof -
  obtain r1 s1 where w1: "writeFileAtomic enroll_keyPath k 384 s = (r1, s1)"
    by (cases "writeFileAtomic enroll_keyPath k 384 s")
  have "keeps enroll_certPath (writeFileAtomic enroll_keyPath k 384)"
    by (rule writeFileAtomic_keeps) simp_all
  then obtain h1 where h1: "fs_hist s1 = fs_hist s @ h1"
      "list_all (\<lambda>f. f enroll_certPath = fs_files s enroll_certPath) h1"
      "fs_files s1 enroll_certPath = fs_files s enroll_certPath" using w1 by (rule keepsE)
  have p1: "list_all (paired (fs_files s) k c) h1" using h1(2) by (simp add: list_all_iff paired_def)
  have k1: "fs_files s1 enroll_keyPath = (if is_ok r1 then Some (file_600 k) else fs_files s enroll_keyPath)"
    using w1 by (rule key_file.write_passes)
  show ?thesis
  proof (cases r1)
    case (Inl e)
    then show ?thesis using assms w1 h1(1,3) p1 by (auto simp: save_identity_def io_bind_def io_wrap_def)
  next
    case (Inr u)
    obtain r2 s2 where w2: "writeFileAtomic enroll_certPath c 384 s1 = (r2, s2)"
      by (cases "writeFileAtomic enroll_certPath c 384 s1")
    have "keeps enroll_keyPath (writeFileAtomic enroll_certPath c 384)"
      by (rule writeFileAtomic_keeps) (simp_all add: identity_paths(3) [symmetric] del: identity_paths(3))
    then obtain h2 where h2: "fs_hist s2 = fs_hist s1 @ h2"
        "list_all (\<lambda>f. f enroll_keyPath = fs_files s1 enroll_keyPath) h2"
        "fs_files s2 enroll_keyPath = fs_files s1 enroll_keyPath" using w2 by (rule keepsE)
    obtain h2' where h2': "fs_hist s2 = fs_hist s1 @ h2'"
        "list_all (\<lambda>f. f enroll_certPath = fs_files s1 enroll_certPath \<or> f enroll_certPath = Some (file_600 c)) h2'"
        "fs_files s2 enroll_certPath = (if is_ok r2 then Some (file_600 c) else fs_files s1 enroll_certPath)"
      using w2 by (rule cert_file.write_passes)
    have "h2' = h2" using h2(1) h2'(1) by simp
    then have p2: "list_all (paired (fs_files s) k c) h2"
      using h2(2) h2'(2) h1(3) k1 Inr by (auto simp: list_all_iff paired_def)
    have "r = map_error (\<lambda>e. ErrWrap ''save cert: '' e []) r2" "s' = s2"
      using assms w1 w2 Inr by (simp_all add: save_identity_def io_bind_def io_wrap_def)
    then show ?thesis using h1(1,3) h2 h2'(3) p1 p2 k1 Inr
      by (intro exI [of _ "h1 @ h2"]) (auto simp: is_ok_iff map_error_eq_Inr)
  qed
qed

lemma NewClientWithCA_frame:
  assumes "NewClientWithCA lib url ca ct rt s = (r, s')"
  shows "fs_files s' = fs_files s" and "fs_hist s' = fs_hist s"
proof -
  have "s' = snd (os_ReadFile ca s)"
    using assms by (auto simp: NewClientWithCA_def loadCAPool_def io_bind_def io_wrap_def
        split: prod.splits sum.splits option.splits)
  then show "fs_files s' = fs_files s" "fs_hist s' = fs_hist s" by (simp_all add: ReadFile_frame)
qed

lemma NewClientWithCA_url: "NewClientWithCA lib url ca ct rt s = (Inr cl, s') \<Longrightarrow> cl_baseURL cl = url"
  by (auto simp: NewClientWithCA_def newClientWithTLS_def io_success)

text \<open>The strings of a response are valid UTF-8.\<close>

lemma unmarshal_EnrollResponse_valid:
  assumes "unmarshal_to store_EnrollResponse zero_EnrollResponse d = Inr resp"
  shows "valid_utf8 (er_NodeID resp)"
proof -
  obtain v where v: "json_parse d = Some v" and r: "resp = fst (store_EnrollResponse v zero_EnrollResponse)"
    using assms by (auto simp: unmarshal_to_def Unmarshal_def split: option.splits prod.splits)
  have "valid_utf8 (er_NodeID (fst (store_EnrollResponse v zero_EnrollResponse)))"
    unfolding store_EnrollResponse_def
  proof (rule store_struct_inv [where P = "\<lambda>x. valid_utf8 (er_NodeID x)"])
    show "valid_json v" by (rule json_parse_valid [OF v])
    show "valid_utf8 (er_NodeID zero_EnrollResponse)" by (simp add: zero_EnrollResponse_def valid_utf8.simps)
  qed (auto simp: in_field_def Let_def case_prod_beta store_string_valid)
  then show ?thesis using r by simp
qed

lemma client_Enroll_valid:
  "client_Enroll env c url req w = (Inr resp, w') \<Longrightarrow> valid_utf8 (er_NodeID resp)"
  by (auto simp: client_Enroll_def doWithRetry_def io_success intro: unmarshal_EnrollResponse_valid)

text \<open>
  The private key that was generated, as it is saved: PKCS8 in PEM; and the request that carries
  the certificate request made and signed with this key.
\<close>

definition generated_key :: "'priv crypto_lib \<Rightarrow> string \<Rightarrow> bool" where
  "generated_key cy keyPEM \<longleftrightarrow>
     (\<exists>priv der. cy_GenerateKey cy = Inr priv \<and> cy_MarshalPKCS8PrivateKey cy priv = Inr der \<and>
        keyPEM = pem_EncodeToMemory ''PRIVATE KEY'' der)"

definition asks_for_key :: "'priv crypto_lib \<Rightarrow> string \<Rightarrow> string \<Rightarrow> http_request \<Rightarrow> bool" where
  "asks_for_key cy url token req \<longleftrightarrow>
     (\<exists>priv der. cy_GenerateKey cy = Inr priv \<and>
        cy_CreateCertificateRequest cy \<lparr>ct_CommonName = ''routestack-node-unknown'', ct_DNSNames = [''unknown''],
          ct_SignatureAlgorithm = ''PureEd25519''\<rparr> priv = Inr der \<and>
        req = \<lparr>hr_method = ''POST'', hr_url = url @ ''/internal/agent/v1/enroll'',
          hr_body = Some (JObj [(''enrollment_token'', JStr token),
            (''csr'', JStr (pem_EncodeToMemory ''CERTIFICATE REQUEST'' der))])\<rparr>)"

lemma GenerateKeyAndCSR_Inr:
  assumes "GenerateKeyAndCSR cy [] = Inr (priv, csr)"
  shows "cy_GenerateKey cy = Inr priv"
    and "asks_for_key cy url token \<lparr>hr_method = ''POST'', hr_url = url @ ''/internal/agent/v1/enroll'',
      hr_body = Some (EnrollRequest_json \<lparr>eq_EnrollmentToken = token, eq_CSR = csr, eq_NodeID = []\<rparr>)\<rparr>"
proof -
  obtain p der where p: "cy_GenerateKey cy = Inr p" "cy_CreateCertificateRequest cy (csr_template []) p = Inr der"
      "p = priv" "csr = pem_EncodeToMemory ''CERTIFICATE REQUEST'' der"
    using assms unfolding GenerateKeyAndCSR_def
    by (auto simp: result_bind_eq_Inr map_error_eq_Inr)
  then show "cy_GenerateKey cy = Inr priv" by simp
  show "asks_for_key cy url token \<lparr>hr_method = ''POST'', hr_url = url @ ''/internal/agent/v1/enroll'',
      hr_body = Some (EnrollRequest_json \<lparr>eq_EnrollmentToken = token, eq_CSR = csr, eq_NodeID = []\<rparr>)\<rparr>"
    using p by (simp add: asks_for_key_def csr_template_def EnrollRequest_json_def opt_member_def Let_def)
qed

lemma client_Enroll_sends:
  assumes "client_Enroll env c url req w = (Inr resp, w')"
  shows "\<exists>n. 0 < n \<and> sent (aw_net w') = sent (aw_net w) @ replicate n
     \<lparr>hr_method = ''POST'', hr_url = url @ ''/internal/agent/v1/enroll'', hr_body = Some (EnrollRequest_json req)\<rparr>"
proof -
  have pos: "0 \<le> rc_MaxRetries DefaultRetryConfig" by (simp add: DefaultRetryConfig_def)
  note a = assms [unfolded client_Enroll_def]
  show ?thesis using doWithRetry_sends [OF pos a] doWithRetry_Inr [OF pos a] by blast
qed

text \<open>An enrolment either leaves the files alone or saves the key and the certificate it got.\<close>

lemma api_Enroll_cases:
  assumes "api_Enroll cy lib env url tok ca w = (r, w')"
  obtains (quiet) "fs_files (ew_fs w') = fs_files (ew_fs w)" and "fs_hist (ew_fs w') = fs_hist (ew_fs w)"
      and "\<And>resp. r \<noteq> Inr (Returns resp)"
    | (saved) k resp s1 q where "fs_files s1 = fs_files (ew_fs w)" and "fs_hist s1 = fs_hist (ew_fs w)"
      and "save_identity k (er_Certificate resp) s1 = (q, ew_fs w')"
      and "r = (case q of Inl e \<Rightarrow> Inl e | Inr _ \<Rightarrow> Inr (Returns resp))" and "valid_utf8 (er_NodeID resp)"
      and "generated_key cy k"
      and "\<exists>n req. 0 < n \<and> asks_for_key cy url tok req \<and>
             sent (aw_net (ew_api w')) = sent (aw_net (ew_api w)) @ replicate n req"
proof (cases "GenerateKeyAndCSR cy []")
  case (Inl e)
  then show ?thesis using assms quiet by (auto simp: api_Enroll_def io_bind_def)
next
  case (Inr pc)
  obtain priv csr where pc: "pc = (priv, csr)" by (cases pc)
  obtain cl s1 where c: "NewClientWithCA lib url ca (10 * Second) (60 * Second) (ew_fs w) = (cl, s1)"
    by (cases "NewClientWithCA lib url ca (10 * Second) (60 * Second) (ew_fs w)")
  note fr = NewClientWithCA_frame [OF c]
  note unf = assms [unfolded api_Enroll_def on_fs_def on_api_def]
  show ?thesis
  proof (cases cl)
    case e: (Inl e)
    then show ?thesis using unf Inr pc c fr quiet by (auto simp: io_bind_def io_wrap_def io_on_def)
  next
    case cl: (Inr client)
    let ?req = "\<lparr>eq_EnrollmentToken = tok, eq_CSR = csr, eq_NodeID = []\<rparr>"
    obtain a s2 where a: "client_Enroll env client (cl_baseURL client) ?req (ew_api w) = (a, s2)"
      by (cases "client_Enroll env client (cl_baseURL client) ?req (ew_api w)")
    show ?thesis
    proof (cases a)
      case e: (Inl e)
      then show ?thesis using unf Inr pc c cl a fr quiet by (auto simp: io_bind_def io_wrap_def io_on_def)
    next
      case resp: (Inr resp)
      show ?thesis
      proof (cases "mustMarshalPKCS8 cy priv")
        case (Panics m)
        then show ?thesis using unf Inr pc c cl a resp fr quiet by (auto simp: io_bind_def io_wrap_def io_on_def)
      next
        case (Returns der)
        let ?k = "pem_EncodeToMemory ''PRIVATE KEY'' der"
        obtain q s3 where q: "save_identity ?k (er_Certificate resp) s1 = (q, s3)"
          by (cases "save_identity ?k (er_Certificate resp) s1")
        have w': "ew_fs w' = s3" "ew_api w' = s2" "r = (case q of Inl e \<Rightarrow> Inl e | Inr _ \<Rightarrow> Inr (Returns resp))"
          using unf Inr pc c cl a resp Returns q
          by (auto simp: io_bind_def io_wrap_def io_on_def split: sum.splits)
        note gen = GenerateKeyAndCSR_Inr [OF Inr [unfolded pc]]
        have url: "cl_baseURL client = url" using c cl by (simp add: NewClientWithCA_url)
        have "generated_key cy ?k"
          using gen(1) Returns by (auto simp: generated_key_def mustMarshalPKCS8_def split: sum.splits)
        moreover have "\<exists>n req. 0 < n \<and> asks_for_key cy url tok req \<and>
            sent (aw_net (ew_api w')) = sent (aw_net (ew_api w)) @ replicate n req"
          using client_Enroll_sends [OF a [unfolded resp]] gen(2) [of url tok] unfolding w'(2) url by blast
        ultimately show ?thesis
          using saved [OF fr] q w' client_Enroll_valid [OF a [unfolded resp]] by blast
      qed
    qed
  qed
qed

lemma api_Enroll_files:
  assumes "api_Enroll cy lib env url tok ca w = (r, w')"
  shows "\<exists>h k c. fs_hist (ew_fs w') = fs_hist (ew_fs w) @ h \<and>
     list_all (paired (fs_files (ew_fs w)) k c) h \<and> (h = [] \<or> generated_key cy k) \<and>
     (case r of
        Inr (Returns resp) \<Rightarrow>
          generated_key cy k \<and>
          fs_files (ew_fs w') enroll_keyPath = Some (file_600 k) \<and>
          fs_files (ew_fs w') enroll_certPath = Some (file_600 (er_Certificate resp)) \<and>
          (\<exists>n req. 0 < n \<and> asks_for_key cy url tok req \<and>
             sent (aw_net (ew_api w')) = sent (aw_net (ew_api w)) @ replicate n req)
      | _ \<Rightarrow> fs_files (ew_fs w') enroll_certPath = fs_files (ew_fs w) enroll_certPath)"
  using assms
proof (cases rule: api_Enroll_cases)
  case quiet
  then show ?thesis by (intro exI [of _ "[]"]) (auto split: sum.split outcome.split)
next
  case (saved k resp s1 q)
  obtain h where h: "fs_hist (ew_fs w') = fs_hist s1 @ h"
      "list_all (paired (fs_files s1) k (er_Certificate resp)) h"
      "fs_files (ew_fs w') enroll_certPath =
         (if is_ok q then Some (file_600 (er_Certificate resp)) else fs_files s1 enroll_certPath)"
      "is_ok q \<longrightarrow> fs_files (ew_fs w') enroll_keyPath = Some (file_600 k)"
    using save_identity_paired [OF saved(3)] by blast
  then show ?thesis using saved(1,2,4,6,7)
    by (intro exI [of _ h] exI [of _ k] exI [of _ "er_Certificate resp"]) (cases q; simp)
qed

lemma api_Enroll_valid:
  assumes "api_Enroll cy lib env url tok ca w = (Inr (Returns resp), w')"
  shows "valid_utf8 (er_NodeID resp)"
  using assms
proof (cases rule: api_Enroll_cases)
  case (saved k resp' s1 q)
  then show ?thesis by (cases q) auto
qed blast

section \<open>Properties\<close>

text \<open>
  Property C13. However an enrolment ends and whatever call fails, the certificate on disk
  belongs to the key on disk or is the one from before: in every file system it passes
  through, \<open>cert.pem\<close> is unchanged, or it is a whole new certificate and \<open>key.pem\<close> is, whole and
  with permissions 0600, the PKCS8 encoding in PEM of the key that was generated. A failed
  enrolment leaves \<open>cert.pem\<close> as it was. A successful one leaves the certificate of the response
  beside that key, and every request it sent carries the token and a certificate request made
  with the same key.
\<close>

theorem Enroll_key_before_cert:
  assumes "api_Enroll cy lib env url tok ca w = (r, w')"
  shows "\<exists>h k c. fs_hist (ew_fs w') = fs_hist (ew_fs w) @ h \<and>
     list_all (paired (fs_files (ew_fs w)) k c) h \<and> (h = [] \<or> generated_key cy k) \<and>
     (case r of
        Inr (Returns resp) \<Rightarrow>
          generated_key cy k \<and>
          fs_files (ew_fs w') enroll_keyPath = Some (file_600 k) \<and>
          fs_files (ew_fs w') enroll_certPath = Some (file_600 (er_Certificate resp)) \<and>
          (\<exists>n req. 0 < n \<and> asks_for_key cy url tok req \<and>
             sent (aw_net (ew_api w')) = sent (aw_net (ew_api w)) @ replicate n req)
      | _ \<Rightarrow> fs_files (ew_fs w') enroll_certPath = fs_files (ew_fs w) enroll_certPath)"
  using assms by (rule api_Enroll_files)

section \<open>Witness\<close>

definition sample_crypto :: "unit crypto_lib" where
  "sample_crypto = \<lparr>cy_GenerateKey = Inr (), cy_CreateCertificateRequest = (\<lambda>t _. Inr (ct_CommonName t)),
     cy_MarshalPKCS8PrivateKey = (\<lambda>_. Inr ''der'')\<rparr>"

definition sample_tls :: "(unit, unit) tls_lib" where
  "sample_tls = \<lparr>tl_X509KeyPair = (\<lambda>_ _. Inr ()), tl_AppendCertsFromPEM = (\<lambda>d. if d = [] then None else Some ())\<rparr>"

definition quoted :: "string \<Rightarrow> string" where
  "quoted s = [CHR 0x22] @ s @ [CHR 0x22]"

definition enroll_env :: "((unit, unit) Client, unit) api_env" where
  "enroll_env = \<lparr>ae_Do = (\<lambda>_ _ d. (Inr \<lparr>StatusCode = 200,
        Body = ''{'' @ quoted ''node_id'' @ '':'' @ quoted ''n1'' @ '','' @ quoted ''certificate'' @ '':'' @ quoted ''CERT'' @ ''}'',
        BodyErr = None\<rparr>, d)),
     ae_Over = (\<lambda>_. None), ae_Wait = (\<lambda>_ d. (None, d)), ae_CheckURL = (\<lambda>_. None)\<rparr>"

definition enroll_start :: "unit enroll_world" where
  "enroll_start = \<lparr>ew_fs = \<lparr>fs_files = [''/ca.pem'' \<mapsto> \<lparr>fi_Data = ''CA'', fi_Perm = 420\<rparr>], fs_faults = [], fs_rand = [1], fs_hist = []\<rparr>,
     ew_api = \<lparr>aw_net = \<lparr>sent = [], peer = ()\<rparr>, aw_waits = []\<rparr>\<rparr>"

abbreviation sample_enrolment :: "(goerror + EnrollResponse outcome) \<times> unit enroll_world" where
  "sample_enrolment \<equiv> api_Enroll sample_crypto sample_tls enroll_env ''https://cp'' ''tok'' ''/ca.pem'' enroll_start"

theorem Enroll_key_before_cert_witness:
  "fs_files (ew_fs (snd sample_enrolment)) enroll_certPath = Some (file_600 ''CERT'') \<and>
   fs_files (ew_fs (snd sample_enrolment)) enroll_keyPath =
     Some (file_600 (pem_EncodeToMemory ''PRIVATE KEY'' ''der''))"
proof -
  let ?resp = "\<lparr>er_NodeID = ''n1'', er_Certificate = ''CERT'', er_CACert = []\<rparr>"
  have ok: "fst sample_enrolment = Inr (Returns ?resp)" by code_simp
  have "sample_enrolment = (fst sample_enrolment, snd sample_enrolment)" by simp
  from Enroll_key_before_cert [OF this] ok show ?thesis by (auto simp: generated_key_def sample_crypto_def)
qed

end
