(* ===== verification/State.thy ===== *)
theory State
  imports AtomicWrite GoJsonValid Paths
begin

text \<open>
  Package \<open>state\<close>: the agent's persistent state, a JSON file that is read at start and
  replaced as a whole by writing a temporary file and renaming it.

  The map \<open>LastKnownRevisions\<close> is an association list with each key once, \<open>None\<close> for
  the nil map. The unexported field \<open>path\<close> is not part of the JSON text.
\<close>

record AgentState =
  as_NodeID :: string
  as_CertPath :: string
  as_KeyPath :: string
  as_LastKnownRevisions :: "(string \<times> int) list option"
  as_path :: string

section \<open>Decoding and encoding\<close>

definition store_revisions :: "(string \<times> int) list option store" where
  "store_revisions v old =
     (case v of
        JNull \<Rightarrow> (None, None)
      | JObj ms \<Rightarrow>
          (let (m, e) = store_alist_members 0 store_int ms (case old of None \<Rightarrow> [] | Some m0 \<Rightarrow> m0)
           in (Some m, e))
      | _ \<Rightarrow> (old, type_error v ''map''))"

definition AgentState_fields :: "AgentState fields" where
  "AgentState_fields =
     [(''node_id'', in_field as_NodeID as_NodeID_update store_string),
      (''cert_path'', in_field as_CertPath as_CertPath_update store_string),
      (''key_path'', in_field as_KeyPath as_KeyPath_update store_string),
      (''last_known_revisions'',
         in_field as_LastKnownRevisions as_LastKnownRevisions_update store_revisions)]"

definition revisions_json :: "(string \<times> int) list option \<Rightarrow> json" where
  "revisions_json r =
     (case r of
        None \<Rightarrow> JNull
      | Some m \<Rightarrow> JObj (obj_of (map (\<lambda>(k, n). (k, JNum (itoa n))) m)))"

definition AgentState_json :: "AgentState \<Rightarrow> json" where
  "AgentState_json st =
     JObj [(''node_id'', JStr (as_NodeID st)), (''cert_path'', JStr (as_CertPath st)),
           (''key_path'', JStr (as_KeyPath st)),
           (''last_known_revisions'', revisions_json (as_LastKnownRevisions st))]"

section \<open>Operations\<close>

definition empty_state :: "string \<Rightarrow> AgentState" where
  "empty_state path =
     \<lparr>as_NodeID = [], as_CertPath = [], as_KeyPath = [], as_LastKnownRevisions = Some [], as_path = path\<rparr>"

definition decode_state :: "string \<Rightarrow> string \<Rightarrow> goerror + AgentState" where
  "decode_state path data =
     (case Unmarshal (store_struct ''state.AgentState'' AgentState_fields) (json_parse data) (empty_state path) of
        (st, Some e) \<Rightarrow> Inl (ErrWrap (''parse state file '' @ path @ '': '') e [])
      | (st, None) \<Rightarrow>
          Inr (st\<lparr>as_LastKnownRevisions :=
                     (case as_LastKnownRevisions st of None \<Rightarrow> Some [] | Some m \<Rightarrow> Some m),
                  as_path := path\<rparr>))"

definition LoadState :: "string \<Rightarrow> (fsys, AgentState) io" where
  "LoadState path =
     io_bind (io_try (os_ReadFile path)) (\<lambda>r.
       case r of
         Inl err \<Rightarrow>
           if errors_Is is_not_exist err then io_return (empty_state path)
           else io_fail (ErrWrap (''read state file '' @ path @ '': '') err [])
       | Inr data \<Rightarrow>
           (case decode_state path data of Inl e \<Rightarrow> io_fail e | Inr st \<Rightarrow> io_return st))"

definition state_temp_pre :: string where
  "state_temp_pre = ''.routestack-state-''"

text \<open>The temporary file is removed and the error of the step is returned.\<close>

definition drop_temp :: "string \<Rightarrow> string \<Rightarrow> goerror \<Rightarrow> (fsys, unit) io" where
  "drop_temp tmpPath msg err = io_bind (io_ignore (os_Remove tmpPath)) (\<lambda>_. io_fail (ErrWrap msg err []))"

definition Save :: "AgentState \<Rightarrow> (fsys, unit) io" where
  "Save st =
     (if as_path st = [] then
        io_fail (ErrNew (''state: no path set '' @ [CHR 0xE2, CHR 0x80, CHR 0x94] @ '' was LoadState called?''))
      else
        let data = MarshalIndent (AgentState_json st)
        in io_bind (io_wrap ''state: create temp: ''
               (os_CreateTemp (filepath_Dir (as_path st)) state_temp_pre ''.tmp'')) (\<lambda>tmpPath.
           io_bind (io_catch (file_Write tmpPath data) (\<lambda>err.
               io_bind (io_ignore file_Close) (\<lambda>_. drop_temp tmpPath ''state: write temp: '' err))) (\<lambda>_.
           io_bind (io_catch (file_Chmod tmpPath 384) (\<lambda>err.
               io_bind (io_ignore file_Close) (\<lambda>_. drop_temp tmpPath ''state: chmod temp: '' err))) (\<lambda>_.
           io_bind (io_catch file_Close (drop_temp tmpPath ''state: close temp: '')) (\<lambda>_.
           io_catch (os_Rename tmpPath (as_path st))
             (drop_temp tmpPath
               (''state: rename temp '' @ [CHR 0xE2, CHR 0x86, CHR 0x92] @ '' '' @ as_path st @ '': '')))))))"

definition path_exists :: "string \<Rightarrow> (fsys, bool) io" where
  "path_exists path = io_bind (io_try (os_Stat path)) (\<lambda>r. io_return (is_ok r))"

definition IsEnrolled :: "AgentState \<Rightarrow> (fsys, bool) io" where
  "IsEnrolled st =
     (if as_NodeID st = [] \<or> as_CertPath st = [] \<or> as_KeyPath st = [] then io_return False
      else io_bind (path_exists (as_CertPath st)) (\<lambda>c.
             if \<not> c then io_return False else path_exists (as_KeyPath st)))"

section \<open>Saving is atomic\<close>

lemma drop_temp_laws:
  "p \<noteq> path \<Longrightarrow> keeps path (drop_temp p msg e)"
  "always_fails (drop_temp p msg e)"
  unfolding drop_temp_def by (auto intro!: fs_laws always_fails_bind)

definition saved_file :: "AgentState \<Rightarrow> fileobj" where
  "saved_file st = \<lparr>fi_Data = MarshalIndent (AgentState_json st), fi_Perm = 384\<rparr>"

lemma Save_replaces:
  assumes "\<not> HasSuffix (as_path st) ''.tmp''"
  shows "replaces (\<lambda>_. True) (as_path st) (saved_file st) (Save st)"
proof (cases "as_path st = []")
  case True
  then show ?thesis by (simp add: Save_def replaces_def)
next
  case False
  show ?thesis
    unfolding Save_def saved_file_def Let_def if_not_P [OF False]
    by (rule replaces_staged)
       (auto intro!: fs_laws file_steps always_fails_bind drop_temp_laws replaces_catch replaces_Rename assms)
qed

text \<open>
  Saving states one after another to the default state file: an interpretation of
  \<open>atomic_writer\<close>.
\<close>

definition save_at :: "string \<Rightarrow> AgentState \<Rightarrow> (fsys, unit) io" where
  "save_at path st = Save (st\<lparr>as_path := path\<rparr>)"

lemma saved_file_path [simp]: "saved_file (st\<lparr>as_path := p\<rparr>) = saved_file st"
  by (simp add: saved_file_def AgentState_json_def)

lemma save_at_replaces:
  "\<not> HasSuffix path ''.tmp'' \<Longrightarrow> replaces (\<lambda>_. True) path (saved_file st) (save_at path st)"
  using Save_replaces [of "st\<lparr>as_path := path\<rparr>"] by (simp add: save_at_def)

interpretation state_file: atomic_writer StateFile saved_file "save_at StateFile"
  by unfold_locales (rule save_at_replaces, simp add: HasSuffix_def StateFile_def)

section \<open>Reading back what was saved\<close>

definition ok_state :: "AgentState \<Rightarrow> bool" where
  "ok_state st \<longleftrightarrow>
     valid_utf8 (as_NodeID st) \<and> valid_utf8 (as_CertPath st) \<and> valid_utf8 (as_KeyPath st) \<and>
     (case as_LastKnownRevisions st of
        None \<Rightarrow> True
      | Some m \<Rightarrow> distinct (map fst m) \<and>
          list_all (\<lambda>(k, n). valid_utf8 k \<and> - (2 ^ 63) \<le> n \<and> n < 2 ^ 63) m)"

definition revision :: "AgentState \<Rightarrow> string \<Rightarrow> int option" where
  "revision st k = (case as_LastKnownRevisions st of None \<Rightarrow> None | Some m \<Rightarrow> map_of m k)"

abbreviation num_members :: "(string \<times> int) list \<Rightarrow> (string \<times> json) list" where
  "num_members m \<equiv> map (\<lambda>(k, n). (k, JNum (itoa n))) m"

lemma obj_put_num:
  assumes "k \<notin> fst ` set m" and "distinct (map fst m)"
  shows "\<exists>m'. obj_put k (JNum (itoa n)) (num_members m) = num_members m' \<and>
           set m' = insert (k, n) (set m) \<and> distinct (map fst m')"
  using assms
proof (induction m)
  case Nil
  then show ?case by (intro exI [of _ "[(k, n)]"]) simp
next
  case (Cons x m)
  obtain k1 n1 where x: "x = (k1, n1)" by (cases x)
  obtain m' where m': "obj_put k (JNum (itoa n)) (num_members m) = num_members m'"
      "set m' = insert (k, n) (set m)" "distinct (map fst m')"
    using Cons by auto
  show ?case
  proof (cases "str_less k k1")
    case True
    then show ?thesis using Cons.prems x by (intro exI [of _ "(k, n) # x # m"]) auto
  next
    case False
    have "(k1, n1) # m' \<noteq> []" and "k1 \<notin> fst ` set m'" using m'(2) Cons.prems x by auto
    then show ?thesis using m' False Cons.prems x by (intro exI [of _ "(k1, n1) # m'"]) auto
  qed
qed

lemma obj_of_num:
  "distinct (map fst m) \<Longrightarrow>
     \<exists>m'. obj_of (num_members m) = num_members m' \<and> set m' = set m \<and> distinct (map fst m')"
proof (induction m)
  case (Cons x m)
  obtain k n where x: "x = (k, n)" by (cases x)
  obtain m' where m': "obj_of (num_members m) = num_members m'" "set m' = set m" "distinct (map fst m')"
    using Cons by auto
  then show ?case using obj_put_num [of k m' n] Cons.prems x by simp
qed simp

lemma alist_put_new: "k \<notin> fst ` set m \<Longrightarrow> alist_put k v m = m @ [(k, v)]"
  by (induction k v m rule: alist_put.induct) auto

lemma store_int_itoa [simp]:
  "- (2 ^ 63) \<le> n \<Longrightarrow> n < 2 ^ 63 \<Longrightarrow> store_int (JNum (itoa n)) old = (n, None)"
  using ParseInt64_itoa [of n] by (simp add: store_int_def)

lemma store_revisions_members:
  assumes "distinct (map fst (acc @ m))"
    and "list_all (\<lambda>(k, n). - (2 ^ 63) \<le> n \<and> n < 2 ^ 63) m"
  shows "store_alist_members 0 store_int (num_members m) acc = (acc @ m, None)"
  using assms
proof (induction m arbitrary: acc)
  case (Cons x m)
  obtain k n where x: "x = (k, n)" by (cases x)
  have "alist_put k n acc = acc @ [(k, n)]" using Cons.prems(1) x by (intro alist_put_new) auto
  then show ?case using Cons.IH [of "acc @ [(k, n)]"] Cons.prems x by simp
qed simp

lemma valid_utf8_lits:
  "valid_utf8 ''node_id''" "valid_utf8 ''cert_path''" "valid_utf8 ''key_path''"
  "valid_utf8 ''last_known_revisions''"
  by code_simp+

lemma ok_members_num:
  "list_all (\<lambda>(k, n). valid_utf8 k \<and> - (2 ^ 63) \<le> n \<and> n < 2 ^ 63) m \<Longrightarrow> ok_members (num_members m)"
  by (induction m) (auto simp: int_literal_def ParseInt64_itoa)

lemma AgentState_find_field:
  "find_field AgentState_fields ''node_id'' = Some (in_field as_NodeID as_NodeID_update store_string)"
  "find_field AgentState_fields ''cert_path'' = Some (in_field as_CertPath as_CertPath_update store_string)"
  "find_field AgentState_fields ''key_path'' = Some (in_field as_KeyPath as_KeyPath_update store_string)"
  "find_field AgentState_fields ''last_known_revisions'' =
     Some (in_field as_LastKnownRevisions as_LastKnownRevisions_update store_revisions)"
  by (simp_all add: find_field_def AgentState_fields_def)

lemma revisions_roundtrip:
  assumes "ok_state st"
  obtains m where "ok_json (revisions_json (as_LastKnownRevisions st))"
    and "case store_revisions (revisions_json (as_LastKnownRevisions st)) (Some []) of
           (r, e) \<Rightarrow> e = None \<and> (case r of None \<Rightarrow> [] | Some x \<Rightarrow> x) = m"
    and "map_of m = revision st"
proof (cases "as_LastKnownRevisions st")
  case None
  have "map_of [] = revision st" using None by (auto simp: revision_def)
  then show ?thesis using None that [of "[]"] by (simp add: revisions_json_def store_revisions_def)
next
  case (Some m0)
  let ?ok = "\<lambda>(k, n). valid_utf8 k \<and> - (2 ^ 63) \<le> n \<and> n < 2 ^ 63"
  have m0: "distinct (map fst m0)" "list_all ?ok m0" using assms Some by (simp_all add: ok_state_def)
  obtain m where m: "obj_of (num_members m0) = num_members m" "set m = set m0" "distinct (map fst m)"
    using obj_of_num [OF m0(1)] by blast
  have ok: "list_all ?ok m" using m0(2) m(2) by (simp add: list_all_iff)
  then have "list_all (\<lambda>(k, n). - (2 ^ 63) \<le> n \<and> n < 2 ^ 63) m" by (auto simp: list_all_iff)
  then have st: "store_alist_members 0 store_int (num_members m) [] = (m, None)"
    using store_revisions_members [of "[]" m] m(3) by simp
  have "map_of m = map_of m0" using m(2,3) m0(1) by (metis map_of_inject_set)
  then have "map_of m = revision st" using Some by (auto simp: revision_def)
  then show ?thesis using that [of m] Some m(1) st ok_members_num [OF ok]
    by (simp add: revisions_json_def store_revisions_def)
qed

text \<open>The text of a state is decoded to the same state.\<close>

lemma decode_saved:
  assumes "ok_state st"
  shows "\<exists>st'. decode_state path (MarshalIndent (AgentState_json st)) = Inr st' \<and>
           as_NodeID st' = as_NodeID st \<and> as_CertPath st' = as_CertPath st \<and>
           as_KeyPath st' = as_KeyPath st \<and> revision st' = revision st \<and> as_path st' = path"
proof -
  obtain m where m: "ok_json (revisions_json (as_LastKnownRevisions st))"
      "case store_revisions (revisions_json (as_LastKnownRevisions st)) (Some []) of
           (r, e) \<Rightarrow> e = None \<and> (case r of None \<Rightarrow> [] | Some x \<Rightarrow> x) = m"
      "map_of m = revision st"
    using assms by (rule revisions_roundtrip)
  obtain r where r: "store_revisions (revisions_json (as_LastKnownRevisions st)) (Some []) = (r, None)"
      "(case r of None \<Rightarrow> [] | Some x \<Rightarrow> x) = m"
    using m(2) by (auto split: prod.splits)
  have "json_parse (MarshalIndent (AgentState_json st)) = Some (AgentState_json st)"
    by (rule json_parse_MarshalIndent) (use assms m(1) in \<open>simp add: AgentState_json_def ok_state_def valid_utf8_lits\<close>)
  then show ?thesis using r m(3)
    by (cases r)
       (auto simp: decode_state_def AgentState_json_def store_struct_def AgentState_find_field in_field_def
          empty_state_def Let_def revision_def fun_eq_iff)
qed

section \<open>A decoded state is well formed\<close>

definition ok_revisions :: "(string \<times> int) list option \<Rightarrow> bool" where
  "ok_revisions r \<longleftrightarrow>
     (case r of
        None \<Rightarrow> True
      | Some m \<Rightarrow> distinct (map fst m) \<and>
          list_all (\<lambda>(k, n). valid_utf8 k \<and> - (2 ^ 63) \<le> n \<and> n < 2 ^ 63) m)"

lemma ok_state_alt:
  "ok_state st \<longleftrightarrow> valid_utf8 (as_NodeID st) \<and> valid_utf8 (as_CertPath st) \<and> valid_utf8 (as_KeyPath st) \<and>
     ok_revisions (as_LastKnownRevisions st)"
  by (simp add: ok_state_def ok_revisions_def)

lemma alist_put_keys: "fst ` set (alist_put k v m) = insert k (fst ` set m)"
  by (induction k v m rule: alist_put.induct) auto

lemma alist_put_ok:
  assumes "ok_revisions (Some m)" and "valid_utf8 k" and "- (2 ^ 63) \<le> n" and "n < 2 ^ 63"
  shows "ok_revisions (Some (alist_put k n m))"
  using assms
proof (induction k n m rule: alist_put.induct)
  case (2 k v k' v' ms)
  then show ?case using alist_put_keys [of k v ms] by (auto simp: ok_revisions_def)
qed (simp add: ok_revisions_def)

lemma store_int_range:
  "- (2 ^ 63) \<le> old \<Longrightarrow> old < 2 ^ 63 \<Longrightarrow>
     - (2 ^ 63) \<le> fst (store_int v old) \<and> fst (store_int v old) < 2 ^ 63"
  using ParseInt64_range by (cases v) (auto simp: store_int_def split: prod.splits option.splits)

lemma store_alist_ok:
  assumes "list_all (\<lambda>(k, v). valid_utf8 k \<and> valid_json v) ms" and "ok_revisions (Some m)"
  shows "ok_revisions (Some (fst (store_alist_members 0 store_int ms m)))"
  using assms
proof (induction ms arbitrary: m)
  case (Cons x ms)
  obtain k v where x: "x = (k, v)" by (cases x)
  have "ok_revisions (Some (alist_put k (fst (store_int v 0)) m))"
    by (rule alist_put_ok) (use Cons.prems x store_int_range [of 0 v] in simp_all)
  then show ?case using Cons.IH Cons.prems(1) x by (simp add: Let_def case_prod_beta)
qed simp

lemma store_revisions_ok: "valid_json v \<Longrightarrow> ok_revisions r \<Longrightarrow> ok_revisions (fst (store_revisions v r))"
proof (cases v)
  case (JObj ms)
  assume "valid_json v" "ok_revisions r"
  moreover have "ok_revisions (Some (case r of None \<Rightarrow> [] | Some m \<Rightarrow> m))" if "ok_revisions r"
    using that by (simp add: ok_revisions_def split: option.splits)
  ultimately show ?thesis using JObj store_alist_ok
    by (simp add: store_revisions_def Let_def case_prod_beta)
qed (simp_all add: store_revisions_def ok_revisions_def)

lemma decode_state_ok:
  assumes "decode_state path data = Inr st"
  shows "ok_state st"
proof -
  obtain v where v: "json_parse data = Some v" using assms by (auto simp: decode_state_def Unmarshal_def split: option.splits)
  let ?st = "fst (store_struct ''state.AgentState'' AgentState_fields v (empty_state path))"
  have "ok_state ?st"
  proof (rule store_struct_inv)
    show "valid_json v" by (rule json_parse_valid [OF v])
    show "ok_state (empty_state path)" by (simp add: ok_state_def empty_state_def valid_utf8.simps)
    fix f u r
    assume "f \<in> snd ` set AgentState_fields" "valid_json u" "ok_state r"
    then show "ok_state (fst (f u r))"
      using store_string_valid store_revisions_ok
      by (auto simp: AgentState_fields_def in_field_def ok_state_alt Let_def case_prod_beta)
  qed
  moreover have "st = ?st\<lparr>as_LastKnownRevisions :=
      (case as_LastKnownRevisions ?st of None \<Rightarrow> Some [] | Some m \<Rightarrow> Some m), as_path := path\<rparr>"
    using assms v by (auto simp: decode_state_def split: prod.splits option.splits)
  ultimately show ?thesis by (auto simp: ok_state_alt ok_revisions_def split: option.splits)
qed

section \<open>Saving and loading again\<close>

lemma Save_then_Load:
  assumes "ok_state st" and "\<not> HasSuffix (as_path st) ''.tmp''"
    and "Save st s = (Inr u, s')" and "fs_faults s' = []"
  shows "\<exists>st'. LoadState (as_path st) s' = (Inr st', s') \<and>
           as_NodeID st' = as_NodeID st \<and> as_CertPath st' = as_CertPath st \<and>
           as_KeyPath st' = as_KeyPath st \<and> revision st' = revision st \<and> as_path st' = as_path st"
proof -
  have "fs_files s' (as_path st) = Some (saved_file st)"
    using Save_replaces [OF assms(2)] assms(3) unfolding replaces_def by fastforce
  then have "os_ReadFile (as_path st) s' = (Inr (fi_Data (saved_file st)), s')"
    by (rule ReadFile_no_fault [OF assms(4)])
  then show ?thesis using decode_saved [OF assms(1), of "as_path st"]
    by (auto simp: LoadState_def io_bind_def io_try_def saved_file_def)
qed

text \<open>What loading and saving leave alone.\<close>

lemma LoadState_Inr:
  assumes "LoadState path s = (Inr st, s')"
  shows "ok_state st" and "as_path st = path" and "as_LastKnownRevisions st \<noteq> None"
    and "fs_files s' = fs_files s"
proof -
  obtain r where r: "os_ReadFile path s = (r, s')"
    using assms by (cases "os_ReadFile path s")
      (auto simp: LoadState_def io_bind_def io_try_def split: sum.splits if_splits)
  then show "fs_files s' = fs_files s" using ReadFile_frame(1) [of path s] by simp
  have "ok_state st \<and> as_path st = path \<and> as_LastKnownRevisions st \<noteq> None"
  proof (cases r)
    case (Inl e)
    then have "st = empty_state path"
      using assms r by (auto simp: LoadState_def io_bind_def io_try_def split: if_splits)
    then show ?thesis by (simp add: empty_state_def ok_state_def valid_utf8.simps)
  next
    case (Inr d)
    then have "decode_state path d = Inr st"
      using assms r by (auto simp: LoadState_def io_bind_def io_try_def split: sum.splits)
    then show ?thesis using decode_state_ok
      by (auto simp: decode_state_def split: prod.splits option.splits)
  qed
  then show "ok_state st" "as_path st = path" "as_LastKnownRevisions st \<noteq> None" by blast+
qed

lemma Save_keeps:
  assumes "as_path st \<noteq> other" and "\<not> HasSuffix other ''.tmp''"
  shows "keeps other (Save st)"
proof (cases "as_path st = []")
  case True
  then show ?thesis by (simp add: Save_def fs_laws)
next
  case False
  show ?thesis
    unfolding Save_def Let_def if_not_P [OF False]
  proof (rule keeps_bind_dep)
    fix s p s'
    assume "io_wrap ''state: create temp: '' (os_CreateTemp (filepath_Dir (as_path st)) state_temp_pre ''.tmp'') s
      = (Inr p, s')"
    then have "p \<noteq> other" using CreateTemp_Inr(1) assms(2) unfolding io_wrap_Inr by blast
    then show "keeps other
      (io_bind (io_catch (file_Write p (MarshalIndent (AgentState_json st))) (\<lambda>err.
         io_bind (io_ignore file_Close) (\<lambda>_. drop_temp p ''state: write temp: '' err))) (\<lambda>_.
       io_bind (io_catch (file_Chmod p 384) (\<lambda>err.
         io_bind (io_ignore file_Close) (\<lambda>_. drop_temp p ''state: chmod temp: '' err))) (\<lambda>_.
       io_bind (io_catch file_Close (drop_temp p ''state: close temp: '')) (\<lambda>_.
       io_catch (os_Rename p (as_path st))
         (drop_temp p (''state: rename temp '' @ [CHR 0xE2, CHR 0x86, CHR 0x92] @ '' '' @ as_path st @ '': ''))))))"
      using assms(1) by (intro fs_laws drop_temp_laws) auto
  qed (intro fs_laws assms)
qed

section \<open>Properties\<close>

text \<open>
  Property C5. Whatever calls on the file system fail, and however often states are saved to
  the default state file, the file as any other process (or the agent after a crash) can find
  it is the file that was there before or the whole text of one of the saved states with
  permissions 0600; it is never partial. Afterwards it holds the last state whose \<open>Save\<close>
  reported success.
\<close>

theorem state_file_never_partial:
  assumes "io_each (save_at StateFile) sts s = (rs, s')"
  shows "(\<exists>h. fs_hist s' = fs_hist s @ h \<and>
           list_all (\<lambda>f. f StateFile = fs_files s StateFile \<or> f StateFile \<in> (Some \<circ> saved_file) ` set sts) h) \<and>
         fs_files s' StateFile = last_ok (fs_files s StateFile) (map (Some \<circ> saved_file) sts) rs"
  using state_file.never_partial [OF assms] state_file.last_write_wins [OF assms] by simp

text \<open>
  Property C12. A saved state is loaded back: when \<open>Save\<close> succeeds and the file can be read,
  \<open>LoadState\<close> returns the same node id, paths and known revisions, for every state whose
  strings are valid UTF-8.
\<close>

theorem Save_LoadState:
  assumes "ok_state st" and "\<not> HasSuffix (as_path st) ''.tmp''"
    and "Save st s = (Inr u, s')" and "fs_faults s' = []"
  shows "\<exists>st'. LoadState (as_path st) s' = (Inr st', s') \<and>
           as_NodeID st' = as_NodeID st \<and> as_CertPath st' = as_CertPath st \<and>
           as_KeyPath st' = as_KeyPath st \<and> revision st' = revision st \<and> as_path st' = as_path st"
  using assms by (rule Save_then_Load)

text \<open>
  Property C28. With a file system that fails no call and a temporary name that is free,
  \<open>Save\<close> succeeds; it changes the state file and nothing else, and leaves no temporary file.
\<close>

theorem Save_succeeds:
  assumes "as_path st \<noteq> []" and "\<not> HasSuffix (as_path st) ''.tmp''" and "fs_faults s = []"
    and "find (\<lambda>r. fs_files s (temp_name (filepath_Dir (as_path st)) state_temp_pre ''.tmp'' r) = None)
           (fs_rand s) = Some r"
  shows "\<exists>s'. Save st s = (Inr (), s') \<and>
           fs_files s' = (fs_files s)(as_path st \<mapsto> saved_file st)"
proof -
  let ?p = "temp_name (filepath_Dir (as_path st)) state_temp_pre ''.tmp'' r"
  have free: "fs_files s ?p = None" using assms(4) by (auto simp: find_Some_iff)
  have ne: "?p \<noteq> as_path st" 
    using temp_name_suffix [of "filepath_Dir (as_path st)" state_temp_pre "''.tmp''" r] assms(2) by auto
  define s1 where "s1 = set_files ((fs_files s)(?p \<mapsto> \<lparr>fi_Data = [], fi_Perm = 384\<rparr>)) s"
  have s1: "fs_faults s1 = []" "fs_files s1 = (fs_files s)(?p \<mapsto> \<lparr>fi_Data = [], fi_Perm = 384\<rparr>)"
    using assms(3) by (simp_all add: s1_def no_fault)
  have c: "os_CreateTemp (filepath_Dir (as_path st)) state_temp_pre ''.tmp'' s = (Inr ?p, s1)"
    unfolding s1_def by (rule CreateTemp_no_fault [OF assms(3,4)])
  have "\<exists>s'. Save st s = (Inr (), s') \<and> fs_files s' = (fs_files s1)(?p := None, as_path st \<mapsto> saved_file st)"
    unfolding Save_def saved_file_def Let_def if_not_P [OF assms(1)]
    by (subst (1) io_bind_def, subst io_wrap_def, simp only: c prod.case sum.case map_error_simps)
       (rule staged_no_fault [OF ne s1(1)], simp add: s1(2))
  then show ?thesis using s1(2) free by (simp add: fun_upd_idem)
qed

text \<open>
  Property C27. Loading never changes a file. A missing file gives the empty state backed by
  the path. Every state that is loaded is well formed, whatever the file holds: its strings
  and keys are valid UTF-8, no key comes twice, the revisions fit 64 bits, and the map of
  revisions is not nil; so it can be saved and loaded again without loss.
\<close>

theorem LoadState_total:
  assumes "fs_faults s = []"
  shows "fs_files (snd (LoadState path s)) = fs_files s \<and>
     (fs_files s path = None \<longrightarrow> LoadState path s = (Inr (empty_state path), s)) \<and>
     (\<forall>st. fst (LoadState path s) = Inr st \<longrightarrow>
        ok_state st \<and> as_path st = path \<and> as_LastKnownRevisions st \<noteq> None)"
proof (intro conjI impI allI)
  have "snd (LoadState path s) = snd (os_ReadFile path s)"
    by (cases "os_ReadFile path s")
       (auto simp: LoadState_def io_bind_def io_try_def split: sum.splits)
  then show "fs_files (snd (LoadState path s)) = fs_files s" by (simp add: ReadFile_frame)
next
  assume "fs_files s path = None"
  then show "LoadState path s = (Inr (empty_state path), s)" using assms
    by (simp add: LoadState_def io_bind_def io_try_def os_ReadFile_def next_fault_def errors_Is_def no_such_file_def)
next
  fix st
  assume "fst (LoadState path s) = Inr st"
  then have "LoadState path s = (Inr st, snd (LoadState path s))" by (metis prod.collapse)
  note l = LoadState_Inr [OF this]
  show "ok_state st" "as_path st = path" "as_LastKnownRevisions st \<noteq> None" using l(1-3) by simp_all
qed

text \<open>
  Property C29. The agent counts as enrolled exactly when the state names a node, a
  certificate and a key, and both files are there.
\<close>

theorem IsEnrolled_iff:
  assumes "fs_faults s = []"
  shows "fst (IsEnrolled st s) = Inr True \<longleftrightarrow>
     as_NodeID st \<noteq> [] \<and> as_CertPath st \<noteq> [] \<and> as_KeyPath st \<noteq> [] \<and>
     fs_files s (as_CertPath st) \<noteq> None \<and> fs_files s (as_KeyPath st) \<noteq> None"
  using assms
  by (simp add: IsEnrolled_def path_exists_def io_bind_def io_try_def os_Stat_def next_fault_def
      split: option.splits)

section \<open>Witnesses\<close>

definition sample_state :: AgentState where
  "sample_state = \<lparr>as_NodeID = ''n1'', as_CertPath = ''/c'', as_KeyPath = ''/k'',
     as_LastKnownRevisions = Some [(''svc-b'', 2), (''svc-a'', 7)], as_path = StateFile\<rparr>"

definition sample_fs :: fsys where
  "sample_fs = \<lparr>fs_files = [''/k'' \<mapsto> \<lparr>fi_Data = ''key'', fi_Perm = 384\<rparr>, ''/c'' \<mapsto> \<lparr>fi_Data = ''crt'', fi_Perm = 384\<rparr>],
     fs_faults = [], fs_rand = [7], fs_hist = []\<rparr>"

lemma sample_state_ok: "ok_state sample_state" "\<not> HasSuffix (as_path sample_state) ''.tmp''" "as_path sample_state \<noteq> []"
  by code_simp+

lemma sample_save: "fst (Save sample_state sample_fs) = Inr ()" "fs_faults (snd (Save sample_state sample_fs)) = []"
  by code_simp+

theorem state_file_never_partial_witness:
  "fs_files (snd (io_each (save_at StateFile) [sample_state] (sample_fs\<lparr>fs_faults := [None, Some (ErrNew ''disk full'', 3)]\<rparr>))) StateFile = None
   \<and> map is_ok (fst (io_each (save_at StateFile) [sample_state] (sample_fs\<lparr>fs_faults := [None, Some (ErrNew ''disk full'', 3)]\<rparr>))) = [False]"
proof -
  let ?s = "sample_fs\<lparr>fs_faults := [None, Some (ErrNew ''disk full'', 3)]\<rparr>"
  let ?e = "io_each (save_at StateFile) [sample_state] ?s"
  have ok: "map is_ok (fst ?e) = [False]" by code_simp
  have none: "fs_files ?s StateFile = None" by code_simp
  have "fs_files (snd ?e) StateFile = last_ok (fs_files ?s StateFile) (map (Some \<circ> saved_file) [sample_state]) (fst ?e)"
    using state_file_never_partial [of "[sample_state]" ?s "fst ?e" "snd ?e"] by simp
  moreover obtain r where "fst ?e = [r]" "\<not> is_ok r" using ok by auto
  ultimately show ?thesis using ok none by simp
qed

theorem Save_LoadState_witness:
  "\<exists>st'. fst (LoadState StateFile (snd (Save sample_state sample_fs))) = Inr st' \<and> revision st' ''svc-a'' = Some 7"
proof -
  have "Save sample_state sample_fs = (Inr (), snd (Save sample_state sample_fs))"
    using sample_save(1) by (metis prod.collapse)
  from Save_LoadState [OF sample_state_ok(1,2) this sample_save(2)]
  obtain st' where st': "fst (LoadState (as_path sample_state) (snd (Save sample_state sample_fs))) = Inr st'"
      "revision st' = revision sample_state" by auto
  moreover have "revision sample_state ''svc-a'' = Some 7" "as_path sample_state = StateFile"
    by (simp_all add: sample_state_def revision_def)
  ultimately show ?thesis by auto
qed

theorem Save_succeeds_witness:
  "\<exists>s'. Save sample_state sample_fs = (Inr (), s') \<and> fs_files s' StateFile = Some (saved_file sample_state)"
proof -
  have "find (\<lambda>r. fs_files sample_fs (temp_name (filepath_Dir (as_path sample_state)) state_temp_pre ''.tmp'' r) = None)
      (fs_rand sample_fs) = Some 7" by code_simp
  moreover have "fs_faults sample_fs = []" by (simp add: sample_fs_def)
  ultimately show ?thesis using Save_succeeds [OF sample_state_ok(3,2)] by (fastforce simp: sample_state_def)
qed

theorem LoadState_total_witness:
  "fst (LoadState StateFile sample_fs) = Inr (empty_state StateFile)"
  using LoadState_total [of sample_fs StateFile] by (simp add: sample_fs_def StateFile_def)

theorem IsEnrolled_iff_witness:
  "fst (IsEnrolled sample_state sample_fs) = Inr True"
  using IsEnrolled_iff [of sample_fs sample_state] by (simp add: sample_fs_def sample_state_def)

end
