(* ===== verification/CommandLine.thy ===== *)
theory CommandLine
  imports Handlers Agent Enroll State
begin

text \<open>
  The program (\<open>cmd/routestack-agent/main.go\<close>): its command line, the wiring of the
  components for \<open>run\<close>, and \<open>enroll\<close>.

  \<open>world\<close> puts together what the components act on: the files, the connection to the control
  plane, the Docker daemon and the host. \<open>platform\<close> collects what is not the agent's own code.
  A command is an effect on the world; an error stands for the logged error and exit status 1.
\<close>

record ('d, 'k, 'h) world =
  wd_fs :: fsys
  wd_api :: "'d api_world"
  wd_docker :: "'k net"
  wd_host :: "'h host"

record ('cert, 'pool, 'priv, 'd, 'k, 'h, 'f) platform =
  pf_yaml :: "string \<Rightarrow> goerror + Config"
  pf_tls :: "('cert, 'pool) tls_lib"
  pf_crypto :: "'priv crypto_lib"
  pf_api :: "int option \<Rightarrow> (('cert, 'pool) Client, 'd) api_env"
  pf_context :: "'k context_of"
  pf_docker :: "'k server"
  pf_exec :: "'h os_exec"
  pf_range_map :: map_order
  pf_dial :: "string \<Rightarrow> int \<Rightarrow> 'h \<Rightarrow> bool \<times> 'h"
  pf_time_text :: "'h \<Rightarrow> string"
  pf_done :: "'h \<Rightarrow> bool \<times> 'h"
  pf_pause :: "int \<Rightarrow> 'h \<Rightarrow> bool \<times> 'h"
  pf_now :: "'h \<Rightarrow> int"
  pf_hb :: "'f hb_env"

section \<open>Command line\<close>

datatype flag_result = Parsed "string \<rightharpoonup> string" | FlagHelp | FlagError

text \<open>\<open>flag.FlagSet.Parse\<close> for flags that take a string.\<close>

definition split_flag :: "string \<Rightarrow> string \<times> string option" where
  "split_flag name =
     (let k = takeWhile (\<lambda>c. c \<noteq> CHR ''='') name
      in if k = name then (name, None) else (k, Some (drop (length k + 1) name)))"

fun parse_flags :: "string list \<Rightarrow> string list \<Rightarrow> (string \<rightharpoonup> string) \<Rightarrow> flag_result" where
  "parse_flags known [] m = Parsed m"
| "parse_flags known (s # args) m =
     (if length s < 2 \<or> hd s \<noteq> CHR ''-'' then Parsed m
      else if s = ''--'' then Parsed m
      else
        let name = (if HasPrefix s ''--'' then drop 2 s else drop 1 s)
        in if hd name = CHR ''-'' \<or> hd name = CHR ''='' then FlagError
           else
             (case split_flag name of
                (k, v) \<Rightarrow>
                  if k \<notin> set known then (if k = ''help'' \<or> k = ''h'' then FlagHelp else FlagError)
                  else
                    (case v of
                       Some x \<Rightarrow> parse_flags known args (m(k \<mapsto> x))
                     | None \<Rightarrow>
                         (case args of
                            [] \<Rightarrow> FlagError
                          | x # args' \<Rightarrow> parse_flags known args' (m(k \<mapsto> x))))))"

datatype command =
    CmdRun string                \<comment> \<open>path of the configuration\<close>
  | CmdEnroll string string string  \<comment> \<open>token, URL of the controller, path of the configuration\<close>
  | CmdVersion
  | CmdExit int

definition defaultConfigPath :: "string \<Rightarrow> string" where
  "defaultConfigPath ROUTESTACK_CONFIG =
     (if ROUTESTACK_CONFIG \<noteq> [] then ROUTESTACK_CONFIG else AgentConfigDir @ ''/config.yaml'')"

definition flag_value :: "(string \<rightharpoonup> string) \<Rightarrow> string \<Rightarrow> string \<Rightarrow> string" where
  "flag_value m k d = (case m k of None \<Rightarrow> d | Some v \<Rightarrow> v)"

definition parse_command :: "string \<Rightarrow> string list \<Rightarrow> command" where
  "parse_command ROUTESTACK_CONFIG args =
     (case args of
        [] \<Rightarrow> CmdExit 1
      | cmd # rest \<Rightarrow>
          if cmd = ''run'' then
            (case parse_flags [''config''] rest Map.empty of
               FlagHelp \<Rightarrow> CmdExit 0
             | FlagError \<Rightarrow> CmdExit 2
             | Parsed m \<Rightarrow> CmdRun (flag_value m ''config'' (defaultConfigPath ROUTESTACK_CONFIG)))
          else if cmd = ''enroll'' then
            (case parse_flags [''token'', ''controller'', ''config''] rest Map.empty of
               FlagHelp \<Rightarrow> CmdExit 0
             | FlagError \<Rightarrow> CmdExit 2
             | Parsed m \<Rightarrow>
                 if flag_value m ''token'' [] = [] \<or> flag_value m ''controller'' [] = [] then CmdExit 1
                 else CmdEnroll (flag_value m ''token'' []) (flag_value m ''controller'' [])
                        (flag_value m ''config'' (defaultConfigPath ROUTESTACK_CONFIG)))
          else if cmd = ''version'' then CmdVersion
          else CmdExit 1)"

section \<open>Wiring\<close>

definition at_fs :: "(fsys, 'a) io \<Rightarrow> (('d, 'k, 'h) world, 'a) io" where
  "at_fs m = io_on wd_fs wd_fs_update m"

definition at_api :: "('d api_world, 'a) io \<Rightarrow> (('d, 'k, 'h) world, 'a) io" where
  "at_api m = io_on wd_api wd_api_update m"

definition at_docker :: "('k net, 'a) io \<Rightarrow> (('d, 'k, 'h) world, 'a) io" where
  "at_docker m = io_on wd_docker wd_docker_update m"

definition at_host :: "('h host, 'a) io \<Rightarrow> (('d, 'k, 'h) world, 'a) io" where
  "at_host m = io_on wd_host wd_host_update m"

definition at_machine :: "('h \<Rightarrow> 'b \<times> 'h) \<Rightarrow> ('d, 'k, 'h) world \<Rightarrow> 'b \<times> ('d, 'k, 'h) world" where
  "at_machine f w =
     (case f (machine (wd_host w)) of (b, h) \<Rightarrow> (b, w\<lparr>wd_host := (wd_host w)\<lparr>machine := h\<rparr>\<rparr>))"

definition main_HealthManager ::
  "('cert, 'pool, 'priv, 'd, 'k, 'h, 'f) platform \<Rightarrow> 'k docker_client \<Rightarrow> ('d, 'k, 'h) world HealthManager" where
  "main_HealthManager pf c =
     \<lparr>hm_Inspect = (\<lambda>i. at_docker (Inspect c i)),
      hm_dial = (\<lambda>addr timeout. at_machine (pf_dial pf addr timeout)),
      hm_now = (\<lambda>w. pf_time_text pf (machine (wd_host w)))\<rparr>"

fun register_all :: "'w Executor \<Rightarrow> (string \<times> 'w Handler) list \<Rightarrow> 'w Executor outcome" where
  "register_all e [] = Returns e"
| "register_all e ((t, h) # hs) =
     (case Register e t h of Panics m \<Rightarrow> Panics m | Returns e' \<Rightarrow> register_all e' hs)"

definition docker_handlers ::
  "('cert, 'pool, 'priv, 'd, 'k, 'h, 'f) platform \<Rightarrow> 'k docker_client \<Rightarrow> (string \<times> ('d, 'k, 'h) world Handler) list" where
  "docker_handlers pf c =
     [(OpStartService, \<lambda>op. at_docker (NewDockerStartHandler c op)),
      (OpStopService, \<lambda>op. at_docker (NewDockerStopHandler c op)),
      (OpRestartService, \<lambda>op. at_docker (NewDockerRestartHandler c op)),
      (OpInstallComponent, \<lambda>op. at_docker (NewInstallComponentHandler (docker_ImageClient c) op)),
      (OpApplyServiceRevision,
         \<lambda>op. at_docker (NewApplyServiceRevisionHandler (docker_ContainerClient c) (pf_range_map pf) op)),
      (OpCollectStatus, \<lambda>op. at_docker (NewCollectStatusHandler (docker_ContainerClient c) op)),
      (OpCollectLogs, \<lambda>op. at_docker (NewCollectLogsHandler (docker_ContainerClient c) op)),
      (OpCreateTunnel, \<lambda>op. at_docker (NewCreateTunnelHandler (docker_ContainerExec c) op)),
      (OpRemoveTunnel, \<lambda>op. at_docker (NewRemoveTunnelHandler (docker_ContainerExec c) op)),
      (OpRunHealthCheck, NewRunHealthCheckHandler (main_HealthManager pf c))]"

definition registerDockerHandlers ::
  "('cert, 'pool, 'priv, 'd, 'k, 'h, 'f) platform \<Rightarrow> ('d, 'k, 'h) world Executor \<Rightarrow> 'k docker_client \<Rightarrow>
    ('d, 'k, 'h) world Executor outcome" where
  "registerDockerHandlers pf e c = register_all e (docker_handlers pf c)"

definition core_handlers ::
  "('cert, 'pool, 'priv, 'd, 'k, 'h, 'f) platform \<Rightarrow> (string \<times> ('d, 'k, 'h) world Handler) list" where
  "core_handlers pf =
     [(OpApplyFirewallRevision, \<lambda>op. at_host (NewApplyFirewallRevisionHandler (execRunner (pf_exec pf)) op)),
      (OpManageCertificate, \<lambda>op. at_host (NewManageCertificateHandler (certs_NewManager (pf_exec pf)) op))]"

definition registerCoreHandlers ::
  "('cert, 'pool, 'priv, 'd, 'k, 'h, 'f) platform \<Rightarrow> ('d, 'k, 'h) world Executor \<Rightarrow>
    ('d, 'k, 'h) world Executor outcome" where
  "registerCoreHandlers pf e = register_all e (core_handlers pf)"

text \<open>\<open>docker.NewClient\<close> never fails, so the Docker handlers are always registered.\<close>

definition wire_executor ::
  "('cert, 'pool, 'priv, 'd, 'k, 'h, 'f) platform \<Rightarrow> ('d, 'k, 'h) world Executor outcome" where
  "wire_executor pf =
     (case registerDockerHandlers pf NewExecutor (docker_NewClient (pf_context pf) (pf_docker pf)) of
        Panics m \<Rightarrow> Panics m
      | Returns e \<Rightarrow> registerCoreHandlers pf e)"

definition main_api ::
  "('cert, 'pool, 'priv, 'd, 'k, 'h, 'f) platform \<Rightarrow> ('cert, 'pool) Client \<Rightarrow> (('d, 'k, 'h) world, 'f) APIClient" where
  "main_api pf c =
     \<lparr>ap_Heartbeat = (\<lambda>req. at_api (client_Heartbeat (pf_api pf None) c (cl_baseURL c)
         (HeartbeatRequest_json (he_floats (pf_hb pf)) req))),
      ap_ClaimOperation = (\<lambda>t req. at_api (client_ClaimOperation (pf_api pf (Some t)) c (cl_baseURL c) req)),
      ap_CompleteOperation = (\<lambda>t opID req.
         at_api (client_CompleteOperation (pf_api pf (Some t)) c (cl_baseURL c) opID req))\<rparr>"

text \<open>The type \<open>stateAdapter\<close>.\<close>

definition stateAdapter :: "AgentState \<Rightarrow> ('d, 'k, 'h) world StateStore" where
  "stateAdapter st =
     \<lparr>sto_IsEnrolled = at_fs (IsEnrolled st), sto_NodeID = as_NodeID st, sto_Save = at_fs (Save st)\<rparr>"

definition main_runtime ::
  "('cert, 'pool, 'priv, 'd, 'k, 'h, 'f) platform \<Rightarrow> (('d, 'k, 'h) world, 'f) runtime" where
  "main_runtime pf =
     \<lparr>rt_done = at_machine (pf_done pf), rt_pause = (\<lambda>d. at_machine (pf_pause pf d)),
      rt_now = (\<lambda>w. pf_now pf (machine (wd_host w))),
      rt_fs = wd_fs, rt_put_fs = wd_fs_update, rt_host = pf_hb pf\<rparr>"

section \<open>Commands\<close>

definition seconds :: "int \<Rightarrow> int" where
  "seconds n = wrap64 (n * Second)"

text \<open>
  \<open>cmdRun\<close> up to \<open>a.Run\<close>: the agent and the executor it runs with. A panic while the handlers
  are registered would end the process; \<open>wire_executor\<close> never panics.
\<close>

definition cmdRun ::
  "('cert, 'pool, 'priv, 'd, 'k, 'h, 'f) platform \<Rightarrow> string \<Rightarrow> string \<Rightarrow>
    (('d, 'k, 'h) world, (('d, 'k, 'h) world, 'f) Agent \<times> ('d, 'k, 'h) world Executor outcome) io" where
  "cmdRun pf version configPath =
     io_bind (io_wrap ''failed to load config: '' (at_fs (LoadConfig (pf_yaml pf) configPath))) (\<lambda>cfg.
     io_bind (io_wrap ''failed to load state: '' (at_fs (LoadState (pc_StateFile (cfg_Paths cfg))))) (\<lambda>st.
     io_bind (at_fs (IsEnrolled st)) (\<lambda>enrolled.
       if \<not> enrolled then io_fail (ErrNew ''agent not enrolled'')
       else
         io_bind (io_wrap ''failed to create API client: '' (at_fs (NewClient (pf_tls pf)
           (cc_URL (cfg_Controller cfg)) (as_CertPath st) (as_KeyPath st) (cc_CACertPath (cfg_Controller cfg))
           (seconds (cc_ConnectTimeoutSec (cfg_Controller cfg)))
           (seconds (cc_RequestTimeoutSec (cfg_Controller cfg)))))) (\<lambda>apiClient.
         io_return (NewAgent cfg (stateAdapter st) (main_api pf apiClient) version, wire_executor pf)))))"

definition at_enroll :: "('d enroll_world, 'a) io \<Rightarrow> (('d, 'k, 'h) world, 'a) io" where
  "at_enroll m w =
     (case m \<lparr>ew_fs = wd_fs w, ew_api = wd_api w\<rparr> of
        (r, v) \<Rightarrow> (r, w\<lparr>wd_fs := ew_fs v, wd_api := ew_api v\<rparr>))"

text \<open>The state after an enrolment.\<close>

definition enrolled_state :: "AgentState \<Rightarrow> EnrollResponse \<Rightarrow> AgentState" where
  "enrolled_state st resp =
     st\<lparr>as_NodeID := er_NodeID resp, as_CertPath := DefaultCertPath, as_KeyPath := DefaultKeyPath\<rparr>"

text \<open>The part of \<open>cmdEnroll\<close> after \<open>api.Enroll\<close> returned or panicked.\<close>

definition record_enrolment ::
  "Config \<Rightarrow> EnrollResponse outcome \<Rightarrow> (('d, 'k, 'h) world, string outcome) io" where
  "record_enrolment cfg r =
     (case r of
        Panics m \<Rightarrow> io_return (Panics m)
      | Returns resp \<Rightarrow>
          io_bind (io_wrap ''failed to load state after enrollment: ''
            (at_fs (LoadState (pc_StateFile (cfg_Paths cfg))))) (\<lambda>st.
          io_bind (io_wrap ''failed to save state: '' (at_fs (Save (enrolled_state st resp)))) (\<lambda>_.
          io_return (Returns (''Enrolled as node '' @ er_NodeID resp @ [CHR 0x0A])))))"

definition enroll_ca_path :: "Config \<Rightarrow> string" where
  "enroll_ca_path cfg =
     (if cc_CACertPath (cfg_Controller cfg) = [] then AgentConfigDir @ ''/ca.pem''
      else cc_CACertPath (cfg_Controller cfg))"

definition cmdEnroll ::
  "('cert, 'pool, 'priv, 'd, 'k, 'h, 'f) platform \<Rightarrow> string \<Rightarrow> string \<Rightarrow> string \<Rightarrow>
    (('d, 'k, 'h) world, string outcome) io" where
  "cmdEnroll pf token controllerURL configPath =
     io_bind (io_wrap ''failed to load config: '' (at_fs (LoadConfig (pf_yaml pf) configPath))) (\<lambda>cfg.
     io_bind (io_wrap ''CA certificate not found: '' (at_fs (os_Stat (enroll_ca_path cfg)))) (\<lambda>_.
     io_bind (io_wrap ''enrollment failed: '' (at_enroll
       (api_Enroll (pf_crypto pf) (pf_tls pf) (pf_api pf (Some (120 * Second))) controllerURL token
          (enroll_ca_path cfg)))) (record_enrolment cfg)))"

section \<open>The registered handlers\<close>

lemmas op_names = OpInstallComponent_def OpApplyServiceRevision_def OpStartService_def OpStopService_def
  OpRestartService_def OpApplyFirewallRevision_def OpCreateTunnel_def OpRemoveTunnel_def
  OpCollectStatus_def OpCollectLogs_def OpRunHealthCheck_def OpManageCertificate_def

definition all_operations :: "string list" where
  "all_operations =
     [OpInstallComponent, OpApplyServiceRevision, OpStartService, OpStopService, OpRestartService,
      OpApplyFirewallRevision, OpCreateTunnel, OpRemoveTunnel, OpCollectStatus, OpCollectLogs,
      OpRunHealthCheck, OpManageCertificate]"

definition main_handlers ::
  "('cert, 'pool, 'priv, 'd, 'k, 'h, 'f) platform \<Rightarrow> (string \<times> ('d, 'k, 'h) world Handler) list" where
  "main_handlers pf = docker_handlers pf (docker_NewClient (pf_context pf) (pf_docker pf)) @ core_handlers pf"

definition main_executor ::
  "('cert, 'pool, 'priv, 'd, 'k, 'h, 'f) platform \<Rightarrow> ('d, 'k, 'h) world Executor" where
  "main_executor pf = NewExecutor\<lparr>exr_handlers := map_of (main_handlers pf)\<rparr>"

lemma register_all_distinct:
  assumes "distinct (map fst hs)" and "\<And>t. t \<in> fst ` set hs \<Longrightarrow> exr_handlers e t = None"
  shows "register_all e hs = Returns (e\<lparr>exr_handlers := exr_handlers e ++ map_of hs\<rparr>)"
  using assms
proof (induction hs arbitrary: e)
  case (Cons x hs)
  obtain t h where x: "x = (t, h)" by (cases x)
  let ?e = "e\<lparr>exr_handlers := (exr_handlers e)(t \<mapsto> h)\<rparr>"
  have ih: "register_all ?e hs = Returns (?e\<lparr>exr_handlers := exr_handlers ?e ++ map_of hs\<rparr>)"
    by (rule Cons.IH) (use Cons.prems x in auto)
  have "map_of hs t = None" using Cons.prems(1) x by (simp add: map_of_eq_None_iff)
  then have eq: "exr_handlers ?e ++ map_of hs = exr_handlers e ++ map_of (x # hs)"
    using x by (auto simp: map_add_def fun_eq_iff split: option.split)
  have reg: "register_all e (x # hs) = register_all ?e hs"
    using Cons.prems(2) [of t] x by (simp add: Register_def)
  show ?case unfolding reg ih eq by (simp del: map_of.simps)
qed simp

lemma handler_names:
  "map fst (docker_handlers pf c) =
     [OpStartService, OpStopService, OpRestartService, OpInstallComponent, OpApplyServiceRevision, OpCollectStatus,
      OpCollectLogs, OpCreateTunnel, OpRemoveTunnel, OpRunHealthCheck]"
  "map fst (core_handlers pf) = [OpApplyFirewallRevision, OpManageCertificate]"
  by (simp_all add: docker_handlers_def core_handlers_def)

lemma main_handler_names: "distinct (map fst (main_handlers pf))" "fst ` set (main_handlers pf) = set all_operations"
proof -
  let ?ns = "[OpStartService, OpStopService, OpRestartService, OpInstallComponent, OpApplyServiceRevision,
      OpCollectStatus, OpCollectLogs, OpCreateTunnel, OpRemoveTunnel, OpRunHealthCheck,
      OpApplyFirewallRevision, OpManageCertificate]"
  have n: "map fst (main_handlers pf) = ?ns" by (simp add: main_handlers_def handler_names)
  have "distinct ?ns" by code_simp
  then show "distinct (map fst (main_handlers pf))" using n by simp
  have "fst ` set (main_handlers pf) = set ?ns" using n by (metis set_map)
  then show "fst ` set (main_handlers pf) = set all_operations" by (auto simp: all_operations_def)
qed

lemma wire_executor_eq: "wire_executor pf = Returns (main_executor pf)"
proof -
  let ?d = "docker_handlers pf (docker_NewClient (pf_context pf) (pf_docker pf))" and ?c = "core_handlers pf"
  have dist: "distinct (map fst ?d)" "distinct (map fst ?c)" "fst ` set ?d \<inter> fst ` set ?c = {}"
    using main_handler_names(1) [of pf] by (auto simp: main_handlers_def)
  let ?e = "NewExecutor\<lparr>exr_handlers := Map.empty ++ map_of ?d\<rparr>"
  have 1: "registerDockerHandlers pf NewExecutor (docker_NewClient (pf_context pf) (pf_docker pf)) = Returns ?e"
    unfolding registerDockerHandlers_def using register_all_distinct [OF dist(1), of NewExecutor]
    by (simp add: NewExecutor_def)
  have "register_all ?e ?c = Returns (?e\<lparr>exr_handlers := exr_handlers ?e ++ map_of ?c\<rparr>)"
    by (rule register_all_distinct [OF dist(2)]) (use dist(3) in \<open>auto simp: map_of_eq_None_iff\<close>)
  moreover have "map_of ?d ++ map_of ?c = map_of (?d @ ?c)"
    using dist(3) by (subst map_add_comm) (auto simp: dom_map_of_conv_image_fst map_of_append)
  ultimately show ?thesis using 1
    by (simp add: wire_executor_def registerCoreHandlers_def main_executor_def main_handlers_def)
qed

section \<open>What the handlers leave alone\<close>

text \<open>
  Two orders on the world: the connection to the control plane is the same; the host's clock
  is not set back. No handler touches the connection. The clock depends on what the platform's
  calls do to the host (\<open>clock_forward\<close>).
\<close>

definition same_api :: "('d, 'k, 'h) world \<Rightarrow> ('d, 'k, 'h) world \<Rightarrow> bool" where
  "same_api w w' \<longleftrightarrow> wd_api w' = wd_api w"

interpretation api_frame: state_order same_api
  by unfold_locales (simp_all add: same_api_def)

definition host_later ::
  "('cert, 'pool, 'priv, 'd, 'k, 'h, 'f) platform \<Rightarrow> 'h host \<Rightarrow> 'h host \<Rightarrow> bool" where
  "host_later pf h h' \<longleftrightarrow> pf_now pf (machine h) \<le> pf_now pf (machine h')"

interpretation host_clock: state_order "host_later pf"
  for pf :: "('cert, 'pool, 'priv, 'd, 'k, 'h, 'f) platform"
  by unfold_locales (simp_all add: host_later_def)

definition clock_forward :: "('cert, 'pool, 'priv, 'd, 'k, 'h, 'f) platform \<Rightarrow> bool" where
  "clock_forward pf \<longleftrightarrow>
     (\<forall>h. pf_now pf h \<le> pf_now pf (snd (pf_done pf h))) \<and>
     (\<forall>d h. pf_now pf h \<le> pf_now pf (snd (pf_pause pf d h))) \<and>
     (\<forall>a t h. pf_now pf h \<le> pf_now pf (snd (pf_dial pf a t h))) \<and>
     (\<forall>name args h. pf_now pf h \<le> pf_now pf (snd (pf_exec pf name args h)))"

lemma clock_forwardD:
  assumes "clock_forward pf"
  shows "pf_now pf h \<le> pf_now pf (snd (pf_done pf h))" "pf_now pf h \<le> pf_now pf (snd (pf_pause pf d h))"
    "pf_now pf h \<le> pf_now pf (snd (pf_dial pf a t h))" "pf_now pf h \<le> pf_now pf (snd (pf_exec pf name args h))"
  using assms by (simp_all add: clock_forward_def)

lemma at_machine_same_api: "same_api w (snd (at_machine f w))"
  by (simp add: same_api_def at_machine_def split: prod.splits)

lemma along_same_api:
  "along same_api (at_docker m1)" "along same_api (at_host m2)" "along same_api (at_fs m3)"
  by (simp_all add: along_def same_api_def at_docker_def at_host_def at_fs_def io_on_def split: prod.splits)

lemma now_main: "rt_now (main_runtime pf) w = pf_now pf (machine (wd_host w))"
  by (simp add: main_runtime_def)

lemma at_machine_later:
  "(\<And>h. pf_now pf h \<le> pf_now pf (snd (f h))) \<Longrightarrow> later (main_runtime pf) w (snd (at_machine f w))"
  by (simp add: later_def now_main at_machine_def case_prod_beta)

lemma along_later:
  "along (later (main_runtime pf)) (at_docker m1)" "along (later (main_runtime pf)) (at_fs m2)"
  "along (later (main_runtime pf)) (at_api m3)"
  by (simp_all add: along_def later_def now_main at_docker_def at_fs_def at_api_def io_on_def split: prod.splits)

lemma along_later_host:
  "along (host_later pf) m \<Longrightarrow> along (later (main_runtime pf)) (at_host m)"
  by (simp add: along_def host_later_def later_def now_main at_host_def io_on_def case_prod_beta)

lemma exec_later:
  assumes "clock_forward pf"
  shows "along (host_later pf) (cr_Run (execRunner (pf_exec pf)) name args)"
    "along (host_later pf) (cr_Output (execRunner (pf_exec pf)) name args)"
    "host_later pf h (snd (certs_execRunner (pf_exec pf) name args h))"
  using clock_forwardD(4) [OF assms]
  by (auto simp: along_def host_later_def execRunner_def certs_execRunner_def run_command_def case_prod_beta)

text \<open>The handlers of Docker and of the host touch one part of the world each; the health check touches two.\<close>

lemma health_same_api: "along same_api (NewRunHealthCheckHandler (main_HealthManager pf c) op)"
  unfolding NewRunHealthCheckHandler_def report_def
  by (intro api_frame.along_laws api_frame.Check_along)
     (simp_all add: main_HealthManager_def along_same_api at_machine_same_api)

lemma health_later:
  assumes "clock_forward pf"
  shows "along (later (main_runtime pf)) (NewRunHealthCheckHandler (main_HealthManager pf c) op)"
  unfolding NewRunHealthCheckHandler_def report_def
  by (intro clock.along_laws state_order.Check_along [OF clock.state_order_axioms])
     (simp_all add: main_HealthManager_def along_later at_machine_later clock_forwardD [OF assms])

lemma firewall_later:
  assumes "clock_forward pf"
  shows "along (host_later pf) (NewApplyFirewallRevisionHandler (execRunner (pf_exec pf)) op)"
  unfolding NewApplyFirewallRevisionHandler_def report_def
  by (intro host_clock.along_laws host_clock.firewall_ApplyRevision_along exec_later [OF assms])

lemma certs_later:
  assumes "clock_forward pf"
  shows "along (host_later pf) (NewManageCertificateHandler (certs_NewManager (pf_exec pf)) op)"
proof -
  have m: "host_later pf s (snd (Manage (certs_NewManager (pf_exec pf)) req s))" for req s
    by (rule host_clock.Manage_along) (simp add: certs_NewManager_def exec_later [OF assms])
  have "along (host_later pf) (\<lambda>s. case Manage (certs_NewManager (pf_exec pf)) req s of
       ((_, Some e), s') \<Rightarrow> (Inr (failed (Error e)), s')
     | ((Some rep, None), s') \<Rightarrow>
         (Inr (succeeded (ce_Action req @ '' certificate '' @ cx_Domain rep) (Some (CertReport_json rep))), s')
     | ((None, None), s') \<Rightarrow> (Inr None, s'))" for req
    unfolding along_def
  proof
    fix s
    obtain a b s' where "Manage (certs_NewManager (pf_exec pf)) req s = ((a, b), s')"
      by (cases "Manage (certs_NewManager (pf_exec pf)) req s") auto
    then show "host_later pf s (snd (case Manage (certs_NewManager (pf_exec pf)) req s of
       ((_, Some e), s') \<Rightarrow> (Inr (failed (Error e)), s')
     | ((Some rep, None), s') \<Rightarrow>
         (Inr (succeeded (ce_Action req @ '' certificate '' @ cx_Domain rep) (Some (CertReport_json rep))), s')
     | ((None, None), s') \<Rightarrow> (Inr None, s')))"
      using m [of s req] by (simp split: option.split)
  qed
  then show ?thesis unfolding NewManageCertificateHandler_def by (intro host_clock.along_laws)
qed

lemma main_handler_same_api: "(t, h) \<in> set (main_handlers pf) \<Longrightarrow> along same_api (h op)"
  by (auto simp: main_handlers_def docker_handlers_def core_handlers_def along_same_api health_same_api)

lemma main_handler_later:
  "clock_forward pf \<Longrightarrow> (t, h) \<in> set (main_handlers pf) \<Longrightarrow> along (later (main_runtime pf)) (h op)"
  by (auto simp: main_handlers_def docker_handlers_def core_handlers_def along_later health_later
      intro: along_later_host firewall_later certs_later)

lemma main_forward:
  assumes "clock_forward pf"
  shows "forward (NewAgent cfg st (main_api pf c) v) (main_runtime pf) (map_of (main_handlers pf))"
proof -
  have "along (later (main_runtime pf)) (h op)" if "map_of (main_handlers pf) ty = Some h" for ty h op
    using main_handler_later [OF assms map_of_SomeD [OF that]] .
  moreover have "rt_done (main_runtime pf) = at_machine (pf_done pf)"
      "rt_pause (main_runtime pf) d = at_machine (pf_pause pf d)" for d
    by (simp_all add: main_runtime_def)
  moreover have "later (main_runtime pf) w (rt_put_fs (main_runtime pf) f w)" for w f
    unfolding later_def now_main by (simp add: main_runtime_def)
  ultimately show ?thesis
    by (simp add: forward_def NewAgent_def main_api_def along_later at_machine_later clock_forwardD [OF assms])
qed

lemma returns_result_at:
  "returns_result h \<Longrightarrow> returns_result (\<lambda>op. at_docker (h op))"
  "returns_result h' \<Longrightarrow> returns_result (\<lambda>op. at_host (h' op))"
  by (auto simp: returns_result_def at_docker_def at_host_def io_on_def split: prod.splits) (metis fst_conv)+

lemma main_handler_returns: "(t, h) \<in> set (main_handlers pf) \<Longrightarrow> returns_result h"
  by (auto simp: main_handlers_def docker_handlers_def core_handlers_def
      intro!: returns_result_at handlers_return_result certificate_handler_returns_result)

interpretation main_table: handler_table "main_executor pf"
  for pf :: "('cert, 'pool, 'priv, 'd, 'k, 'h, 'f) platform"
  by unfold_locales (auto simp: main_executor_def dest: map_of_SomeD main_handler_returns)

section \<open>The wired agent\<close>

abbreviation api_sent :: "('d, 'k, 'h) world \<Rightarrow> http_request list" where
  "api_sent w \<equiv> sent (aw_net (wd_api w))"

lemma emits_at_api:
  assumes "emits (\<lambda>a. sent (aw_net a)) P m"
  shows "emits (\<lambda>w. api_sent w) P (at_api m)"
  unfolding emits_def
proof
  fix w
  show "\<exists>es. api_sent (snd (at_api m w)) = api_sent w @ es \<and> list_all P es"
    using assms unfolding emits_def by (auto simp: at_api_def io_on_def split: prod.split) (metis snd_conv)
qed

lemma doWithRetry_emits:
  assumes "\<And>req. hr_url req = baseURL @ path \<Longrightarrow> (\<forall>data. body = Inr data \<longrightarrow> hr_body req = Some data) \<Longrightarrow> P req"
  shows "emits (\<lambda>a. sent (aw_net a)) P (doWithRetry env c baseURL meth path body result DefaultRetryConfig)"
  unfolding emits_def
proof
  fix w
  let ?m = "doWithRetry env c baseURL meth path body result DefaultRetryConfig"
  obtain n m req where l: "sent_by (replicate n req) (delays DefaultRetryConfig 0 m) w (snd (?m w))"
      "hr_url req = baseURL @ path" "\<forall>data. body = Inr data \<longrightarrow> hr_body req = Some data"
    using doWithRetry_logs [of DefaultRetryConfig env c baseURL meth path body result w "fst (?m w)" "snd (?m w)"]
    by (auto simp: DefaultRetryConfig_def)
  then show "\<exists>es. sent (aw_net (snd (?m w))) = sent (aw_net w) @ es \<and> list_all P es"
    using assms by (intro exI [of _ "replicate n req"]) (simp add: sent_by_def list_all_iff)
qed

text \<open>The laws of \<open>agent_system\<close> hold for the agent as \<open>cmdRun\<close> wires it.\<close>

interpretation wired: agent_system "NewAgent cfg (stateAdapter st) (main_api pf c) v" "main_runtime pf" "\<lambda>w. api_sent w"
    "map_of (main_handlers pf)"
  for cfg :: Config and st :: AgentState
    and pf :: "('cert, 'pool, 'priv, 'd, 'k, 'h, 'f) platform" and c :: "('cert, 'pool) Client" and v :: string
proof
  fix hq t cq i q ty h op w d f
  show "emits (\<lambda>w. api_sent w) is_heartbeat (ap_Heartbeat (ag_api (NewAgent cfg (stateAdapter st) (main_api pf c) v)) hq)"
    by (simp add: NewAgent_def main_api_def client_Heartbeat_def is_heartbeat_def
        emits_at_api doWithRetry_emits)
  show "emits (\<lambda>w. api_sent w) is_claim (ap_ClaimOperation (ag_api (NewAgent cfg (stateAdapter st) (main_api pf c) v)) t cq)"
    by (simp add: NewAgent_def main_api_def client_ClaimOperation_def is_claim_def
        emits_at_api doWithRetry_emits)
  show "emits (\<lambda>w. api_sent w) (is_completion i q)
      (ap_CompleteOperation (ag_api (NewAgent cfg (stateAdapter st) (main_api pf c) v)) t i q)"
    by (simp add: NewAgent_def main_api_def client_CompleteOperation_def is_completion_def
        emits_at_api doWithRetry_emits)
  show "api_sent (snd (sto_IsEnrolled (ag_state (NewAgent cfg (stateAdapter st) (main_api pf c) v)) w)) = api_sent w"
  proof -
    have "along same_api (at_fs (IsEnrolled st) :: (('d, 'k, 'h) world, bool) io)" by (rule along_same_api)
    then show ?thesis by (simp add: NewAgent_def stateAdapter_def along_def same_api_def)
  qed
  show "api_sent (snd (rt_done (main_runtime pf) w)) = api_sent w"
    "api_sent (snd (rt_pause (main_runtime pf) d w)) = api_sent w"
    "api_sent (rt_put_fs (main_runtime pf) f w) = api_sent w"
    by (simp_all add: main_runtime_def at_machine_same_api [unfolded same_api_def])
  assume "map_of (main_handlers pf) ty = Some h"
  then have m: "(ty, h) \<in> set (main_handlers pf)" by (rule map_of_SomeD)
  show "returns_result h" using main_handler_returns [OF m] .
  show "api_sent (snd (h op w)) = api_sent w" using main_handler_same_api [OF m, of op] by (simp add: along_def same_api_def)
qed

section \<open>Enrolment and the state\<close>

lemma identity_path_defaults: "DefaultCertPath = enroll_certPath" "DefaultKeyPath = enroll_keyPath"
  by (simp_all add: path_defs enroll_certPath_def enroll_keyPath_def)

lemma default_paths_ne: "DefaultCertPath \<noteq> []" "DefaultKeyPath \<noteq> []"
  by (simp_all add: path_defs)

lemma IsEnrolled_frame: "fs_files (snd (IsEnrolled st s)) = fs_files s"
  by (auto simp: IsEnrolled_def path_exists_def io_bind_def io_try_def os_Stat_def next_fault_def
      split: prod.splits option.splits list.splits if_splits)

lemma default_paths_valid: "valid_utf8 DefaultCertPath" "valid_utf8 DefaultKeyPath"
  by code_simp+

lemma enrolled_state_ok:
  "ok_state st \<Longrightarrow> valid_utf8 (er_NodeID resp) \<Longrightarrow> ok_state (enrolled_state st resp)"
  by (simp add: ok_state_alt enrolled_state_def default_paths_valid)

lemma at_enroll_Inr:
  "at_enroll m w = (Inr x, w') \<longleftrightarrow>
     (\<exists>v. m \<lparr>ew_fs = wd_fs w, ew_api = wd_api w\<rparr> = (Inr x, v) \<and> w' = w\<lparr>wd_fs := ew_fs v, wd_api := ew_api v\<rparr>)"
  by (auto simp: at_enroll_def split: prod.splits)

text \<open>What a successful \<open>enroll\<close> did: the steps of \<open>cmdEnroll\<close> in order.\<close>

lemma cmdEnroll_steps:
  assumes "cmdEnroll pf token url configPath w = (Inr (Returns out), w')"
  obtains cfg s1 ca w2 resp w3 st s4 where
    "LoadConfig (pf_yaml pf) configPath (wd_fs w) = (Inr cfg, s1)"
    "api_Enroll (pf_crypto pf) (pf_tls pf) (pf_api pf (Some (120 * Second))) url token ca w2 = (Inr (Returns resp), w3)"
    "LoadState (pc_StateFile (cfg_Paths cfg)) (ew_fs w3) = (Inr st, s4)"
    "Save (enrolled_state st resp) s4 = (Inr (), wd_fs w')"
    "out = ''Enrolled as node '' @ er_NodeID resp @ [CHR 0x0A]"
proof -
  obtain cfg s1 ca w2 r v x where c: "LoadConfig (pf_yaml pf) configPath (wd_fs w) = (Inr cfg, s1)"
      and a: "api_Enroll (pf_crypto pf) (pf_tls pf) (pf_api pf (Some (120 * Second))) url token ca w2 = (Inr r, v)"
      and rest: "record_enrolment cfg r x = (Inr (Returns out), w')" and x: "wd_fs x = ew_fs v"
    using assms by (fastforce simp: cmdEnroll_def at_fs_def io_success at_enroll_Inr)
  obtain resp where r: "r = Returns resp" using rest by (cases r) (auto simp: record_enrolment_def)
  obtain st s4 where "LoadState (pc_StateFile (cfg_Paths cfg)) (ew_fs v) = (Inr st, s4)"
      "Save (enrolled_state st resp) s4 = (Inr (), wd_fs w')"
      "out = ''Enrolled as node '' @ er_NodeID resp @ [CHR 0x0A]"
    using rest r x by (auto simp: record_enrolment_def at_fs_def io_success)
  then show ?thesis using that c a r by blast
qed

end
