(* ===== verification/Program.thy ===== *)
theory Program
  imports CommandLine
begin

text \<open>
  The program as a whole: what holds of \<open>run\<close> and \<open>enroll\<close> with all components wired together,
  and sample platforms on which the properties are applied.
\<close>

section \<open>Properties\<close>

lemma cmdRun_agent:
  assumes "cmdRun pf version configPath w0 = (Inr (ag, Returns e), w)"
    and "cc_HeartbeatIntervalSec (cfg_Controller (ag_config ag)) \<le> 9223372036"
  obtains cfg st c where "ag = NewAgent cfg (stateAdapter st) (main_api pf c) version"
    and "cl_baseURL c = cc_URL (cfg_Controller cfg)"
    and "exr_handlers e = map_of (main_handlers pf)" and "exr_seen e = Map.empty"
    and "0 < heartbeat_interval (ag_config ag)"
proof -
  obtain cfg st c where ag: "ag = NewAgent cfg (stateAdapter st) (main_api pf c) version"
      and e: "wire_executor pf = Returns e" and cfg: "fst (LoadConfig (pf_yaml pf) configPath (wd_fs w0)) = Inr cfg"
      and url: "cl_baseURL c = cc_URL (cfg_Controller cfg)"
    using assms(1)
    by (auto simp: cmdRun_def at_fs_def io_success NewClient_def newClientWithTLS_def split: if_splits)
  have "e = main_executor pf" using e wire_executor_eq [of pf] by simp
  then have "exr_handlers e = map_of (main_handlers pf)" "exr_seen e = Map.empty"
    by (simp_all add: main_executor_def NewExecutor_def)
  moreover have "0 < cc_HeartbeatIntervalSec (cfg_Controller cfg)"
  proof -
    obtain c0 where "applyDefaults c0 = Inr cfg"
      using cfg by (cases "LoadConfig (pf_yaml pf) configPath (wd_fs w0)") (auto simp: LoadConfig_def io_success)
    then show ?thesis using applyDefaults_valid by (simp add: valid_config_def)
  qed
  then have "0 < heartbeat_interval (ag_config ag)"
    using assms(2) ag by (subst heartbeat_interval_exact) (simp_all add: NewAgent_def Second_def)
  ultimately show ?thesis using that ag url by blast
qed

text \<open>
  Property C14. The wiring of the executor never panics (\<open>Register\<close> does for a type that is
  registered twice) and afterwards exactly the twelve operation types of the contract have a
  handler. Executing any operation, of a known type or not, returns a result or an error: no
  operation that the control plane can send makes the agent panic.
\<close>

theorem wired_executor_total:
  "\<exists>e. wire_executor pf = Returns e \<and> dom (exr_handlers e) = set all_operations \<and>
     (\<forall>now op w. \<exists>r. fst (Execute now e op w) = Returns r)"
proof -
  have "dom (exr_handlers (main_executor pf)) = set all_operations"
    using main_handler_names(2) [of pf] by (simp add: main_executor_def dom_map_of_conv_image_fst)
  then show ?thesis using wire_executor_eq [of pf] main_table.Execute_returns by blast
qed

text \<open>
  Property C2. With a heartbeat interval of at most 9223372036 seconds (any longer one wraps, and
  the agent panics): however heartbeats, polls and evictions interleave after \<open>run\<close> has started
  the agent, and whatever the control plane, Docker and the host do, the agent does not panic, and
  every request it sends to the control plane is a claim, a heartbeat, or a report that names
  its operation, has one of the three statuses of the contract, and whose text is redacted: it
  shows no UUID between bytes that are no word bytes and no assignment to \<open>PrivateKey\<close> or
  \<open>PresharedKey\<close>. (A panic inside a handler's own code is not expressible in the model.)
\<close>

theorem agent_requests_safe:
  assumes "cmdRun pf version configPath w0 = (Inr (ag, Returns e), w)"
    and "cc_HeartbeatIntervalSec (cfg_Controller (ag_config ag)) \<le> 9223372036"
    and "Run_start ag (main_runtime pf) \<lparr>gs_exec = e, gs_log = [], gs_world = w\<rparr> = (Inr caps, s)"
    and "agent_reachable ag (main_runtime pf) caps s cs r"
  shows "rn_crash r = None \<and>
     (\<exists>rs. api_sent (gs_world (rn_agent r)) = api_sent w @ rs \<and> list_all safe_request rs)"
proof -
  obtain cfg st c where ag: "ag = NewAgent cfg (stateAdapter st) (main_api pf c) version"
      and e: "exr_handlers e = map_of (main_handlers pf)" and iv: "0 < heartbeat_interval (ag_config ag)"
    by (rule cmdRun_agent [OF assms(1,2)])
  have s1: "sound_step (\<lambda>w. api_sent w) (map_of (main_handlers pf)) \<lparr>gs_exec = e, gs_log = [], gs_world = w\<rparr> s"
    by (rule wired.Run_start_sound [OF _ assms(3) [unfolded ag]]) (simp add: e)
  have "sound_step (\<lambda>w. api_sent w) (map_of (main_handlers pf)) s (rn_agent r) \<and> rn_crash r = None"
    by (rule wired.reachable_sound [OF assms(4) [unfolded ag]]) (use s1 iv ag in \<open>simp_all add: sound_step_def\<close>)
  then show ?thesis using s1 adds_trans by (fastforce simp: sound_step_def adds_def)
qed

text \<open>
  Property C3. In the running agent no operation is begun twice within an hour: whatever the
  control plane sends and however polls, heartbeats and evictions interleave, two handler
  calls for the same operation ID are begun more than one hour apart. The clock must not be
  set back by anything the platform does.
\<close>

theorem agent_at_most_once_per_hour:
  assumes "cmdRun pf version configPath w0 = (Inr (ag, Returns e), w)"
    and "cc_HeartbeatIntervalSec (cfg_Controller (ag_config ag)) \<le> 9223372036"
    and "Run_start ag (main_runtime pf) \<lparr>gs_exec = e, gs_log = [], gs_world = w\<rparr> = (Inr caps, s)"
    and "agent_reachable ag (main_runtime pf) caps s cs r" and "clock_forward pf"
    and "i < j" and "j < length cs" and "fst (cs ! i) = fst (cs ! j)"
  shows "snd (cs ! i) + Hour < snd (cs ! j)"
proof -
  obtain cfg st c where ag: "ag = NewAgent cfg (stateAdapter st) (main_api pf c) version"
      and e: "exr_handlers e = map_of (main_handlers pf)" "exr_seen e = Map.empty"
      and iv: "0 < heartbeat_interval (ag_config ag)"
    by (rule cmdRun_agent [OF assms(1,2)])
  note start = wired.Run_start_sound [OF _ assms(3) [unfolded ag]]
  have "exr_handlers (gs_exec s) = map_of (main_handlers pf)" "exr_seen (gs_exec s) = Map.empty"
    using start e by (simp_all add: sound_step_def)
  then obtain x where "stands_for (main_runtime pf) x cs (rn_agent r)"
    using wired.reachable_stands_for [OF main_forward [OF assms(5)] assms(4) [unfolded ag]] iv ag by blast
  then have "exec_inv x" "xs_invoked x = cs" by (simp_all add: stands_for_def exec_inv_reachable)
  then have "spaced (cs ! i) (cs ! j)" using assms(6,7) by (auto simp: exec_inv_def sorted_wrt_iff_nth_less)
  then show ?thesis using assms(8) by (simp add: spaced_def)
qed

text \<open>
  Property C4. With a heartbeat interval of at most 9223372036 seconds, every operation that a
  pass of the poll loop claims is reported in that pass, whether it was executed, failed, was
  skipped as a duplicate or has an unknown type: the execution returns, the loop goes on, and the
  report of its outcome is sent to the URL of the operation, at most six times, and at least once
  exactly when its ID makes a URL and the context of the report is not over (the agent
  being stopped) when the execution ends.
\<close>

theorem claimed_operation_reported:
  assumes "cmdRun pf version configPath w0 = (Inr (ag, Returns e), w)"
    and "cc_HeartbeatIntervalSec (cfg_Controller (ag_config ag)) \<le> 9223372036"
    and "Run_start ag (main_runtime pf) \<lparr>gs_exec = e, gs_log = [], gs_world = w\<rparr> = (Inr caps, s)"
    and "agent_reachable ag (main_runtime pf) caps s cs r"
    and "claim_next ag (main_runtime pf) (rn_agent r) = (Inr op, s1)"
    and "url = cc_URL (cfg_Controller (ag_config ag)) @ ''/internal/agent/v1/operations/'' @ opr_ID op @ ''/complete''"
    and "env = pf_api pf (Some (30 * Second))"
  shows "\<exists>y e' w' s' n.
     Execute (rt_now (main_runtime pf)) (gs_exec s1) op (gs_world s1) = (Returns y, e', w') \<and>
     poll_pass ag (main_runtime pf) (rn_agent r) = (Again, s') \<and> n \<le> 6 \<and>
     (0 < n \<longleftrightarrow> ae_CheckURL env url = None \<and> ae_Over env (peer (aw_net (wd_api w'))) = None) \<and>
     api_sent (gs_world s') = api_sent (gs_world s1) @ replicate n
       \<lparr>hr_method = ''POST'', hr_url = url, hr_body = Some (CompleteRequest_json (complete_request (opr_ID op) y))\<rparr>"
proof -
  let ?rt = "main_runtime pf"
  obtain cfg st c where ag: "ag = NewAgent cfg (stateAdapter st) (main_api pf c) version"
      and base: "cl_baseURL c = cc_URL (cfg_Controller cfg)"
      and e: "exr_handlers e = map_of (main_handlers pf)" and iv: "0 < heartbeat_interval (ag_config ag)"
    by (rule cmdRun_agent [OF assms(1,2)])
  have "sound_step (\<lambda>w. api_sent w) (map_of (main_handlers pf)) \<lparr>gs_exec = e, gs_log = [], gs_world = w\<rparr> s"
    by (rule wired.Run_start_sound [OF _ assms(3) [unfolded ag]]) (simp add: e)
  then have "exr_handlers (gs_exec (rn_agent r)) = map_of (main_handlers pf)"
    using wired.reachable_sound [OF assms(4) [unfolded ag]] iv ag by (simp add: sound_step_def)
  from wired.claim_next_sound(1) [OF this assms(5) [unfolded ag]]
  have hs: "exr_handlers (gs_exec s1) = map_of (main_handlers pf)" by (simp add: sound_step_def)
  obtain x e' w' where ex: "Execute (rt_now ?rt) (gs_exec s1) op (gs_world s1) = (x, e', w')"
    by (cases "Execute (rt_now ?rt) (gs_exec s1) op (gs_world s1)") auto
  note q = wired.Execute_quiet [OF hs ex]
  obtain y where y: "x = Returns y" using q(3) by blast
  let ?q = "complete_request (opr_ID op) y" and ?path = "''/internal/agent/v1/operations/'' @ opr_ID op @ ''/complete''"
  let ?call = "doWithRetry (pf_api pf (Some (30 * Second))) c (cl_baseURL c) ''POST'' ?path (Inr (CompleteRequest_json ?q))
      no_result DefaultRetryConfig"
  obtain z a where z: "?call (wd_api w') = (z, a)" by (cases "?call (wd_api w')")
  have url: "url = cl_baseURL c @ ?path" using assms(6) ag base by (simp add: NewAgent_def)
  obtain n where n: "n \<le> 6"
      "0 < n \<longleftrightarrow> ae_CheckURL env url = None \<and> ae_Over env (peer (aw_net (wd_api w'))) = None"
      "sent (aw_net a) = api_sent w' @ replicate n \<lparr>hr_method = ''POST'', hr_url = url, hr_body = Some (CompleteRequest_json ?q)\<rparr>"
    using doWithRetry_sends [OF _ z] assms(7) unfolding url by (auto simp: DefaultRetryConfig_def)
  have "ap_CompleteOperation (ag_api ag) (30 * Second) (opr_ID op) ?q w' = (z, w'\<lparr>wd_api := a\<rparr>)"
    using z by (simp add: ag NewAgent_def main_api_def client_CompleteOperation_def at_api_def io_on_def)
  then obtain s' where "poll_pass ag ?rt (rn_agent r) = (Again, s')" "gs_world s' = w'\<lparr>wd_api := a\<rparr>"
    using assms(5) ex y by (cases z) (auto simp: poll_pass_def perform_def)
  then show ?thesis using ex y n q(1) by (intro exI conjI) (assumption | simp)+
qed

text \<open>
  Property C11. What \<open>run\<close> finds after \<open>enroll\<close> reported success: the state file of the configuration
  loads, holds the node id the control plane gave (the one that was printed) and the paths of the
  saved key and certificate, and the agent counts as enrolled exactly when that node id is not
  empty. (\<open>enroll\<close> does not look at the id: with an answer that has none it reports success, and
  \<open>run\<close> then says that the agent is not enrolled.) The state file must not be the key, the
  certificate or a path that ends in \<open>.tmp\<close>, and no call of the file system may fail afterwards.
\<close>

theorem enroll_then_run:
  assumes "cmdEnroll pf token url configPath w = (Inr (Returns out), w')"
    and "fst (LoadConfig (pf_yaml pf) configPath (wd_fs w)) = Inr cfg"
    and "\<not> HasSuffix (pc_StateFile (cfg_Paths cfg)) ''.tmp''"
    and "pc_StateFile (cfg_Paths cfg) \<noteq> DefaultCertPath" and "pc_StateFile (cfg_Paths cfg) \<noteq> DefaultKeyPath"
    and "fs_faults (wd_fs w') = []"
  shows "\<exists>st. LoadState (pc_StateFile (cfg_Paths cfg)) (wd_fs w') = (Inr st, wd_fs w') \<and>
     out = ''Enrolled as node '' @ as_NodeID st @ [CHR 0x0A] \<and>
     as_CertPath st = DefaultCertPath \<and> as_KeyPath st = DefaultKeyPath \<and>
     fst (IsEnrolled st (wd_fs w')) = Inr (as_NodeID st \<noteq> [])"
  using assms(1)
proof (cases rule: cmdEnroll_steps)
  case (1 cfg' s1 ca w2 resp w3 st s4)
  let ?S = "pc_StateFile (cfg_Paths cfg)" and ?e = "enrolled_state st resp"
  have cfg: "cfg' = cfg" using 1(1) assms(2) by simp
  note ld = LoadState_Inr [OF 1(3) [unfolded cfg]]
  have path: "as_path ?e = ?S" using ld(2) by (simp add: enrolled_state_def)
  have ok: "ok_state ?e" using ld(1) api_Enroll_valid [OF 1(2)] by (rule enrolled_state_ok)
  have sel: "as_NodeID ?e = er_NodeID resp" "as_CertPath ?e = DefaultCertPath" "as_KeyPath ?e = DefaultKeyPath"
    by (simp_all add: enrolled_state_def)
  have files: "fs_files s4 DefaultCertPath \<noteq> None" "fs_files s4 DefaultKeyPath \<noteq> None"
    using api_Enroll_files [OF 1(2)] ld(4) by (auto simp: identity_path_defaults)
  have kept: "fs_files (wd_fs w') p = fs_files s4 p" if "p = DefaultCertPath \<or> p = DefaultKeyPath" for p
  proof -
    have "\<not> HasSuffix p ''.tmp''" using that by (auto simp: identity_path_defaults)
    then have "keeps p (Save ?e)" using path assms(4,5) that by (intro Save_keeps) auto
    then show ?thesis using 1(4) by (rule keepsE)
  qed
  obtain st' where st': "LoadState ?S (wd_fs w') = (Inr st', wd_fs w')"
      "as_NodeID st' = er_NodeID resp" "as_CertPath st' = DefaultCertPath" "as_KeyPath st' = DefaultKeyPath"
    using Save_then_Load [OF ok _ 1(4) assms(6)] path assms(3) sel by auto
  have "fst (IsEnrolled st' (wd_fs w')) = Inr (as_NodeID st' \<noteq> [])"
    using st'(3,4) files kept [of DefaultCertPath] kept [of DefaultKeyPath] assms(6) default_paths_ne
    by (auto simp: IsEnrolled_def path_exists_def io_bind_def io_try_def os_Stat_def next_fault_def
        split: option.splits)
  then show ?thesis using st' 1(5) by auto
qed

text \<open>Reading the configuration and the state changes nothing when no call fails.\<close>

lemma reads_keep_fs:
  assumes "fs_faults s = []"
  shows "snd (LoadConfig y p s) = s" and "snd (LoadState p s) = s" and "snd (IsEnrolled st s) = s"
    and "snd (LoadX509KeyPair lib c k s) = s"
  using assms
  by (auto simp: LoadConfig_def LoadState_def IsEnrolled_def path_exists_def LoadX509KeyPair_def io_bind_def
      io_wrap_def io_try_def os_ReadFile_def os_Stat_def next_fault_def
      split: sum.splits option.splits prod.splits if_splits)

text \<open>
  Property C39. The CA certificate of the configuration is optional for \<open>enroll\<close>, which falls back
  to \<open>/etc/routestack/agent/ca.pem\<close>, but not for \<open>run\<close>. With no path configured and that file in
  place, \<open>enroll\<close> goes on to the enrolment with it. With no path configured and
  everything else in order (the configuration and the state load, the agent is enrolled, its
  certificate and key load, no call of the file system fails), \<open>run\<close> fails to create its API
  client, because it opens the CA certificate at the empty path.
\<close>

theorem run_needs_ca_path:
  assumes "fs_faults (wd_fs w) = []" and "fs_files (wd_fs w) [] = None"
    and "fst (LoadConfig (pf_yaml pf) configPath (wd_fs w)) = Inr cfg"
    and "cc_CACertPath (cfg_Controller cfg) = []"
    and "fs_files (wd_fs w) ''/etc/routestack/agent/ca.pem'' \<noteq> None"
    and "fst (LoadState (pc_StateFile (cfg_Paths cfg)) (wd_fs w)) = Inr st"
    and "fst (IsEnrolled st (wd_fs w)) = Inr True"
    and "fst (LoadX509KeyPair (pf_tls pf) (as_CertPath st) (as_KeyPath st) (wd_fs w)) = Inr pair"
  shows "cmdRun pf version configPath w =
       (Inl (ErrWrap ''failed to create API client: ''
          (ErrWrap ''load CA cert: '' (no_such_file ''open'' []) []) []), w) \<and>
     cmdEnroll pf token url configPath w =
       io_bind (io_wrap ''enrollment failed: '' (at_enroll
         (api_Enroll (pf_crypto pf) (pf_tls pf) (pf_api pf (Some (120 * Second))) url token
            ''/etc/routestack/agent/ca.pem''))) (record_enrolment cfg) w"
proof -
  note keep = reads_keep_fs [OF assms(1)]
  have l: "LoadConfig (pf_yaml pf) configPath (wd_fs w) = (Inr cfg, wd_fs w)"
    "LoadState (pc_StateFile (cfg_Paths cfg)) (wd_fs w) = (Inr st, wd_fs w)"
    "IsEnrolled st (wd_fs w) = (Inr True, wd_fs w)"
    "LoadX509KeyPair (pf_tls pf) (as_CertPath st) (as_KeyPath st) (wd_fs w) = (Inr pair, wd_fs w)"
    by (rule prod_eqI; use assms keep in simp)+
  have "loadCAPool (pf_tls pf) [] (wd_fs w) = (Inl (no_such_file ''open'' []), wd_fs w)"
    using assms(1,2) by (simp add: loadCAPool_def io_bind_def os_ReadFile_def next_fault_def)
  then have "cmdRun pf version configPath w =
       (Inl (ErrWrap ''failed to create API client: ''
          (ErrWrap ''load CA cert: '' (no_such_file ''open'' []) []) []), w)"
    using l assms(4) by (simp add: cmdRun_def at_fs_def io_on_def io_bind_def io_wrap_def NewClient_def)
  moreover have path: "enroll_ca_path cfg = ''/etc/routestack/agent/ca.pem''"
    using assms(4) by (simp add: enroll_ca_path_def AgentConfigDir_def)
  have "os_Stat ''/etc/routestack/agent/ca.pem'' (wd_fs w) = (Inr (), wd_fs w)"
    using assms(1,5) by (auto simp: os_Stat_def next_fault_def)
  ultimately show ?thesis
    using l(1) by (simp add: cmdEnroll_def path at_fs_def io_on_def io_bind_def io_wrap_def)
qed

section \<open>Witnesses\<close>

section \<open>Samples\<close>

definition unit_floats :: "unit float_ops" where
  "unit_floats = \<lparr>fl_num = (\<lambda>_. ()), fl_of_uint64 = (\<lambda>_. ()), fl_sub = (\<lambda>_ _. ()), fl_mul = (\<lambda>_ _. ()),
     fl_div = (\<lambda>_ _. ()), fl_Round = (\<lambda>_. ()), fl_ParseFloat = (\<lambda>_. ()), fl_json = (\<lambda>_. Inr ''0'')\<rparr>"

definition sample_platform :: "Config \<Rightarrow> (unit, unit, unit, unit, unit, 'h, unit) platform" where
  "sample_platform cfg =
     \<lparr>pf_yaml = (\<lambda>_. Inr cfg), pf_tls = sample_tls, pf_crypto = sample_crypto, pf_api = (\<lambda>_. enroll_env),
      pf_context = (\<lambda>_. None),
      pf_docker = (\<lambda>_ d. (Inl (ErrNew ''no daemon''), d)),
      pf_exec = (\<lambda>_ _ h. (\<lparr>eo_Stdout = [], eo_Combined = [], eo_Err = None\<rparr>, h)),
      pf_range_map = id, pf_dial = (\<lambda>_ _ h. (False, h)), pf_time_text = (\<lambda>_. []), pf_done = (\<lambda>h. (False, h)),
      pf_pause = (\<lambda>_ h. (False, h)), pf_now = (\<lambda>_. 0),
      pf_hb = \<lparr>he_floats = unit_floats, he_Uname = None, he_Statfs = (\<lambda>_. None), he_PATH = [], he_second = id\<rparr>\<rparr>"

definition ca_config :: Config where
  "ca_config = sample_config\<lparr>cfg_Controller := (cfg_Controller sample_config)\<lparr>cc_CACertPath := ''/ca.pem''\<rparr>\<rparr>"

definition sample_world :: "files \<Rightarrow> 'h \<Rightarrow> (unit, unit, 'h) world" where
  "sample_world f h =
     \<lparr>wd_fs = \<lparr>fs_files = f, fs_faults = [], fs_rand = [1], fs_hist = []\<rparr>,
      wd_api = \<lparr>aw_net = \<lparr>sent = [], peer = ()\<rparr>, aw_waits = []\<rparr>,
      wd_docker = \<lparr>sent = [], peer = ()\<rparr>, wd_host = \<lparr>ran = [], machine = h\<rparr>\<rparr>"

definition small_file :: "string \<Rightarrow> fileobj" where
  "small_file d = \<lparr>fi_Data = d, fi_Perm = 384\<rparr>"

abbreviation plain_platform :: "Config \<Rightarrow> (unit, unit, unit, unit, unit, unit, unit) platform" where
  "plain_platform \<equiv> sample_platform"

abbreviation before_enrolment :: "(unit, unit, unit) world" where
  "before_enrolment \<equiv> sample_world [''/cfg'' \<mapsto> small_file ''x'', ''/ca.pem'' \<mapsto> small_file ''CA''] ()"

theorem enroll_then_run_witness:
  "\<exists>st. fst (LoadState ''/s'' (wd_fs (snd (cmdEnroll (plain_platform ca_config) ''tok'' ''https://cp'' ''/cfg'' before_enrolment)))) = Inr st \<and>
     as_CertPath st = DefaultCertPath \<and>
     fst (IsEnrolled st (wd_fs (snd (cmdEnroll (plain_platform ca_config) ''tok'' ''https://cp'' ''/cfg'' before_enrolment)))) = Inr True"
proof -
  let ?r = "cmdEnroll (plain_platform ca_config) ''tok'' ''https://cp'' ''/cfg'' before_enrolment"
  have "case ?r of (a, w) \<Rightarrow> a = Inr (Returns (''Enrolled as node n1'' @ [CHR 0x0A])) \<and> fs_faults (wd_fs w) = []" by code_simp
  then have ok: "fst ?r = Inr (Returns (''Enrolled as node n1'' @ [CHR 0x0A]))" and nf: "fs_faults (wd_fs (snd ?r)) = []"
    by (simp_all add: case_prod_beta)
  have r: "?r = (Inr (Returns (''Enrolled as node n1'' @ [CHR 0x0A])), snd ?r)" using ok by (metis prod.collapse)
  obtain cfg where c: "fst (LoadConfig (pf_yaml (plain_platform ca_config)) ''/cfg'' (wd_fs before_enrolment)) = Inr cfg"
      and p: "pc_StateFile (cfg_Paths cfg) = ''/s''"
  proof -
    have "applyDefaults ca_config = Inr (the_config) \<Longrightarrow> pc_StateFile (cfg_Paths the_config) = ''/s''" for the_config
      by (auto simp: applyDefaults_def ca_config_def sample_config_def split: if_splits)
    moreover have "\<exists>c. applyDefaults ca_config = Inr c" by (simp add: applyDefaults_def ca_config_def sample_config_def)
    ultimately show ?thesis using that
      by (auto simp: LoadConfig_def sample_platform_def sample_world_def small_file_def io_bind_def io_wrap_def
          os_ReadFile_def next_fault_def)
  qed
  have "\<exists>st. LoadState (pc_StateFile (cfg_Paths cfg)) (wd_fs (snd ?r)) = (Inr st, wd_fs (snd ?r)) \<and>
     ''Enrolled as node n1'' @ [CHR 0x0A] = ''Enrolled as node '' @ as_NodeID st @ [CHR 0x0A] \<and>
     as_CertPath st = DefaultCertPath \<and> as_KeyPath st = DefaultKeyPath \<and>
     fst (IsEnrolled st (wd_fs (snd ?r))) = Inr (as_NodeID st \<noteq> [])"
    by (rule enroll_then_run [OF r c]) (use nf in \<open>simp_all add: p HasSuffix_def path_defs\<close>)
  then show ?thesis using p by auto
qed

definition ready_files :: files where
  "ready_files = [''/cfg'' \<mapsto> small_file ''x'', ''/ca.pem'' \<mapsto> small_file ''CA'', ''/c'' \<mapsto> small_file ''C'', ''/k'' \<mapsto> small_file ''K'',
     ''/s'' \<mapsto> small_file (''{'' @ quoted ''node_id'' @ '':'' @ quoted ''n1'' @ '','' @ quoted ''cert_path'' @ '':'' @ quoted ''/c'' @
        '','' @ quoted ''key_path'' @ '':'' @ quoted ''/k'' @ ''}'')]"

theorem run_needs_ca_path_witness:
  "fst (cmdRun (plain_platform sample_config) ''v1'' ''/cfg'' (sample_world (ready_files(''/etc/routestack/agent/ca.pem'' \<mapsto> small_file ''CA'')) ())) =
     Inl (ErrWrap ''failed to create API client: ''
       (ErrWrap ''load CA cert: '' (no_such_file ''open'' []) []) [])"
proof -
  let ?w = "sample_world (ready_files(''/etc/routestack/agent/ca.pem'' \<mapsto> small_file ''CA'')) ()"
  obtain cfg where cfg: "applyDefaults sample_config = Inr cfg" and "cc_CACertPath (cfg_Controller cfg) = []"
      and p: "pc_StateFile (cfg_Paths cfg) = ''/s''"
    by (simp add: applyDefaults_def sample_config_def)
  have c: "fst (LoadConfig (pf_yaml (plain_platform sample_config)) ''/cfg'' (wd_fs ?w)) = Inr cfg"
    using cfg by (simp add: LoadConfig_def sample_platform_def sample_world_def ready_files_def small_file_def
        io_bind_def io_wrap_def os_ReadFile_def next_fault_def)
  have "case fst (LoadState ''/s'' (wd_fs ?w)) of
      Inl e \<Rightarrow> False
    | Inr st \<Rightarrow> fst (IsEnrolled st (wd_fs ?w)) = Inr True \<and>
        fst (LoadX509KeyPair sample_tls (as_CertPath st) (as_KeyPath st) (wd_fs ?w)) = Inr ()"
    by code_simp
  then obtain st where "fst (LoadState ''/s'' (wd_fs ?w)) = Inr st" "fst (IsEnrolled st (wd_fs ?w)) = Inr True"
      "fst (LoadX509KeyPair sample_tls (as_CertPath st) (as_KeyPath st) (wd_fs ?w)) = Inr ()"
    by (auto split: sum.splits)
  then show ?thesis
    using run_needs_ca_path [OF _ _ c, of st "()" "''v1''" "''tok''" "''https://cp''"] p \<open>cc_CACertPath (cfg_Controller cfg) = []\<close>
    by (simp add: sample_world_def ready_files_def sample_platform_def)
qed

text \<open>
  A control plane that sends the same operation with every answer, and a host whose clock
  moves two hours whenever the context is looked at.
\<close>

definition work_env :: "((unit, unit) Client, unit) api_env" where
  "work_env = \<lparr>ae_Do = (\<lambda>_ _ d. (Inr \<lparr>StatusCode = 200,
        Body = ''{'' @ quoted ''operation'' @ '':{'' @ quoted ''id'' @ '':'' @ quoted ''op1'' @ '','' @
          quoted ''type'' @ '':'' @ quoted ''START_SERVICE'' @ '','' @ quoted ''data'' @ '':{}}}'',
        BodyErr = None\<rparr>, d)),
     ae_Over = (\<lambda>_. None), ae_Wait = (\<lambda>_ d. (None, d)), ae_CheckURL = (\<lambda>_. None)\<rparr>"

definition work_platform :: "(unit, unit, unit, unit, unit, int, unit) platform" where
  "work_platform = (sample_platform ca_config)
     \<lparr>pf_api := \<lambda>_. work_env, pf_done := \<lambda>t. (False, t + 2 * Hour), pf_now := id\<rparr>"

definition work_op :: api_Operation where
  "work_op = \<lparr>ao_ID = ''op1'', ao_Type = OpStartService, ao_Data = Some (JObj [])\<rparr>"

lemma work_answer:
  "unmarshal_to store_ClaimResponse \<lparr>cr_Operation = None\<rparr>
     (case fst (ae_Do work_env undefined undefined ()) of Inr r \<Rightarrow> Body r | Inl _ \<Rightarrow> []) = Inr \<lparr>cr_Operation = Some work_op\<rparr>"
  by code_simp

lemma work_claim: "fst (client_ClaimOperation work_env c u q aw) = Inr \<lparr>cr_Operation = Some work_op\<rparr>"
  using work_answer
  by (simp add: client_ClaimOperation_def doWithRetry_def io_bind_def io_wrap_def attempt_loop.simps [of _ _ _ _ _ 0]
      DefaultRetryConfig_def io_try_def api_Do_def io_on_def http_Do_def http_outcome_def work_env_def verdict_def isRetryableStatus_def
      split: prod.split)

abbreviation clock_of :: "(unit, unit, int) world agent_state \<Rightarrow> int" where
  "clock_of s \<equiv> machine (wd_host (gs_world s))"

abbreviation work_agent :: "Config \<Rightarrow> AgentState \<Rightarrow> (unit, unit) Client \<Rightarrow> string \<Rightarrow> ((unit, unit, int) world, unit) Agent" where
  "work_agent cfg st c v \<equiv> NewAgent cfg (stateAdapter st) (main_api work_platform c) v"

lemma at_same_host: "wd_host (snd (at_docker m w)) = wd_host w" "wd_host (snd (at_api m' w)) = wd_host w"
  by (simp_all add: at_docker_def at_api_def io_on_def split: prod.splits)

lemma work_claim_next:
  obtains s1 where "claim_next (work_agent cfg st c v) (main_runtime work_platform) s = (Inr (to_operation work_op), s1)"
    and "gs_exec s1 = gs_exec s" and "clock_of s1 = clock_of s + 2 * Hour"
proof -
  let ?ag = "work_agent cfg st c v" and ?t = "clock_of s + 2 * Hour"
  let ?w = "(gs_world s)\<lparr>wd_host := (wd_host (gs_world s))\<lparr>machine := ?t\<rparr>\<rparr>"
  let ?claim = "ap_ClaimOperation (ag_api ?ag) (pollTimeout (ag_config ?ag)) \<lparr>cq_NodeID = sto_NodeID (ag_state ?ag)\<rparr>"
  have d: "rt_done (main_runtime work_platform) (gs_world s) = (False, ?w)"
    by (simp add: main_runtime_def work_platform_def at_machine_def)
  obtain r w1 where cl: "?claim ?w = (r, w1)" by (cases "?claim ?w")
  have "fst (?claim ?w) = Inr \<lparr>cr_Operation = Some work_op\<rparr>"
    using work_claim by (simp add: NewAgent_def main_api_def work_platform_def at_api_def io_on_def case_prod_beta)
  moreover have "wd_host (snd (?claim ?w)) = wd_host ?w" by (simp add: NewAgent_def main_api_def at_same_host)
  ultimately have "r = Inr \<lparr>cr_Operation = Some work_op\<rparr>" "machine (wd_host w1) = ?t" using cl by simp_all
  then show ?thesis using that d cl by (simp add: claim_next_def)
qed

lemma work_now: "rt_now (main_runtime work_platform) w = machine (wd_host w)"
  by (simp add: main_runtime_def work_platform_def)

lemma work_op_simps: "opr_ID (to_operation work_op) = ''op1''" "opr_Type (to_operation work_op) = OpStartService"
  by (simp_all add: to_operation_def work_op_def)

lemma work_execute:
  assumes "exr_handlers ex = map_of (main_handlers work_platform)"
    and "Execute (rt_now (main_runtime work_platform)) ex (to_operation work_op) w = (x, e, w2)"
  shows "wd_host w2 = wd_host w" and "\<exists>y. x = Returns y"
    and "exr_seen ex ''op1'' = None \<Longrightarrow> exr_seen e = (exr_seen ex)(''op1'' \<mapsto> machine (wd_host w))"
    and "exr_seen ex ''op1'' \<noteq> None \<Longrightarrow> exr_seen e = exr_seen ex"
    and "fst (Execute_begin ex (to_operation work_op) t) =
      (case exr_seen ex ''op1'' of
         None \<Rightarrow> Inr (\<lambda>op. at_docker (NewDockerStartHandler (docker_NewClient (pf_context work_platform) (pf_docker work_platform)) op))
       | Some _ \<Rightarrow> Inl (Inr already_processed))"
proof -
  let ?op = "to_operation work_op"
  let ?h = "\<lambda>op. at_docker (NewDockerStartHandler (docker_NewClient (pf_context work_platform) (pf_docker work_platform)) op)"
  have h: "exr_handlers ex (opr_Type ?op) = Some ?h"
    using assms(1) by (simp add: main_handlers_def docker_handlers_def work_op_simps)
  show "fst (Execute_begin ex ?op t) =
      (case exr_seen ex ''op1'' of None \<Rightarrow> Inr ?h | Some _ \<Rightarrow> Inl (Inr already_processed))"
    using h by (simp add: Execute_begin_def work_op_simps split: option.split)
  show "\<exists>y. x = Returns y" using wired.Execute_quiet(3) [OF assms] by blast
  have "wd_host w2 = wd_host w \<and>
      (exr_seen ex ''op1'' = None \<longrightarrow> exr_seen e = (exr_seen ex)(''op1'' \<mapsto> machine (wd_host w))) \<and>
      (exr_seen ex ''op1'' \<noteq> None \<longrightarrow> exr_seen e = exr_seen ex)"
  proof (cases "exr_seen ex ''op1''")
    case None
    obtain hr w' where hr: "?h ?op w = (hr, w')" by (cases "?h ?op w")
    let ?e1 = "ex\<lparr>exr_seen := (exr_seen ex)(''op1'' \<mapsto> machine (wd_host w))\<rparr>"
    obtain res e2 where f: "Execute_finish ?e1 ?op hr = (res, e2)" by (cases "Execute_finish ?e1 ?op hr")
    have "e = e2" "w2 = w'"
      using assms(2) h None hr f by (simp_all add: Execute_def Execute_begin_def work_op_simps work_now)
    moreover have "wd_host w' = wd_host w" using at_same_host(1) [of _ w] hr by (metis snd_conv)
    ultimately show ?thesis using None Execute_finish_seen [OF f] by simp
  next
    case (Some u)
    have "Execute (rt_now (main_runtime work_platform)) ex ?op w =
        (Returns (Inr already_processed), add_log (log_op ''WARN'' ''duplicate operation skipped'' ?op []) ex, w)"
      by (rule Execute_duplicate) (use h Some in \<open>simp_all add: work_op_simps domI\<close>)
    then show ?thesis using assms(2) Some by (auto simp: add_log_def)
  qed
  then show "wd_host w2 = wd_host w"
    "exr_seen ex ''op1'' = None \<Longrightarrow> exr_seen e = (exr_seen ex)(''op1'' \<mapsto> machine (wd_host w))"
    "exr_seen ex ''op1'' \<noteq> None \<Longrightarrow> exr_seen e = exr_seen ex" by blast+
qed

text \<open>A state of the sample's agent: what was begun, when \<open>op1\<close> was recorded, and the time.\<close>

definition works ::
  "((unit, unit, int) world, unit) Agent \<Rightarrow> string list \<Rightarrow> (unit, unit, int) world agent_state \<Rightarrow>
    (string \<times> int) list \<Rightarrow> int option \<Rightarrow> int \<Rightarrow> (unit, unit, int) world run_state \<Rightarrow> bool" where
  "works ag caps s0 cs rec t r \<longleftrightarrow>
     agent_reachable ag (main_runtime work_platform) caps s0 cs r \<and> alive r \<and> rn_polling r \<and>
     exr_handlers (gs_exec (rn_agent r)) = map_of (main_handlers work_platform) \<and>
     exr_seen (gs_exec (rn_agent r)) ''op1'' = rec \<and> clock_of (rn_agent r) = t"

lemma works_poll:
  assumes "works (work_agent cfg st c v) caps s0 cs rec t r"
  shows "\<exists>r'. works (work_agent cfg st c v) caps s0
     (cs @ (if rec = None then [(''op1'', t + 2 * Hour)] else []))
     (Some (case rec of None \<Rightarrow> t + 2 * Hour | Some u \<Rightarrow> u)) (t + 2 * Hour) r'"
proof -
  let ?ag = "work_agent cfg st c v" and ?rt = "main_runtime work_platform" and ?op = "to_operation work_op"
  let ?s = "rn_agent r"
  obtain s1 where n: "claim_next ?ag ?rt ?s = (Inr ?op, s1)" and s1: "gs_exec s1 = gs_exec ?s" "clock_of s1 = clock_of ?s + 2 * Hour"
    by (rule work_claim_next)
  have hs: "exr_handlers (gs_exec ?s) = map_of (main_handlers work_platform)" using assms by (simp add: works_def)
  obtain x e w2 where ex: "Execute (rt_now ?rt) (gs_exec ?s) ?op (gs_world s1) = (x, e, w2)"
    by (cases "Execute (rt_now ?rt) (gs_exec ?s) ?op (gs_world s1)") auto
  note q = work_execute [OF hs ex] and quiet = wired.Execute_quiet [OF hs ex]
  obtain y where y: "x = Returns y" using q(2) by blast
  obtain z w3 where z: "ap_CompleteOperation (ag_api ?ag) (30 * Second) (opr_ID ?op) (complete_request (opr_ID ?op) y) w2 = (z, w3)"
    by (cases "ap_CompleteOperation (ag_api ?ag) (30 * Second) (opr_ID ?op) (complete_request (opr_ID ?op) y) w2")
  have w3: "wd_host w3 = wd_host w2"
    using z by (auto simp: NewAgent_def main_api_def at_api_def io_on_def split: prod.splits)
  obtain s2 where p: "poll_pass ?ag ?rt ?s = (Again, s2)" and s2: "gs_exec s2 = e" "gs_world s2 = w3"
    using n ex y z s1(1) by (cases z) (auto simp: poll_pass_def perform_def)
  have calls: "pass_calls ?ag ?rt ?s = (if rec = None then [(''op1'', t + 2 * Hour)] else [])"
    using n s1 q(5) [of "t + 2 * Hour"] assms
    by (cases rec; cases "Execute_begin (gs_exec ?s) ?op (t + 2 * Hour)")
       (auto simp: pass_calls_def work_now work_op_simps works_def)
  let ?r = "r\<lparr>rn_agent := s2, rn_polling := True, rn_crash := None\<rparr>"
  have "agent_step ?ag ?rt caps r (pass_calls ?ag ?rt ?s) ?r"
    using agent_step.poll [of r ?ag ?rt Again s2 caps] assms p by (simp add: works_def)
  then have "agent_reachable ?ag ?rt caps s0 (cs @ pass_calls ?ag ?rt ?s) ?r"
    using assms agent_reachable.step unfolding works_def by blast
  then have "works ?ag caps s0 (cs @ (if rec = None then [(''op1'', t + 2 * Hour)] else []))
     (Some (case rec of None \<Rightarrow> t + 2 * Hour | Some u \<Rightarrow> u)) (t + 2 * Hour) ?r"
    using assms calls q s1 s2 w3 quiet(2) by (cases rec) (auto simp: works_def alive_def)
  then show ?thesis by blast
qed

lemma works_evict:
  assumes "works ag caps s0 cs (Some u) t r" and "u < t - Hour"
  shows "\<exists>r'. works ag caps s0 cs None t r'"
proof -
  let ?rt = "main_runtime work_platform"
  let ?r = "r\<lparr>rn_agent := (rn_agent r)\<lparr>gs_exec :=
      Executor.evict (gs_exec (rn_agent r)) (rt_now ?rt (gs_world (rn_agent r)))\<rparr>\<rparr>"
  have "agent_step ag ?rt caps r [] ?r" by (rule agent_step.evict) (use assms in \<open>simp add: works_def\<close>)
  then have "agent_reachable ag ?rt caps s0 (cs @ []) ?r"
    using assms agent_reachable.step unfolding works_def by blast
  then have "works ag caps s0 cs None t ?r"
    using assms by (simp add: works_def work_now alive_def evict_seen_None) (simp add: Executor.evict_def Let_def)
  then show ?thesis by blast
qed

lemma work_start:
  obtains cfg st c e w caps s where
    "cmdRun work_platform ''v1'' ''/cfg'' (sample_world ready_files 0) = (Inr (work_agent cfg st c ''v1'', Returns e), w)"
    and "cc_HeartbeatIntervalSec (cfg_Controller (ag_config (work_agent cfg st c ''v1''))) \<le> 9223372036"
    and "Run_start (work_agent cfg st c ''v1'') (main_runtime work_platform) \<lparr>gs_exec = e, gs_log = [], gs_world = w\<rparr> = (Inr caps, s)"
    and "works (work_agent cfg st c ''v1'') caps s [] None 0 (run_init s)"
proof -
  let ?run = "cmdRun work_platform ''v1'' ''/cfg'' (sample_world ready_files 0)"
  have "case ?run of
      (Inr (ag, Returns e), w) \<Rightarrow>
        (case Run_start ag (main_runtime work_platform) \<lparr>gs_exec = e, gs_log = [], gs_world = w\<rparr> of
           (Inr caps, s) \<Rightarrow> cc_HeartbeatIntervalSec (cfg_Controller (ag_config ag)) \<le> 9223372036 \<and>
             exr_seen (gs_exec s) ''op1'' = None \<and> clock_of s = 0
         | _ \<Rightarrow> False)
    | _ \<Rightarrow> False" by code_simp
  note C = this
  obtain x w where x: "?run = (x, w)" by (cases ?run)
  obtain ag o1 where a: "x = Inr (ag, o1)" using C x by (cases x) auto
  obtain e where o1: "o1 = Returns e" using C x a by (cases o1) auto
  let ?start = "Run_start ag (main_runtime work_platform) \<lparr>gs_exec = e, gs_log = [], gs_world = w\<rparr>"
  obtain y s where y: "?start = (y, s)" by (cases ?start)
  obtain caps where caps: "y = Inr caps" using C x a o1 y by (cases y) auto
  have run: "?run = (Inr (ag, Returns e), w)" and st: "?start = (Inr caps, s)"
    and iv: "cc_HeartbeatIntervalSec (cfg_Controller (ag_config ag)) \<le> 9223372036"
    and seen: "exr_seen (gs_exec s) ''op1'' = None" and t: "clock_of s = 0"
    using C x a o1 y caps by simp_all
  obtain cfg sta c where ag: "ag = work_agent cfg sta c ''v1''" and e: "exr_handlers e = map_of (main_handlers work_platform)"
    by (rule cmdRun_agent [OF run iv])
  have "sound_step (\<lambda>w. api_sent w) (map_of (main_handlers work_platform)) \<lparr>gs_exec = e, gs_log = [], gs_world = w\<rparr> s"
    by (rule wired.Run_start_sound [OF _ st [unfolded ag]]) (simp add: e)
  then have "works ag caps s [] None 0 (run_init s)"
    using seen t by (simp add: works_def run_init_def alive_def sound_step_def agent_reachable.init [unfolded run_init_def])
  then show ?thesis using that run iv st unfolding ag by blast
qed

theorem agent_requests_safe_witness:
  "\<exists>ag e w caps s cs r.
     cmdRun work_platform ''v1'' ''/cfg'' (sample_world ready_files 0) = (Inr (ag, Returns e), w) \<and>
     agent_reachable ag (main_runtime work_platform) caps s cs r \<and> length cs = 1 \<and> rn_crash r = None \<and>
     (\<exists>rs. api_sent (gs_world (rn_agent r)) = api_sent w @ rs \<and> list_all safe_request rs)"
proof -
  obtain cfg st c e w caps s where
    run: "cmdRun work_platform ''v1'' ''/cfg'' (sample_world ready_files 0) = (Inr (work_agent cfg st c ''v1'', Returns e), w)"
    and iv: "cc_HeartbeatIntervalSec (cfg_Controller (ag_config (work_agent cfg st c ''v1''))) \<le> 9223372036"
    and st: "Run_start (work_agent cfg st c ''v1'') (main_runtime work_platform) \<lparr>gs_exec = e, gs_log = [], gs_world = w\<rparr> = (Inr caps, s)"
    and w0: "works (work_agent cfg st c ''v1'') caps s [] None 0 (run_init s)"
    by (rule work_start)
  obtain r where "works (work_agent cfg st c ''v1'') caps s [(''op1'', 2 * Hour)] (Some (2 * Hour)) (2 * Hour) r"
    using works_poll [OF w0] by auto
  then have "agent_reachable (work_agent cfg st c ''v1'') (main_runtime work_platform) caps s [(''op1'', 2 * Hour)] r"
    by (simp add: works_def)
  with agent_requests_safe [OF run iv st this] run show ?thesis by fastforce
qed

theorem agent_at_most_once_per_hour_witness:
  "\<exists>ag e w caps s r.
     cmdRun work_platform ''v1'' ''/cfg'' (sample_world ready_files 0) = (Inr (ag, Returns e), w) \<and>
     agent_reachable ag (main_runtime work_platform) caps s [(''op1'', 2 * Hour), (''op1'', 6 * Hour)] r \<and>
     2 * Hour + Hour < 6 * Hour"
proof -
  obtain cfg st c e w caps s where
    run: "cmdRun work_platform ''v1'' ''/cfg'' (sample_world ready_files 0) = (Inr (work_agent cfg st c ''v1'', Returns e), w)"
    and iv: "cc_HeartbeatIntervalSec (cfg_Controller (ag_config (work_agent cfg st c ''v1''))) \<le> 9223372036"
    and st: "Run_start (work_agent cfg st c ''v1'') (main_runtime work_platform) \<lparr>gs_exec = e, gs_log = [], gs_world = w\<rparr> = (Inr caps, s)"
    and w0: "works (work_agent cfg st c ''v1'') caps s [] None 0 (run_init s)"
    by (rule work_start)
  let ?W = "works (work_agent cfg st c ''v1'') caps s"
  obtain r1 where w1: "?W [(''op1'', 2 * Hour)] (Some (2 * Hour)) (2 * Hour) r1" using works_poll [OF w0] by auto
  obtain r2 where w2: "?W [(''op1'', 2 * Hour)] (Some (2 * Hour)) (4 * Hour) r2" using works_poll [OF w1] by auto
  obtain r3 where w3: "?W [(''op1'', 2 * Hour)] None (4 * Hour) r3"
    using works_evict [OF w2] by (auto simp: Hour_def Second_def)
  obtain r where "?W [(''op1'', 2 * Hour), (''op1'', 6 * Hour)] (Some (6 * Hour)) (6 * Hour) r"
    using works_poll [OF w3] by auto
  then have re: "agent_reachable (work_agent cfg st c ''v1'') (main_runtime work_platform) caps s
      [(''op1'', 2 * Hour), (''op1'', 6 * Hour)] r"
    by (simp add: works_def)
  have fw: "clock_forward work_platform"
    by (simp add: clock_forward_def work_platform_def sample_platform_def Hour_def Second_def)
  show ?thesis using agent_at_most_once_per_hour [OF run iv st re fw, of 0 1] run re by auto
qed

theorem claimed_operation_reported_witness:
  "\<exists>ag e w caps s cs r s1 s' n.
     cmdRun work_platform ''v1'' ''/cfg'' (sample_world ready_files 0) = (Inr (ag, Returns e), w) \<and>
     agent_reachable ag (main_runtime work_platform) caps s cs r \<and>
     claim_next ag (main_runtime work_platform) (rn_agent r) = (Inr (to_operation work_op), s1) \<and>
     poll_pass ag (main_runtime work_platform) (rn_agent r) = (Again, s') \<and> 0 < n \<and>
     length (api_sent (gs_world s')) = length (api_sent (gs_world s1)) + n"
proof -
  obtain cfg st c e w caps s where
    run: "cmdRun work_platform ''v1'' ''/cfg'' (sample_world ready_files 0) = (Inr (work_agent cfg st c ''v1'', Returns e), w)"
    and iv: "cc_HeartbeatIntervalSec (cfg_Controller (ag_config (work_agent cfg st c ''v1''))) \<le> 9223372036"
    and st: "Run_start (work_agent cfg st c ''v1'') (main_runtime work_platform) \<lparr>gs_exec = e, gs_log = [], gs_world = w\<rparr> = (Inr caps, s)"
    and w0: "works (work_agent cfg st c ''v1'') caps s [] None 0 (run_init s)"
    by (rule work_start)
  let ?ag = "work_agent cfg st c ''v1''" and ?rt = "main_runtime work_platform"
  have re: "agent_reachable ?ag ?rt caps s [] (run_init s)" using w0 by (simp add: works_def)
  obtain s1 where cl: "claim_next ?ag ?rt (rn_agent (run_init s)) = (Inr (to_operation work_op), s1)"
    by (rule work_claim_next)
  have ok: "ae_CheckURL (pf_api work_platform (Some (30 * Second))) u = None"
    "ae_Over (pf_api work_platform (Some (30 * Second))) d = None" for u d
    by (simp_all add: work_platform_def work_env_def)
  obtain s' n where "poll_pass ?ag ?rt (rn_agent (run_init s)) = (Again, s')" "0 < n"
      "length (api_sent (gs_world s')) = length (api_sent (gs_world s1)) + n"
    using claimed_operation_reported [OF run iv st re cl refl refl] unfolding ok by auto
  then show ?thesis using run re cl by blast
qed

end
