(* ===== verification/Spec2Isabelle.thy ===== *)
theory Spec2Isabelle
  imports Program
begin

text \<open>
  Verification of the RouteStack node agent.

  The agent (Go, under \<open>src/\<close>) runs on a node. It enrols with a control plane over mutual TLS,
  sends heartbeats, claims operations one at a time, executes them (containers, images,
  tunnels, firewall, certificates, health checks) and reports the outcome. The theories model
  every package; definitions keep the names of the Go functions, with a prefix where two
  packages use the same name (\<open>docker_\<close>, \<open>client_\<close>, \<open>tunnel_\<close>, \<open>certs_\<close>, \<open>api_\<close>).

  What Go and the operating system contribute.
  \<^item> \<open>Prelude\<close>, \<open>GoStrings\<close>, \<open>GoPath\<close>: bytes as \<open>char\<close>, the functions of \<open>strings\<close> and
    \<open>path/filepath\<close> that are used, 64-bit wrap-around (\<open>wrap64\<close>), \<open>itoa\<close>, \<open>%q\<close>.
  \<^item> \<open>GoRegexp\<close>: regular expressions with Go's leftmost-first matching and
    \<open>ReplaceAllString\<close>. The matcher is total: it terminates because an iteration of a star that
    consumes nothing ends the star, so it needs no fuel.
  \<^item> \<open>GoErrors\<close>: error values with the chain that \<open>errors.Is\<close> and \<open>errors.As\<close> walk.
  \<^item> \<open>GoIO\<close>: an effect is a function from a state to an error or a value and the new state;
    \<open>emits\<close> says that all an effect adds to a log satisfies a predicate, \<open>along\<close> that an effect
    respects a preorder on states (locale \<open>state_order\<close>).
  \<^item> \<open>GoHost\<close>, \<open>GoHttp\<close>, \<open>GoFiles\<close>: programs that are run, HTTP exchanges, and a file system in
    which any call can fail (\<open>fs_faults\<close> says which one and how, and how many bytes of a write
    arrive). The servers and the programs are parameters, and so is whether the context of a
    request is over: \<open>http_Do\<close> then sends nothing and returns the error of the context.
  \<^item> \<open>GoJson\<close>, \<open>GoJsonPrint\<close>, \<open>GoJsonValid\<close>: \<open>encoding/json\<close>. Decoding into structs with Go's
    member matching and its errors, printing with Go's escapes, the round trip of printed
    text, and that decoded text is valid UTF-8. The parser recurses with fuel, twice the length of the
    input and two more, which the round trip shows to be enough for every text that is printed;
    for other texts it is not proved that more fuel would change nothing.

  The agent.
  \<^item> \<open>Redact\<close> (\<open>internal/redact\<close>): the four patterns and \<open>RedactSecrets\<close>. What the redaction
    promises is specified over the text alone, by \<open>shows_uuid\<close> and \<open>shows_key\<close>, without the
    code's expressions; the theory proves that these expressions match all of it and that nothing
    they match is left. The promise has the limits of the code: a UUID glued to a letter, a digit
    or an underscore, another spelling of the names of the keys and a key without its name pass.
  \<^item> \<open>Components\<close>, \<open>Installer\<close>, \<open>Docker\<close>, \<open>Service\<close>, \<open>Tunnel\<close>, \<open>Health\<close>, \<open>Firewall\<close>, \<open>Certs\<close>
    (the packages of these names): the daemon and the host are parameters; the requests sent
    and the programs run are logged. The interfaces of the Go code are records of operations
    and, where a manager relies on laws of its client, locales with an interpretation on the
    Docker client or the exec runner.
  \<^item> \<open>Executor\<close>, \<open>Handlers\<close> (\<open>internal/executor\<close>): dispatch with the idempotency window, the
    interleaving of calls, completions, time and eviction (\<open>exec_step\<close>), the handlers, and
    that each returns a result or an error.
  \<^item> \<open>Paths\<close>, \<open>Config\<close>, \<open>State\<close> (\<open>internal/filesystem\<close>, \<open>internal/agent/config.go\<close>,
    \<open>internal/state\<close>): defaults, loading and saving. \<open>AtomicWrite\<close> proves once, for any order
    of steps that stages a temporary file and renames it, that the target is replaced as a
    whole or not at all; its locale \<open>atomic_writer\<close> is interpreted for the state file, the key
    and the certificate.
  \<^item> \<open>ApiClient\<close>, \<open>Enroll\<close>, \<open>Heartbeat\<close> (\<open>internal/api\<close>): the retry loop and its refinement of
    a list of outcomes, the four requests, enrolment, and what a heartbeat collects.
  \<^item> \<open>Agent\<close>, \<open>CommandLine\<close> (\<open>internal/agent/agent.go\<close>, \<open>cmd/routestack-agent\<close>): the loops as
    functions of one pass, their interleaving (\<open>agent_step\<close>, with the handler calls each step
    begins), the wiring, \<open>run\<close> and \<open>enroll\<close>. The locale \<open>agent_system\<close> states what the loops
    rely on and is interpreted on the wiring of \<open>cmdRun\<close>, with no assumption about the
    platform. \<open>stands_for\<close> is the simulation of the running agent by the executor's own step
    system; it needs a clock that is not set back (\<open>forward\<close>).
  \<^item> \<open>Program\<close>: what holds of \<open>run\<close> and \<open>enroll\<close> with all components wired together: what is
    sent to the control plane, that a claimed operation is begun once an hour at most and is
    reported in its pass (when its ID makes a URL and the agent is not being stopped), that the
    executor is total, and what \<open>run\<close> finds after \<open>enroll\<close>. The properties of the running agent
    ask for a heartbeat interval of at most 9223372036 seconds, above which \<open>NewTicker\<close> panics.

  Bounds. Durations and \<open>int\<close> values are integers reduced to 64 bits where Go's arithmetic
  wraps; CPU counters are 64-bit words. The retry loop terminates by the measure of the
  attempts that are left. No theorem depends on a number of steps chosen in advance.

  Not modelled. TLS, dialling, cryptography, YAML decoding and floating point operations are
  parameters. The deadline of a context that ends during a request appears as an error that the
  server is free to return. A handler returns a result, no result or an error; a run-time panic
  inside a handler is not expressible, so that nothing here says that there is none. A
  pass of a loop is one step, so two loops do not interleave inside a pass. Read errors in the
  middle of a file, directories and links in the file system, the texts of usage and version
  messages, and the formatting of log lines are left out. \<open>api.Heartbeat\<close>, a wrapper without
  logic of its own, and the constructors that only store an interface have no definition.
\<close>

section \<open>Redaction\<close>

text \<open>
  Property C6. No UUID that stands alone survives the redaction, whatever the text: in what
  \<open>RedactSecrets\<close> returns, no 36 bytes of the form 8-4-4-4-12 hexadecimal digits, of either
  case, lie between bytes that are no letters, digits or underscores. (A UUID glued to
  such a byte, as in \<open>id_123e4567-...\<close>, is not covered, and the code leaves it.)
\<close>

theorem no_uuid_leaves: "\<not> shows_uuid (RedactSecrets s)"
  using RedactSecrets_redacted [of s] by (simp add: redacted_def)

text \<open>
  Property C7. No assignment to \<open>PrivateKey\<close> or \<open>PresharedKey\<close> survives the redaction, whatever
  the text: in what \<open>RedactSecrets\<close> returns, neither name, spelt so and not glued to a word on
  its left, is followed by an equals sign and a byte of a key, with white space in
  between or not. (Other spellings, as \<open>privatekey = k\<close>, are not covered, and the code leaves
  them.)
\<close>

theorem no_wireguard_key_leaves: "\<not> shows_key (RedactSecrets s)"
  using RedactSecrets_redacted [of s] by (simp add: redacted_def)

end
